theory Spec2Isabelle
  imports Main "HOL-Library.Word" "HOL-Library.Multiset"
begin

section \<open>C strings\<close>

text \<open>
  A C string is modelled by the list of its characters. Reading at the end of the list
  yields the terminating NUL; a NUL character inside a list acts as the terminator, as it
  would in memory. Section and symbol names hold no NUL, so \<^verbatim>\<open>strcmp(a, b) == 0\<close>
  on two names is equality of the lists.
\<close>

fun peek :: "string \<Rightarrow> char" where
  "peek [] = CHR 0x00"
| "peek (c # _) = c"

definition isdigit :: "char \<Rightarrow> bool" where
  "isdigit c = (c \<in> set ''0123456789'')"

text \<open>
  \<^verbatim>\<open>xsplice_mangled_strcmp\<close> (create-diff-object.c, line 198). The two inner
  \<^verbatim>\<open>while (isdigit(*++s))\<close> loops step over the dot and then over every digit
  that follows it, which is \<open>dropWhile isdigit (tl s)\<close>.
\<close>

function xsplice_mangled_strcmp :: "string \<Rightarrow> string \<Rightarrow> int" where
  "xsplice_mangled_strcmp s1 s2 =
     (if peek s1 \<noteq> peek s2 then 1
      else if peek s1 = CHR 0x00 then 0
      else if peek s1 = CHR ''.'' \<and> isdigit (peek (tl s1)) then
        (if \<not> isdigit (peek (tl s2)) then 1
         else xsplice_mangled_strcmp (dropWhile isdigit (tl s1)) (dropWhile isdigit (tl s2)))
      else xsplice_mangled_strcmp (tl s1) (tl s2))"
  by pat_completeness auto
termination
proof (relation "measure (\<lambda>(s1, s2). length s1)")
  show "wf (measure (\<lambda>(s1, s2). length s1))" by simp
next
  fix s1 s2 :: string
  assume "\<not> peek s1 \<noteq> peek s2" "peek s1 \<noteq> CHR 0x00"
  then have ne: "s1 \<noteq> []" by (cases s1) auto
  have "length (dropWhile isdigit (tl s1)) \<le> length (tl s1)"
    by (rule length_dropWhile_le)
  with ne show "((dropWhile isdigit (tl s1), dropWhile isdigit (tl s2)), s1, s2)
      \<in> measure (\<lambda>(s1, s2). length s1)"
    by (cases s1) auto
next
  fix s1 s2 :: string
  assume "\<not> peek s1 \<noteq> peek s2" "peek s1 \<noteq> CHR 0x00"
  then have ne: "s1 \<noteq> []" by (cases s1) auto
  then show "((tl s1, tl s2), s1, s2) \<in> measure (\<lambda>(s1, s2). length s1)"
    by (cases s1) auto
qed

declare xsplice_mangled_strcmp.simps [simp del]

lemma mangled_strcmp_range:
  "xsplice_mangled_strcmp s1 s2 = 0 \<or> xsplice_mangled_strcmp s1 s2 = 1"
proof (induction s1 s2 rule: xsplice_mangled_strcmp.induct)
  case (1 s1 s2)
  then show ?case by (simp add: xsplice_mangled_strcmp.simps [of s1 s2])
qed

lemma mangled_strcmp_same: "s1 = s2 \<Longrightarrow> xsplice_mangled_strcmp s1 s2 = 0"
proof (induction s1 s2 rule: xsplice_mangled_strcmp.induct)
  case (1 s1 s2)
  then show ?case by (simp add: xsplice_mangled_strcmp.simps [of s2 s2])
qed

lemma mangled_strcmp_swap:
  "xsplice_mangled_strcmp s1 s2 = 0 \<Longrightarrow> xsplice_mangled_strcmp s2 s1 = 0"
proof (induction s1 s2 rule: xsplice_mangled_strcmp.induct)
  case (1 s1 s2)
  from "1.prems" have eq: "peek s1 = peek s2"
    by (subst (asm) xsplice_mangled_strcmp.simps) (auto split: if_splits)
  show ?case
  proof (cases "peek s1 = CHR 0x00")
    case True
    with eq show ?thesis by (subst xsplice_mangled_strcmp.simps) simp
  next
    case nz: False
    show ?thesis
    proof (cases "peek s1 = CHR ''.'' \<and> isdigit (peek (tl s1))")
      case True
      with "1.prems" eq nz have d2: "isdigit (peek (tl s2))"
        and r: "xsplice_mangled_strcmp (dropWhile isdigit (tl s1)) (dropWhile isdigit (tl s2)) = 0"
        by (subst (asm) xsplice_mangled_strcmp.simps, auto split: if_splits)+
      from "1.IH"(1) eq nz True d2 r
      have "xsplice_mangled_strcmp (dropWhile isdigit (tl s2)) (dropWhile isdigit (tl s1)) = 0"
        by simp
      with eq nz True d2 show ?thesis
        by (subst xsplice_mangled_strcmp.simps) auto
    next
      case False
      with "1.prems" eq nz have r: "xsplice_mangled_strcmp (tl s1) (tl s2) = 0"
        by (subst (asm) xsplice_mangled_strcmp.simps) (auto split: if_splits)
      from "1.IH"(2) eq nz False r have r': "xsplice_mangled_strcmp (tl s2) (tl s1) = 0"
        by simp
      have tl_eq: "peek (tl s1) = peek (tl s2)" using r
        by (subst (asm) xsplice_mangled_strcmp.simps) (auto split: if_splits)
      with eq nz False r' show ?thesis
        by (subst xsplice_mangled_strcmp.simps) auto
    qed
  qed
qed

text \<open>
  Claim C9. \<^verbatim>\<open>xsplice_mangled_strcmp\<close> is a boolean predicate: on every pair of
  strings it returns 0 or 1 and never -1, it returns 0 on two identical strings, and it
  returns 0 on \<open>(s1, s2)\<close> exactly when it returns 0 on \<open>(s2, s1)\<close>.
\<close>

theorem mangled_strcmp_boolean:
  "(xsplice_mangled_strcmp s1 s2 = 0 \<or> xsplice_mangled_strcmp s1 s2 = 1) \<and>
   xsplice_mangled_strcmp s1 s2 \<noteq> - 1 \<and>
   xsplice_mangled_strcmp s s = 0 \<and>
   (xsplice_mangled_strcmp s1 s2 = 0) = (xsplice_mangled_strcmp s2 s1 = 0)"
proof -
  have range: "xsplice_mangled_strcmp s1 s2 = 0 \<or> xsplice_mangled_strcmp s1 s2 = 1"
    by (rule mangled_strcmp_range)
  then have "xsplice_mangled_strcmp s1 s2 \<noteq> - 1" by auto
  moreover have "xsplice_mangled_strcmp s s = 0" by (simp add: mangled_strcmp_same)
  moreover have "(xsplice_mangled_strcmp s1 s2 = 0) = (xsplice_mangled_strcmp s2 s1 = 0)"
    using mangled_strcmp_swap [of s1 s2] mangled_strcmp_swap [of s2 s1] by blast
  ultimately show ?thesis using range by blast
qed

theorem mangled_strcmp_boolean_witness:
  "xsplice_mangled_strcmp ''sysctl_print_dir.isra.2'' ''sysctl_print_dir.isra.31'' = 0 \<and>
   xsplice_mangled_strcmp ''sysctl_print_dir.isra.31'' ''sysctl_print_dir.isra.2'' = 0 \<and>
   xsplice_mangled_strcmp ''counter.7'' ''counter.7'' = 0 \<and>
   xsplice_mangled_strcmp ''counter.7'' ''counter.x'' = 1"
proof -
  have a: "xsplice_mangled_strcmp ''sysctl_print_dir.isra.2'' ''sysctl_print_dir.isra.31'' = 0"
    by (simp add: xsplice_mangled_strcmp.simps isdigit_def)
  have b: "xsplice_mangled_strcmp ''counter.7'' ''counter.x'' = 1"
    by (simp add: xsplice_mangled_strcmp.simps isdigit_def)
  from a b show ?thesis
    using mangled_strcmp_boolean
      [of "''sysctl_print_dir.isra.2''" "''sysctl_print_dir.isra.31''" "''counter.7''"]
    by simp
qed

definition strlen :: "string \<Rightarrow> nat" where
  "strlen s = length (takeWhile (\<lambda>c. c \<noteq> CHR 0x00) s)"

text \<open>\<^verbatim>\<open>strncmp(name, prefix, strlen(prefix)) == 0\<close> on NUL-free strings.\<close>

definition has_prefix :: "string \<Rightarrow> string \<Rightarrow> bool" where
  "has_prefix p name = (take (length p) name = p)"

text \<open>\<^verbatim>\<open>strstr(name, sub) != NULL\<close> on NUL-free strings.\<close>

fun strstr :: "string \<Rightarrow> string \<Rightarrow> bool" where
  "strstr [] sub = (sub = [])"
| "strstr (c # cs) sub = (has_prefix sub (c # cs) \<or> strstr cs sub)"

section \<open>The object model\<close>

text \<open>
  Modelled from the spec: the declarations of \<^verbatim>\<open>struct section\<close>,
  \<^verbatim>\<open>struct symbol\<close>, \<^verbatim>\<open>struct rela\<close> and \<^verbatim>\<open>enum status\<close> live in
  a header that is not part of the sources at hand; the records below follow section 3 of
  the specification and the fields that create-diff-object.c reads and writes.

  Sections and symbols are heap objects that point at each other (twin, base, rela,
  secsym, bundled symbol, owning section), so they are kept in an explicit store: a
  section is named by an address of type \<open>'s\<close>, a symbol by an address of type
  \<open>'y\<close>, and a pointer field is an optional address (\<open>None\<close> is
  \<^verbatim>\<open>NULL\<close>). Relocations sit in the list owned by their relocation section and
  are never shared. The C \<^verbatim>\<open>int\<close> fields (\<^verbatim>\<open>addend\<close>, \<^verbatim>\<open>offset\<close>)
  and the ELF header words are read as unbounded integers: every value the passes below
  compute from them is a position inside a section, far below the 32-bit limit.
\<close>

datatype status = NEW | CHANGED | SAME

datatype error = SEGV | OUT_OF_BOUNDS | SIGFPE | ERROR | DIFF_FATAL

type_synonym byte = "8 word"

record 'y rela_t =
  r_sym :: "'y option"
  r_type :: nat
  r_addend :: int
  r_offset :: int
  r_string :: "string option"

record ('s, 'y) symbol_t =
  sym_name :: string
  sym_type :: nat
  sym_bind :: nat
  sym_sec :: "'s option"
  sym_twin :: "'y option"
  sym_status :: status
  sym_include :: bool
  st_info :: nat
  st_other :: nat
  st_shndx :: nat
  st_value :: nat
  st_size :: nat

record ('s, 'y) section_t =
  sec_name :: string
  sec_twin :: "'s option"
  sh_type :: nat
  sh_flags :: nat
  sh_addr :: nat
  sh_addralign :: nat
  sh_entsize :: nat
  sh_size :: nat
  d_buf :: "byte list"
  d_size :: nat
  sec_status :: status
  sec_include :: bool
  sec_ignore :: bool
  sec_grouped :: bool
  sec_base :: "'s option"
  relas :: "'y rela_t list"
  sec_rela :: "'s option"
  sec_secsym :: "'y option"
  sec_sym :: "'y option"

record ('s, 'y) heap =
  secs :: "'s \<Rightarrow> ('s, 'y) section_t"
  syms :: "'y \<Rightarrow> ('s, 'y) symbol_t"

text \<open>Constants of \<^verbatim>\<open>elf.h\<close>.\<close>

definition STT_OBJECT :: nat where "STT_OBJECT = 1"
definition STT_FUNC :: nat where "STT_FUNC = 2"
definition STT_SECTION :: nat where "STT_SECTION = 3"
definition STT_FILE :: nat where "STT_FILE = 4"
definition STB_LOCAL :: nat where "STB_LOCAL = 0"
definition STB_GLOBAL :: nat where "STB_GLOBAL = 1"
definition SHT_PROGBITS :: nat where "SHT_PROGBITS = 1"
definition SHT_RELA :: nat where "SHT_RELA = 4"
definition SHT_NOBITS :: nat where "SHT_NOBITS = 8"
definition SHT_GROUP :: nat where "SHT_GROUP = 17"
definition SHN_UNDEF :: nat where "SHN_UNDEF = 0"
definition SHN_ABS :: nat where "SHN_ABS = 65521"
definition R_X86_64_64 :: nat where "R_X86_64_64 = 1"

lemmas elf_consts =
  STT_OBJECT_def STT_FUNC_def STT_SECTION_def STT_FILE_def STB_LOCAL_def STB_GLOBAL_def SHT_PROGBITS_def
  SHT_RELA_def SHT_NOBITS_def SHT_GROUP_def SHN_UNDEF_def SHN_ABS_def R_X86_64_64_def

declare elf_consts [simp]

text \<open>
  Modelled from the spec: \<^verbatim>\<open>is_rela_section\<close> and \<^verbatim>\<open>is_local_sym\<close> are
  helpers of the missing header. A relocation section is a section of type
  \<^verbatim>\<open>SHT_RELA\<close>; the fourth bucket of the reorder pass holds the "remaining local
  symbols", those of binding \<^verbatim>\<open>STB_LOCAL\<close>.
\<close>

definition is_rela_section :: "('s, 'y) section_t \<Rightarrow> bool" where
  "is_rela_section sec = (sh_type sec = SHT_RELA)"

definition is_local_sym :: "('s, 'y) symbol_t \<Rightarrow> bool" where
  "is_local_sym sy = (sym_bind sy = STB_LOCAL)"

section \<open>Symbol reordering\<close>

definition is_null_sym :: "('s, 'y) symbol_t \<Rightarrow> bool" where
  "is_null_sym sy = (strlen (sym_name sy) = 0)"

definition is_file_sym :: "('s, 'y) symbol_t \<Rightarrow> bool" where
  "is_file_sym sy = (sym_type sy = STT_FILE)"

definition is_local_func_sym :: "('s, 'y) symbol_t \<Rightarrow> bool" where
  "is_local_func_sym sy = (sym_bind sy = STB_LOCAL \<and> sym_type sy = STT_FUNC)"

text \<open>
  \<^verbatim>\<open>xsplice_migrate_symbols(src, dst, select)\<close>: walk \<open>src\<close>; a symbol that
  \<open>select\<close> refuses stays where it is, every other symbol is unlinked and appended to
  \<open>dst\<close>. A \<^verbatim>\<open>NULL\<close> selector takes everything. The result is the pair of
  the two lists after the walk.
\<close>

fun xsplice_migrate_symbols ::
  "('s, 'y) heap \<Rightarrow> (('s, 'y) symbol_t \<Rightarrow> bool) option \<Rightarrow> 'y list \<Rightarrow> 'y list
    \<Rightarrow> 'y list \<times> 'y list" where
  "xsplice_migrate_symbols h select [] dst = ([], dst)"
| "xsplice_migrate_symbols h select (y # src) dst =
     (if select \<noteq> None \<and> \<not> the select (syms h y)
      then (case xsplice_migrate_symbols h select src dst of (src', dst') \<Rightarrow> (y # src', dst'))
      else xsplice_migrate_symbols h select src (dst @ [y]))"

definition xsplice_reorder_symbols :: "('s, 'y) heap \<Rightarrow> 'y list \<Rightarrow> 'y list" where
  "xsplice_reorder_symbols h symbols0 =
     (case xsplice_migrate_symbols h (Some is_null_sym) symbols0 [] of (src1, dst1) \<Rightarrow>
      case xsplice_migrate_symbols h (Some is_file_sym) src1 dst1 of (src2, dst2) \<Rightarrow>
      case xsplice_migrate_symbols h (Some is_local_func_sym) src2 dst2 of (src3, dst3) \<Rightarrow>
      case xsplice_migrate_symbols h (Some is_local_sym) src3 dst3 of (src4, dst4) \<Rightarrow>
      case xsplice_migrate_symbols h None src4 dst4 of (src5, dst5) \<Rightarrow> dst5)"

text \<open>
  The bucket of a symbol in the words of the specification: 0 for the null symbol, 1 for
  \<^verbatim>\<open>STT_FILE\<close> symbols, 2 for local functions, 3 for the remaining locals, 4 for
  the rest.
\<close>

definition spec_bucket :: "('s, 'y) symbol_t \<Rightarrow> nat" where
  "spec_bucket sy =
     (if strlen (sym_name sy) = 0 then 0
      else if sym_type sy = STT_FILE then 1
      else if sym_bind sy = STB_LOCAL \<and> sym_type sy = STT_FUNC then 2
      else if sym_bind sy = STB_LOCAL then 3
      else 4)"

lemma migrate_symbols_filter:
  "xsplice_migrate_symbols h select src dst =
     (filter (\<lambda>y. select \<noteq> None \<and> \<not> the select (syms h y)) src,
      dst @ filter (\<lambda>y. \<not> (select \<noteq> None \<and> \<not> the select (syms h y))) src)"
  by (induction src arbitrary: dst) auto

lemma reorder_symbols_buckets:
  "xsplice_reorder_symbols h ys =
     filter (\<lambda>y. spec_bucket (syms h y) = 0) ys @
     filter (\<lambda>y. spec_bucket (syms h y) = 1) ys @
     filter (\<lambda>y. spec_bucket (syms h y) = 2) ys @
     filter (\<lambda>y. spec_bucket (syms h y) = 3) ys @
     filter (\<lambda>y. spec_bucket (syms h y) = 4) ys"
proof -
  have "xsplice_reorder_symbols h ys =
     filter (\<lambda>y. is_null_sym (syms h y)) ys @
     filter (\<lambda>y. \<not> is_null_sym (syms h y) \<and> is_file_sym (syms h y)) ys @
     filter (\<lambda>y. \<not> is_null_sym (syms h y) \<and> \<not> is_file_sym (syms h y) \<and>
        is_local_func_sym (syms h y)) ys @
     filter (\<lambda>y. \<not> is_null_sym (syms h y) \<and> \<not> is_file_sym (syms h y) \<and>
        \<not> is_local_func_sym (syms h y) \<and> is_local_sym (syms h y)) ys @
     filter (\<lambda>y. \<not> is_null_sym (syms h y) \<and> \<not> is_file_sym (syms h y) \<and>
        \<not> is_local_func_sym (syms h y) \<and> \<not> is_local_sym (syms h y)) ys"
    by (simp add: xsplice_reorder_symbols_def migrate_symbols_filter conj_commute
          conj_left_commute cong: conj_cong)
  also have "\<dots> = filter (\<lambda>y. spec_bucket (syms h y) = 0) ys @
     filter (\<lambda>y. spec_bucket (syms h y) = 1) ys @
     filter (\<lambda>y. spec_bucket (syms h y) = 2) ys @
     filter (\<lambda>y. spec_bucket (syms h y) = 3) ys @
     filter (\<lambda>y. spec_bucket (syms h y) = 4) ys"
    by (intro arg_cong2 [where f = append] filter_cong refl)
       (auto simp: spec_bucket_def is_null_sym_def is_file_sym_def is_local_func_sym_def
          is_local_sym_def)
  finally show ?thesis .
qed

lemma spec_bucket_le: "spec_bucket sy \<le> 4"
  by (simp add: spec_bucket_def)

lemma filter_two_buckets:
  "filter (\<lambda>y. spec_bucket (syms h y) = j \<and> spec_bucket (syms h y) = k) ys =
     (if j = k then filter (\<lambda>y. spec_bucket (syms h y) = k) ys else [])"
  by (induction ys) auto

lemma sorted_one_bucket: "sorted (map f (filter (\<lambda>y. f y = (k::nat)) ys))"
  by (induction ys) auto

lemma reorder_symbols_sorted:
  "sorted (map (\<lambda>y. spec_bucket (syms h y)) (xsplice_reorder_symbols h ys))"
  by (auto simp: reorder_symbols_buckets sorted_append sorted_one_bucket)

lemma reorder_symbols_stable:
  "filter (\<lambda>y. spec_bucket (syms h y) = k) (xsplice_reorder_symbols h ys) =
   filter (\<lambda>y. spec_bucket (syms h y) = k) ys"
proof -
  have "k = 0 \<or> k = 1 \<or> k = 2 \<or> k = 3 \<or> k = 4 \<or> 4 < k" by arith
  moreover have "4 < k \<Longrightarrow> filter (\<lambda>y. spec_bucket (syms h y) = k) zs = []" for zs
  proof -
    assume "4 < k"
    then have "spec_bucket (syms h y) \<noteq> k" for y
      using spec_bucket_le [of "syms h y"] by arith
    then show ?thesis by simp
  qed
  ultimately show ?thesis
    by (auto simp: reorder_symbols_buckets filter_two_buckets)
qed

lemma reorder_symbols_mset: "mset (xsplice_reorder_symbols h ys) = mset ys"
proof -
  have "mset (xsplice_reorder_symbols h ys) =
      mset (filter (\<lambda>y. spec_bucket (syms h y) \<le> 4) ys)"
    unfolding reorder_symbols_buckets
    by (induction ys) (auto simp: spec_bucket_def)
  then show ?thesis by (simp add: spec_bucket_le)
qed

text \<open>
  Claim C8. The reorder pass permutes the symbol list (nothing is dropped, nothing is
  duplicated) into the bucket sequence null symbol, \<^verbatim>\<open>STT_FILE\<close> symbols, local
  functions, remaining locals, globals: the buckets of the result are in ascending order,
  and the symbols of any one bucket appear in their original relative order.
\<close>

theorem reorder_symbols_stable_partition:
  "mset (xsplice_reorder_symbols h ys) = mset ys \<and>
   sorted (map (\<lambda>y. spec_bucket (syms h y)) (xsplice_reorder_symbols h ys)) \<and>
   (\<forall>k. filter (\<lambda>y. spec_bucket (syms h y) = k) (xsplice_reorder_symbols h ys) =
        filter (\<lambda>y. spec_bucket (syms h y) = k) ys)"
  using reorder_symbols_mset [of h ys] reorder_symbols_sorted [of h ys]
    reorder_symbols_stable [of h _ ys]
  by blast

section \<open>Special statics, constant labels and relocation equality\<close>

text \<open>A struct as \<^verbatim>\<open>memset(0)\<close> leaves it; \<^verbatim>\<open>NEW\<close> is the first enumerator.\<close>

definition zero_symbol :: "('s, 'y) symbol_t" where
  "zero_symbol = \<lparr>sym_name = [], sym_type = 0, sym_bind = 0, sym_sec = None, sym_twin = None,
     sym_status = NEW, sym_include = False, st_info = 0, st_other = 0, st_shndx = 0,
     st_value = 0, st_size = 0\<rparr>"

definition zero_section :: "('s, 'y) section_t" where
  "zero_section = \<lparr>sec_name = [], sec_twin = None, sh_type = 0, sh_flags = 0, sh_addr = 0,
     sh_addralign = 0, sh_entsize = 0, sh_size = 0, d_buf = [], d_size = 0, sec_status = NEW,
     sec_include = False, sec_ignore = False, sec_grouped = False, sec_base = None, relas = [],
     sec_rela = None, sec_secsym = None, sec_sym = None\<rparr>"

definition zero_rela :: "'y rela_t" where
  "zero_rela = \<lparr>r_sym = None, r_type = 0, r_addend = 0, r_offset = 0, r_string = None\<rparr>"

definition upd_sec ::
  "('s, 'y) heap \<Rightarrow> 's \<Rightarrow> (('s, 'y) section_t \<Rightarrow> ('s, 'y) section_t) \<Rightarrow> ('s, 'y) heap" where
  "upd_sec h s f = h\<lparr>secs := (secs h)(s := f (secs h s))\<rparr>"

definition upd_sym ::
  "('s, 'y) heap \<Rightarrow> 'y \<Rightarrow> (('s, 'y) symbol_t \<Rightarrow> ('s, 'y) symbol_t) \<Rightarrow> ('s, 'y) heap" where
  "upd_sym h y f = h\<lparr>syms := (syms h)(y := f (syms h y))\<rparr>"

definition special_prefixes :: "string list" where
  "special_prefixes = [''__key.'', ''__warned.'', ''descriptor.'', ''__func__.'', ''_rs.'']"

text \<open>The tail of \<^verbatim>\<open>is_special_static\<close>: a local object with one of the prefixes.\<close>

definition special_static_object :: "('s, 'y) symbol_t \<Rightarrow> bool" where
  "special_static_object sy =
     (sym_type sy = STT_OBJECT \<and> sym_bind sy = STB_LOCAL \<and>
      list_ex (\<lambda>p. has_prefix p (sym_name sy)) special_prefixes)"

text \<open>
  \<^verbatim>\<open>is_special_static\<close> (line 295). A section symbol other than
  \<^verbatim>\<open>__verbose\<close> is judged by the bundled symbol of its section; the code reads
  \<^verbatim>\<open>sym->sec->sym\<close> without a check, so a section symbol with no section is a
  crash.
\<close>

definition is_special_static :: "('s, 'y) heap \<Rightarrow> 'y option \<Rightarrow> error + bool" where
  "is_special_static h p =
     (case p of
        None \<Rightarrow> Inr False
      | Some y \<Rightarrow>
          if sym_type (syms h y) = STT_SECTION then
            (if sym_name (syms h y) = ''__verbose'' then Inr True
             else case sym_sec (syms h y) of
                    None \<Rightarrow> Inl SEGV
                  | Some s \<Rightarrow>
                      (case sec_sym (secs h s) of
                         None \<Rightarrow> Inr False
                       | Some b \<Rightarrow> Inr (special_static_object (syms h b))))
          else Inr (special_static_object (syms h y)))"

text \<open>
  \<^verbatim>\<open>is_constant_label\<close> (line 333): a local symbol named \<^verbatim>\<open>.LC\<close> followed by
  one or more digits and nothing else (the \<^verbatim>\<open>do ... while\<close> loop tests the first
  character after the prefix before it looks for the end).
\<close>

definition is_constant_label :: "('s, 'y) symbol_t \<Rightarrow> bool" where
  "is_constant_label sy =
     (sym_bind sy = STB_LOCAL \<and> has_prefix ''.LC'' (sym_name sy) \<and>
      drop 3 (sym_name sy) \<noteq> [] \<and> list_all isdigit (drop 3 (sym_name sy)))"

text \<open>
  \<^verbatim>\<open>rela_equal\<close> (line 571); \<open>rela1\<close> is the relocation of the patched object,
  \<open>rela2\<close> the one of its twin. The target symbols are dereferenced in the order of
  the C expression: \<^verbatim>\<open>rela2->sym\<close> is read by the second operand of
  \<^verbatim>\<open>&&\<close> only when the first holds, and by the name comparison otherwise.
\<close>

definition names_equal ::
  "('s, 'y) heap \<Rightarrow> bool \<Rightarrow> 'y \<Rightarrow> 'y option \<Rightarrow> error + bool" where
  "names_equal h mangled y1 p2 =
     (case p2 of
        None \<Rightarrow> Inl SEGV
      | Some y2 \<Rightarrow>
          Inr (if mangled
               then xsplice_mangled_strcmp (sym_name (syms h y1)) (sym_name (syms h y2)) = 0
               else sym_name (syms h y1) = sym_name (syms h y2)))"

definition both_constant_labels :: "('s, 'y) heap \<Rightarrow> 'y \<Rightarrow> 'y option \<Rightarrow> error + bool" where
  "both_constant_labels h y1 p2 =
     (if is_constant_label (syms h y1)
      then (case p2 of None \<Rightarrow> Inl SEGV | Some y2 \<Rightarrow> Inr (is_constant_label (syms h y2)))
      else Inr False)"

definition targets_equal :: "('s, 'y) heap \<Rightarrow> 'y option \<Rightarrow> 'y option \<Rightarrow> error + bool" where
  "targets_equal h p1 p2 =
     (case p1 of
        None \<Rightarrow> Inl SEGV
      | Some y1 \<Rightarrow>
          (case both_constant_labels h y1 p2 of
             Inl e \<Rightarrow> Inl e
           | Inr both \<Rightarrow>
               if both then Inr True
               else (case is_special_static h (Some y1) of
                       Inl e \<Rightarrow> Inl e
                     | Inr special \<Rightarrow> names_equal h special y1 p2)))"

definition rela_equal :: "('s, 'y) heap \<Rightarrow> 'y rela_t \<Rightarrow> 'y rela_t \<Rightarrow> error + bool" where
  "rela_equal h rela1 rela2 =
     (if r_type rela1 \<noteq> r_type rela2 \<or> r_offset rela1 \<noteq> r_offset rela2 then Inr False
      else (case r_string rela1 of
              Some str1 \<Rightarrow> Inr (r_string rela2 = Some str1)
            | None \<Rightarrow>
                if r_addend rela1 \<noteq> r_addend rela2 then Inr False
                else targets_equal h (r_sym rela1) (r_sym rela2)))"

text \<open>
  Relocation equality in the words of the specification, for two relocations whose targets
  are \<open>y1\<close> and \<open>y2\<close>: same type and offset; the string of the patched
  relocation, when it has one, equals the twin's, otherwise the addends agree; and the
  targets agree, where two constant labels always agree, names are compared under mangled
  equality when either target is a special static, and literally otherwise.
\<close>

definition spec_rela_equal ::
  "('s, 'y) heap \<Rightarrow> 'y rela_t \<Rightarrow> 'y rela_t \<Rightarrow> 'y \<Rightarrow> 'y \<Rightarrow> bool" where
  "spec_rela_equal h rela1 rela2 y1 y2 =
     (r_type rela1 = r_type rela2 \<and> r_offset rela1 = r_offset rela2 \<and>
      (if r_string rela1 \<noteq> None then r_string rela2 = r_string rela1
       else r_addend rela1 = r_addend rela2) \<and>
      (if is_constant_label (syms h y1) \<and> is_constant_label (syms h y2) then True
       else if is_special_static h (Some y1) = Inr True \<or> is_special_static h (Some y2) = Inr True
       then xsplice_mangled_strcmp (sym_name (syms h y1)) (sym_name (syms h y2)) = 0
       else sym_name (syms h y1) = sym_name (syms h y2)))"

text \<open>
  Two relocations of the same type, offset and addend. The patched one refers to a global
  object \<^verbatim>\<open>__key.1\<close>, the twin to a local object \<^verbatim>\<open>__key.2\<close>, which is a
  special static.
\<close>

definition key_heap :: "(nat, nat) heap" where
  "key_heap = \<lparr>secs = (\<lambda>_. zero_section),
     syms = (\<lambda>_. zero_symbol)
       (1 := zero_symbol\<lparr>sym_name := ''__key.1'', sym_type := STT_OBJECT, sym_bind := STB_GLOBAL\<rparr>,
        2 := zero_symbol\<lparr>sym_name := ''__key.2'', sym_type := STT_OBJECT, sym_bind := STB_LOCAL\<rparr>)\<rparr>"

definition key_rela :: "nat \<Rightarrow> nat rela_t" where
  "key_rela y = zero_rela\<lparr>r_sym := Some y, r_type := R_X86_64_64, r_addend := 0, r_offset := 8\<rparr>"

text \<open>
  Claim C3, as the code has it. The comparator's relocation equality holds exactly when the
  two relocations have the same type and offset and, if the patched relocation carries a
  string, the twin carries an equal string (nothing else is compared then); otherwise the
  addends are equal and the targets agree: both are constant labels, or their names are
  equal under mangled equality when the target of the patched relocation is a special
  static, and literally when it is not. Whether the twin's target is a special static is
  never consulted.
\<close>

theorem rela_equal_characterisation:
  assumes "r_sym rela1 = Some y1" and "r_sym rela2 = Some y2"
    and "is_special_static h (Some y1) = Inr special"
  shows "rela_equal h rela1 rela2 =
    Inr (r_type rela1 = r_type rela2 \<and> r_offset rela1 = r_offset rela2 \<and>
         (case r_string rela1 of
            Some str1 \<Rightarrow> r_string rela2 = Some str1
          | None \<Rightarrow>
              r_addend rela1 = r_addend rela2 \<and>
              (is_constant_label (syms h y1) \<and> is_constant_label (syms h y2) \<or>
               (if special
                then xsplice_mangled_strcmp (sym_name (syms h y1)) (sym_name (syms h y2)) = 0
                else sym_name (syms h y1) = sym_name (syms h y2)))))"
  using assms
  by (auto simp: rela_equal_def targets_equal_def both_constant_labels_def names_equal_def
      split: option.splits sum.splits)

lemma key_heap_special:
  "is_special_static key_heap (Some 1) = Inr False"
  "is_special_static key_heap (Some 2) = Inr True"
  by (simp_all add: key_heap_def zero_symbol_def is_special_static_def
      special_static_object_def special_prefixes_def has_prefix_def)

theorem rela_equal_characterisation_witness:
  "rela_equal key_heap (key_rela 2) (key_rela 1) = Inr True"
proof -
  have "r_sym (key_rela 2) = Some 2" "r_sym (key_rela 1) = Some 1"
    by (simp_all add: key_rela_def)
  from rela_equal_characterisation [OF this key_heap_special(2)]
  show ?thesis
    by (simp add: key_rela_def zero_rela_def key_heap_def zero_symbol_def
        xsplice_mangled_strcmp.simps isdigit_def)
qed

text \<open>
  The claim as stated fails when only the twin's target is a special static: the
  specification's relation holds (the names agree under mangled equality), the code
  compares the names literally and reports a difference.
\<close>

theorem rela_equal_either_special_counterexample:
  "rela_equal key_heap (key_rela 1) (key_rela 2) = Inr False \<and>
   spec_rela_equal key_heap (key_rela 1) (key_rela 2) 1 2"
  by (simp add: rela_equal_def targets_equal_def both_constant_labels_def names_equal_def
      key_heap_def key_rela_def zero_rela_def zero_symbol_def is_constant_label_def
      has_prefix_def is_special_static_def special_static_object_def special_prefixes_def
      spec_rela_equal_def xsplice_mangled_strcmp.simps isdigit_def)

section \<open>The comparator\<close>

text \<open>
  \<^verbatim>\<open>xsplice_compare_correlated_rela_section\<close> (line 594) walks the relocations of the
  section and keeps a cursor into the twin's list. The cursor is the remaining part of the
  twin's list; when it is empty the C cursor is the list head, which is no relocation, and
  comparing against it reads outside the list.
\<close>

fun rela_walk :: "('s, 'y) heap \<Rightarrow> 'y rela_t list \<Rightarrow> 'y rela_t list \<Rightarrow> error + status" where
  "rela_walk h [] cursor = Inr SAME"
| "rela_walk h (rela1 # rest) [] = Inl OUT_OF_BOUNDS"
| "rela_walk h (rela1 # rest) (rela2 # cursor) =
     (case rela_equal h rela1 rela2 of
        Inl e \<Rightarrow> Inl e
      | Inr eq \<Rightarrow> if eq then rela_walk h rest cursor else Inr CHANGED)"

definition set_sec_status :: "('s, 'y) heap \<Rightarrow> 's \<Rightarrow> status \<Rightarrow> ('s, 'y) heap" where
  "set_sec_status h s st = upd_sec h s (\<lambda>sec. sec\<lparr>sec_status := st\<rparr>)"

definition set_sym_status :: "('s, 'y) heap \<Rightarrow> 'y \<Rightarrow> status \<Rightarrow> ('s, 'y) heap" where
  "set_sym_status h y st = upd_sym h y (\<lambda>sy. sy\<lparr>sym_status := st\<rparr>)"

definition xsplice_compare_correlated_rela_section ::
  "('s, 'y) heap \<Rightarrow> 's \<Rightarrow> error + ('s, 'y) heap" where
  "xsplice_compare_correlated_rela_section h s =
     (case sec_twin (secs h s) of
        None \<Rightarrow> Inl SEGV
      | Some t \<Rightarrow>
          (case rela_walk h (relas (secs h s)) (relas (secs h t)) of
             Inl e \<Rightarrow> Inl e
           | Inr st \<Rightarrow> Inr (set_sec_status h s st)))"

definition xsplice_compare_correlated_nonrela_section ::
  "('s, 'y) heap \<Rightarrow> 's \<Rightarrow> error + ('s, 'y) heap" where
  "xsplice_compare_correlated_nonrela_section h s =
     (case sec_twin (secs h s) of
        None \<Rightarrow> Inl SEGV
      | Some t \<Rightarrow>
          if sh_type (secs h s) \<noteq> SHT_NOBITS \<and>
             take (d_size (secs h s)) (d_buf (secs h s)) \<noteq>
             take (d_size (secs h s)) (d_buf (secs h t))
          then Inr (set_sec_status h s CHANGED)
          else Inr (set_sec_status h s SAME))"

text \<open>
  The branch that \<^verbatim>\<open>xsplice_compare_correlated_section\<close> (line 622) takes for a
  section and its twin: the fatal header mismatch, the early \<^verbatim>\<open>goto out\<close> on a
  size mismatch, the relocation walk, or the comparison of the data bytes.
\<close>

datatype compare_branch = Header_Mismatch | Size_Mismatch | Compare_Relas | Compare_Data

definition compare_branch_of ::
  "('s, 'y) section_t \<Rightarrow> ('s, 'y) section_t \<Rightarrow> compare_branch" where
  "compare_branch_of sec1 sec2 =
     (if sh_type sec1 \<noteq> sh_type sec2 \<or> sh_flags sec1 \<noteq> sh_flags sec2 \<or>
         sh_addr sec1 \<noteq> sh_addr sec2 \<or> sh_addralign sec1 \<noteq> sh_addralign sec2 \<or>
         sh_entsize sec1 \<noteq> sh_entsize sec2
      then Header_Mismatch
      else if sh_size sec1 \<noteq> sh_size sec2 \<or> d_size sec1 \<noteq> d_size sec2
      then Size_Mismatch
      else if is_rela_section sec1 then Compare_Relas
      else Compare_Data)"

definition xsplice_compare_correlated_section ::
  "('s, 'y) heap \<Rightarrow> 's \<Rightarrow> error + ('s, 'y) heap" where
  "xsplice_compare_correlated_section h s =
     (case sec_twin (secs h s) of
        None \<Rightarrow> Inl SEGV
      | Some t \<Rightarrow>
          (case compare_branch_of (secs h s) (secs h t) of
             Header_Mismatch \<Rightarrow> Inl DIFF_FATAL
           | Size_Mismatch \<Rightarrow> Inr (set_sec_status h s CHANGED)
           | Compare_Relas \<Rightarrow> xsplice_compare_correlated_rela_section h s
           | Compare_Data \<Rightarrow> xsplice_compare_correlated_nonrela_section h s))"

text \<open>\<^verbatim>\<open>xsplice_compare_sections\<close> (line 651): the comparison loop, then the loop
  that copies section statuses to the bundled symbols.\<close>

fun compare_sections_loop :: "('s, 'y) heap \<Rightarrow> 's list \<Rightarrow> error + ('s, 'y) heap" where
  "compare_sections_loop h [] = Inr h"
| "compare_sections_loop h (s # seclist) =
     (case (if sec_twin (secs h s) \<noteq> None then xsplice_compare_correlated_section h s
            else Inr (set_sec_status h s NEW)) of
        Inl e \<Rightarrow> Inl e
      | Inr h' \<Rightarrow> compare_sections_loop h' seclist)"

definition sync_bundled_status :: "('s, 'y) heap \<Rightarrow> 'y option \<Rightarrow> status \<Rightarrow> ('s, 'y) heap" where
  "sync_bundled_status h p st =
     (case p of
        None \<Rightarrow> h
      | Some y \<Rightarrow> if sym_status (syms h y) \<noteq> CHANGED then set_sym_status h y st else h)"

fun sync_symbol_status_loop :: "('s, 'y) heap \<Rightarrow> 's list \<Rightarrow> error + ('s, 'y) heap" where
  "sync_symbol_status_loop h [] = Inr h"
| "sync_symbol_status_loop h (s # seclist) =
     (if is_rela_section (secs h s)
      then (case sec_base (secs h s) of
              None \<Rightarrow> Inl SEGV
            | Some b \<Rightarrow>
                sync_symbol_status_loop
                  (sync_bundled_status h (sec_sym (secs h b)) (sec_status (secs h s))) seclist)
      else sync_symbol_status_loop
             (sync_bundled_status h (sec_sym (secs h s)) (sec_status (secs h s))) seclist)"

definition xsplice_compare_sections :: "('s, 'y) heap \<Rightarrow> 's list \<Rightarrow> error + ('s, 'y) heap" where
  "xsplice_compare_sections h seclist =
     (case compare_sections_loop h seclist of
        Inl e \<Rightarrow> Inl e
      | Inr h' \<Rightarrow> sync_symbol_status_loop h' seclist)"

text \<open>\<^verbatim>\<open>xsplice_compare_correlated_symbol\<close> (line 675).\<close>

definition symbol_changed_sections :: "('s, 'y) heap \<Rightarrow> 's option \<Rightarrow> 's option \<Rightarrow> bool" where
  "symbol_changed_sections h p1 p2 =
     (case (p1, p2) of
        (Some s1, Some s2) \<Rightarrow> sec_twin (secs h s1) \<noteq> Some s2
      | _ \<Rightarrow> False)"

definition twin_is_ignored :: "('s, 'y) heap \<Rightarrow> 's option \<Rightarrow> bool" where
  "twin_is_ignored h p2 =
     (case p2 of
        None \<Rightarrow> False
      | Some s2 \<Rightarrow>
          (case sec_twin (secs h s2) of None \<Rightarrow> False | Some w \<Rightarrow> sec_ignore (secs h w)))"

definition xsplice_compare_correlated_symbol ::
  "('s, 'y) heap \<Rightarrow> 'y \<Rightarrow> error + ('s, 'y) heap" where
  "xsplice_compare_correlated_symbol h y =
     (case sym_twin (syms h y) of
        None \<Rightarrow> Inl SEGV
      | Some t \<Rightarrow>
          let sym1 = syms h y; sym2 = syms h t in
          if st_info sym1 \<noteq> st_info sym2 \<or> st_other sym1 \<noteq> st_other sym2 \<or>
             (sym_sec sym1 \<noteq> None \<and> sym_sec sym2 = None) \<or>
             (sym_sec sym2 \<noteq> None \<and> sym_sec sym1 = None)
          then Inl DIFF_FATAL
          else if symbol_changed_sections h (sym_sec sym1) (sym_sec sym2) \<and>
                  \<not> twin_is_ignored h (sym_sec sym2)
          then Inl DIFF_FATAL
          else if sym_type sym1 = STT_OBJECT \<and> st_size sym1 \<noteq> st_size sym2
          then Inl DIFF_FATAL
          else
            let h1 = (if symbol_changed_sections h (sym_sec sym1) (sym_sec sym2)
                      then set_sym_status h y CHANGED else h)
            in if st_shndx sym1 = SHN_UNDEF \<or> st_shndx sym1 = SHN_ABS
               then Inr (set_sym_status h1 y SAME)
               else Inr h1)"

fun xsplice_compare_symbols :: "('s, 'y) heap \<Rightarrow> 'y list \<Rightarrow> error + ('s, 'y) heap" where
  "xsplice_compare_symbols h [] = Inr h"
| "xsplice_compare_symbols h (y # symlist) =
     (case (if sym_twin (syms h y) \<noteq> None then xsplice_compare_correlated_symbol h y
            else Inr (set_sym_status h y NEW)) of
        Inl e \<Rightarrow> Inl e
      | Inr h' \<Rightarrow> xsplice_compare_symbols h' symlist)"

definition xsplice_compare_correlated_elements ::
  "('s, 'y) heap \<Rightarrow> 's list \<Rightarrow> 'y list \<Rightarrow> error + ('s, 'y) heap" where
  "xsplice_compare_correlated_elements h seclist symlist =
     (case xsplice_compare_sections h seclist of
        Inl e \<Rightarrow> Inl e
      | Inr h' \<Rightarrow> xsplice_compare_symbols h' symlist)"








section \<open>The inclusion engine\<close>

definition set_sec_include :: "('s, 'y) heap \<Rightarrow> 's \<Rightarrow> bool \<Rightarrow> ('s, 'y) heap" where
  "set_sec_include h s b = upd_sec h s (\<lambda>sec. sec\<lparr>sec_include := b\<rparr>)"

definition set_sym_include :: "('s, 'y) heap \<Rightarrow> 'y \<Rightarrow> bool \<Rightarrow> ('s, 'y) heap" where
  "set_sym_include h y b = upd_sym h y (\<lambda>sy. sy\<lparr>sym_include := b\<rparr>)"

text \<open>
  The middle of \<^verbatim>\<open>xsplice_include_symbol\<close> (lines 1102 to 1108): the section of the
  symbol is included, and its section symbol too unless that is the symbol itself.
\<close>

definition include_section_of :: "('s, 'y) heap \<Rightarrow> 'y \<Rightarrow> 's \<Rightarrow> ('s, 'y) heap" where
  "include_section_of h y s =
     (case sec_secsym (secs h s) of
        None \<Rightarrow> set_sec_include h s True
      | Some q \<Rightarrow>
          if q \<noteq> y then set_sym_include (set_sec_include h s True) q True
          else set_sec_include h s True)"

lemma secs_set_sym_include [simp]: "secs (set_sym_include h y b) = secs h"
  by (simp add: set_sym_include_def upd_sym_def)

lemma syms_set_sec_include [simp]: "syms (set_sec_include h s b) = syms h"
  by (simp add: set_sec_include_def upd_sec_def)

lemma secs_set_sec_include:
  "secs (set_sec_include h s b) = (secs h)(s := (secs h s)\<lparr>sec_include := b\<rparr>)"
  by (simp add: set_sec_include_def upd_sec_def)

lemma syms_set_sym_include:
  "syms (set_sym_include h y b) = (syms h)(y := (syms h y)\<lparr>sym_include := b\<rparr>)"
  by (simp add: set_sym_include_def upd_sym_def)

lemma secs_include_section_of:
  "secs (include_section_of h y s) = (secs h)(s := (secs h s)\<lparr>sec_include := True\<rparr>)"
  by (simp add: include_section_of_def secs_set_sec_include split: option.splits)

text \<open>The sections not yet included: the recursion of the closure shrinks this set.\<close>

definition not_included :: "('s, 'y) heap \<Rightarrow> 's set" where
  "not_included h = {s. \<not> sec_include (secs h s)}"

lemma not_included_set_sym_include [simp]:
  "not_included (set_sym_include h y b) = not_included h"
  by (simp add: not_included_def)

lemma not_included_set_sec_include:
  "not_included (set_sec_include h s True) = not_included h - {s}"
  by (auto simp: not_included_def secs_set_sec_include)

lemma not_included_include_section_of:
  "not_included (include_section_of h y s) = not_included h - {s}"
  by (auto simp: not_included_def secs_include_section_of)

text \<open>
  \<^verbatim>\<open>xsplice_include_symbol\<close> (line 1086) calls itself for the target of every
  relocation of the relocation section it has just included. The recursion is written here
  with its call stack made explicit: the list holds the symbols still to be visited, in the
  order in which the C calls would be made. The pass writes include flags only, so the
  fields it reads (the section of the symbol, the status, the relocation list) are the same
  before and after the writes of one step. A \<^verbatim>\<open>NULL\<close> target is dereferenced by the
  first statement of the call.
\<close>

definition inclusion_base_case :: "('s, 'y) heap \<Rightarrow> 'y \<Rightarrow> 's \<Rightarrow> bool" where
  "inclusion_base_case h y s =
     (sec_include (secs h s) \<or>
      (sym_type (syms h y) \<noteq> STT_SECTION \<and> sym_status (syms h y) = SAME))"

function include_symbol_loop ::
  "('s::finite, 'y) heap \<Rightarrow> 'y option list \<Rightarrow> error + ('s, 'y) heap" where
  "include_symbol_loop h [] = Inr h"
| "include_symbol_loop h (None # stack) = Inl SEGV"
| "include_symbol_loop h (Some y # stack) =
     (case sym_sec (syms h y) of
        None \<Rightarrow> include_symbol_loop (set_sym_include h y True) stack
      | Some s \<Rightarrow>
          if inclusion_base_case h y s
          then include_symbol_loop (set_sym_include h y True) stack
          else (case sec_rela (secs h s) of
                  None \<Rightarrow>
                    include_symbol_loop (include_section_of (set_sym_include h y True) y s) stack
                | Some rs \<Rightarrow>
                    include_symbol_loop
                      (set_sec_include (include_section_of (set_sym_include h y True) y s) rs True)
                      (map r_sym (relas (secs h rs)) @ stack)))"
  by pat_completeness auto
termination
proof (relation "inv_image (less_than <*lex*> less_than)
    (\<lambda>(h, stack). (card (not_included h), length stack))")
  show "wf (inv_image (less_than <*lex*> less_than)
      (\<lambda>(h :: ('s::finite, 'y) heap, stack :: 'y option list). (card (not_included h), length stack)))"
    by (intro wf_inv_image wf_lex_prod wf_less_than)
next
  fix h :: "('s::finite, 'y) heap" and y stack
  show "((set_sym_include h y True, stack), h, Some y # stack)
      \<in> inv_image (less_than <*lex*> less_than) (\<lambda>(h, stack). (card (not_included h), length stack))"
    by simp
  then show "((set_sym_include h y True, stack), h, Some y # stack)
      \<in> inv_image (less_than <*lex*> less_than) (\<lambda>(h, stack). (card (not_included h), length stack))" .
next
  fix h :: "('s::finite, 'y) heap" and y stack s
  assume "\<not> inclusion_base_case h y s"
  then have "s \<in> not_included h" by (simp add: not_included_def inclusion_base_case_def)
  then have "card (not_included h - {s}) < card (not_included h)"
    by (intro card_Diff1_less) simp_all
  then show "((include_section_of (set_sym_include h y True) y s, stack), h, Some y # stack)
      \<in> inv_image (less_than <*lex*> less_than) (\<lambda>(h, stack). (card (not_included h), length stack))"
    by (simp add: not_included_include_section_of)
next
  fix h :: "('s::finite, 'y) heap" and y stack s rs
  assume "\<not> inclusion_base_case h y s"
  then have "s \<in> not_included h" by (simp add: not_included_def inclusion_base_case_def)
  then have "card (not_included h - {s}) < card (not_included h)"
    by (intro card_Diff1_less) simp_all
  moreover have "card (not_included h - {s} - {rs}) \<le> card (not_included h - {s})"
    by (intro card_mono) auto
  ultimately show "((set_sec_include (include_section_of (set_sym_include h y True) y s) rs True,
        map r_sym (relas (secs h rs)) @ stack), h, Some y # stack)
      \<in> inv_image (less_than <*lex*> less_than) (\<lambda>(h, stack). (card (not_included h), length stack))"
    by (simp add: not_included_include_section_of not_included_set_sec_include)
qed

declare include_symbol_loop.simps [simp del]

definition xsplice_include_symbol ::
  "('s::finite, 'y) heap \<Rightarrow> 'y option \<Rightarrow> error + ('s, 'y) heap" where
  "xsplice_include_symbol h p = include_symbol_loop h [p]"

text \<open>
  \<^verbatim>\<open>xsplice_include_standard_elements\<close> (line 1063). The null symbol is the first
  entry of the symbol list; on an empty list the C code would write to the list head.
\<close>

definition standard_section_name :: "string \<Rightarrow> bool" where
  "standard_section_name name =
     (name = ''.shstrtab'' \<or> name = ''.strtab'' \<or> name = ''.symtab'' \<or>
      has_prefix ''.rodata.str1.'' name)"

definition include_with_secsym :: "('s, 'y) heap \<Rightarrow> 's \<Rightarrow> ('s, 'y) heap" where
  "include_with_secsym h s =
     (case sec_secsym (secs h s) of
        None \<Rightarrow> set_sec_include h s True
      | Some q \<Rightarrow> set_sym_include (set_sec_include h s True) q True)"

fun include_standard_sections :: "('s, 'y) heap \<Rightarrow> 's list \<Rightarrow> ('s, 'y) heap" where
  "include_standard_sections h [] = h"
| "include_standard_sections h (s # seclist) =
     include_standard_sections
       (if standard_section_name (sec_name (secs h s)) then include_with_secsym h s else h)
       seclist"

definition xsplice_include_standard_elements ::
  "('s, 'y) heap \<Rightarrow> 's list \<Rightarrow> 'y list \<Rightarrow> error + ('s, 'y) heap" where
  "xsplice_include_standard_elements h seclist symlist =
     (case symlist of
        [] \<Rightarrow> Inl OUT_OF_BOUNDS
      | y # _ \<Rightarrow> Inr (set_sym_include (include_standard_sections h seclist) y True))"

text \<open>
  \<^verbatim>\<open>xsplice_include_changed_functions\<close> (line 1120); the third argument is the
  counter \<^verbatim>\<open>changed_nr\<close>, returned with the heap.
\<close>

fun include_changed_functions_loop ::
  "('s::finite, 'y) heap \<Rightarrow> 'y list \<Rightarrow> nat \<Rightarrow> error + nat \<times> ('s, 'y) heap" where
  "include_changed_functions_loop h [] changed_nr = Inr (changed_nr, h)"
| "include_changed_functions_loop h (y # symlist) changed_nr =
     (if sym_status (syms h y) = CHANGED \<and> sym_type (syms h y) = STT_FUNC
      then (case xsplice_include_symbol h (Some y) of
              Inl e \<Rightarrow> Inl e
            | Inr h' \<Rightarrow>
                include_changed_functions_loop
                  (if sym_type (syms h' y) = STT_FILE then set_sym_include h' y True else h')
                  symlist (changed_nr + 1))
      else include_changed_functions_loop
             (if sym_type (syms h y) = STT_FILE then set_sym_include h y True else h)
             symlist changed_nr)"

definition xsplice_include_changed_functions ::
  "('s::finite, 'y) heap \<Rightarrow> 'y list \<Rightarrow> error + nat \<times> ('s, 'y) heap" where
  "xsplice_include_changed_functions h symlist = include_changed_functions_loop h symlist 0"

text \<open>
  Modelled from the spec: \<^verbatim>\<open>is_debug_section\<close> is a helper of the missing header.
  The debug sections are those named \<^verbatim>\<open>.debug_*\<close>, and a relocation section is
  one when the section it applies to is.
\<close>

definition is_debug_section :: "('s, 'y) heap \<Rightarrow> 's \<Rightarrow> error + bool" where
  "is_debug_section h s =
     (if is_rela_section (secs h s)
      then (case sec_base (secs h s) of
              None \<Rightarrow> Inl SEGV
            | Some b \<Rightarrow> Inr (has_prefix ''.debug_'' (sec_name (secs h b))))
      else Inr (has_prefix ''.debug_'' (sec_name (secs h s))))"

text \<open>\<^verbatim>\<open>xsplice_include_debug_sections\<close> (line 1141), first loop.\<close>

fun include_debug_loop :: "('s, 'y) heap \<Rightarrow> 's list \<Rightarrow> error + ('s, 'y) heap" where
  "include_debug_loop h [] = Inr h"
| "include_debug_loop h (s # seclist) =
     (case is_debug_section h s of
        Inl e \<Rightarrow> Inl e
      | Inr debug \<Rightarrow>
          if \<not> debug then include_debug_loop h seclist
          else if is_rela_section (secs h s)
          then include_debug_loop (set_sec_include h s True) seclist
          else (case sec_secsym (secs h s) of
                  None \<Rightarrow> Inl SEGV
                | Some q \<Rightarrow>
                    include_debug_loop (set_sym_include (set_sec_include h s True) q True)
                      seclist))"

text \<open>Second loop: a relocation stays when the section of its target is included.\<close>

fun strip_debug_relas :: "('s, 'y) heap \<Rightarrow> 'y rela_t list \<Rightarrow> error + 'y rela_t list" where
  "strip_debug_relas h [] = Inr []"
| "strip_debug_relas h (rela # rest) =
     (case r_sym rela of
        None \<Rightarrow> Inl SEGV
      | Some y \<Rightarrow>
          (case sym_sec (syms h y) of
             None \<Rightarrow> Inl SEGV
           | Some t \<Rightarrow>
               (case strip_debug_relas h rest of
                  Inl e \<Rightarrow> Inl e
                | Inr kept \<Rightarrow> Inr (if sec_include (secs h t) then rela # kept else kept))))"

fun strip_debug_loop :: "('s, 'y) heap \<Rightarrow> 's list \<Rightarrow> error + ('s, 'y) heap" where
  "strip_debug_loop h [] = Inr h"
| "strip_debug_loop h (s # seclist) =
     (if \<not> is_rela_section (secs h s) then strip_debug_loop h seclist
      else (case is_debug_section h s of
              Inl e \<Rightarrow> Inl e
            | Inr debug \<Rightarrow>
                if \<not> debug then strip_debug_loop h seclist
                else (case strip_debug_relas h (relas (secs h s)) of
                        Inl e \<Rightarrow> Inl e
                      | Inr kept \<Rightarrow>
                          strip_debug_loop (upd_sec h s (\<lambda>sec. sec\<lparr>relas := kept\<rparr>)) seclist)))"

definition xsplice_include_debug_sections ::
  "('s, 'y) heap \<Rightarrow> 's list \<Rightarrow> error + ('s, 'y) heap" where
  "xsplice_include_debug_sections h seclist =
     (case include_debug_loop h seclist of
        Inl e \<Rightarrow> Inl e
      | Inr h' \<Rightarrow> strip_debug_loop h' seclist)"

text \<open>
  \<^verbatim>\<open>xsplice_include_hook_elements\<close> (line 1168). For a hook relocation section only
  the first relocation is looked at: its target is included with everything it needs, then
  the target's own include flag is cleared, its section loses the bundled symbol and the
  relocation is pointed at the section symbol.
\<close>

definition hook_section_name :: "string \<Rightarrow> bool" where
  "hook_section_name name =
     (name = ''.xsplice.hooks.load'' \<or> name = ''.xsplice.hooks.unload'' \<or>
      name = ''.rela.xsplice.hooks.load'' \<or> name = ''.rela.xsplice.hooks.unload'')"

definition strip_hook_symbol ::
  "('s, 'y) heap \<Rightarrow> 's \<Rightarrow> 'y rela_t \<Rightarrow> 'y rela_t list \<Rightarrow> 'y \<Rightarrow> error + ('s, 'y) heap" where
  "strip_hook_symbol h s rela rest y =
     (case sym_sec (syms h y) of
        None \<Rightarrow> Inl SEGV
      | Some t \<Rightarrow>
          Inr (upd_sec (upd_sec (set_sym_include h y False) t (\<lambda>sec. sec\<lparr>sec_sym := None\<rparr>)) s
                 (\<lambda>sec. sec\<lparr>relas := rela\<lparr>r_sym := sec_secsym (secs h t)\<rparr> # rest\<rparr>)))"

fun include_hook_loop :: "('s::finite, 'y) heap \<Rightarrow> 's list \<Rightarrow> error + ('s, 'y) heap" where
  "include_hook_loop h [] = Inr h"
| "include_hook_loop h (s # seclist) =
     (if \<not> hook_section_name (sec_name (secs h s)) then include_hook_loop h seclist
      else if is_rela_section (secs h s)
      then (case relas (secs h s) of
              [] \<Rightarrow> Inl OUT_OF_BOUNDS
            | rela # rest \<Rightarrow>
                (case r_sym rela of
                   None \<Rightarrow> Inl SEGV
                 | Some y \<Rightarrow>
                     (case xsplice_include_symbol (set_sec_include h s True) (Some y) of
                        Inl e \<Rightarrow> Inl e
                      | Inr h' \<Rightarrow>
                          (case strip_hook_symbol h' s rela rest y of
                             Inl e \<Rightarrow> Inl e
                           | Inr h'' \<Rightarrow> include_hook_loop h'' seclist))))
      else (case sec_secsym (secs h s) of
              None \<Rightarrow> Inl SEGV
            | Some q \<Rightarrow>
                include_hook_loop (set_sym_include (set_sec_include h s True) q True) seclist))"

fun strip_hook_data :: "('s, 'y) heap \<Rightarrow> 'y list \<Rightarrow> ('s, 'y) heap" where
  "strip_hook_data h [] = h"
| "strip_hook_data h (y # symlist) =
     strip_hook_data
       (if sym_name (syms h y) = ''xsplice_load_data'' \<or>
           sym_name (syms h y) = ''xsplice_unload_data''
        then set_sym_include h y False else h)
       symlist"

definition xsplice_include_hook_elements ::
  "('s::finite, 'y) heap \<Rightarrow> 's list \<Rightarrow> 'y list \<Rightarrow> error + ('s, 'y) heap" where
  "xsplice_include_hook_elements h seclist symlist =
     (case include_hook_loop h seclist of
        Inl e \<Rightarrow> Inl e
      | Inr h' \<Rightarrow> Inr (strip_hook_data h' symlist))"

text \<open>\<^verbatim>\<open>xsplice_include_new_globals\<close> (line 1209), with its counter \<^verbatim>\<open>nr\<close>.\<close>

fun include_new_globals_loop ::
  "('s::finite, 'y) heap \<Rightarrow> 'y list \<Rightarrow> nat \<Rightarrow> error + nat \<times> ('s, 'y) heap" where
  "include_new_globals_loop h [] nr = Inr (nr, h)"
| "include_new_globals_loop h (y # symlist) nr =
     (if sym_bind (syms h y) = STB_GLOBAL \<and> sym_sec (syms h y) \<noteq> None \<and>
         sym_status (syms h y) = NEW
      then (case xsplice_include_symbol h (Some y) of
              Inl e \<Rightarrow> Inl e
            | Inr h' \<Rightarrow> include_new_globals_loop h' symlist (nr + 1))
      else include_new_globals_loop h symlist nr)"

definition xsplice_include_new_globals ::
  "('s::finite, 'y) heap \<Rightarrow> 'y list \<Rightarrow> error + nat \<times> ('s, 'y) heap" where
  "xsplice_include_new_globals h symlist = include_new_globals_loop h symlist 0"

text \<open>
  The five inclusion passes in the order in which \<^verbatim>\<open>main\<close> runs them (lines 1759
  to 1770), with the two counters that \<^verbatim>\<open>main\<close> keeps.
\<close>

definition inclusion_passes ::
  "('s::finite, 'y) heap \<Rightarrow> 's list \<Rightarrow> 'y list \<Rightarrow> error + nat \<times> nat \<times> ('s, 'y) heap" where
  "inclusion_passes h seclist symlist =
     (case xsplice_include_standard_elements h seclist symlist of
        Inl e \<Rightarrow> Inl e
      | Inr h1 \<Rightarrow>
          (case xsplice_include_changed_functions h1 symlist of
             Inl e \<Rightarrow> Inl e
           | Inr (num_changed, h2) \<Rightarrow>
               (case xsplice_include_debug_sections h2 seclist of
                  Inl e \<Rightarrow> Inl e
                | Inr h3 \<Rightarrow>
                    (case xsplice_include_hook_elements h3 seclist symlist of
                       Inl e \<Rightarrow> Inl e
                     | Inr h4 \<Rightarrow>
                         (case xsplice_include_new_globals h4 symlist of
                            Inl e \<Rightarrow> Inl e
                          | Inr (new_globals_exist, h5) \<Rightarrow>
                              Inr (num_changed, new_globals_exist, h5))))))"

subsection \<open>Inclusion closure\<close>

text \<open>
  A relocation's target is included; a model is closed when every relocation of every
  included relocation section has an included target.
\<close>

definition target_included :: "('s, 'y) heap \<Rightarrow> 'y rela_t \<Rightarrow> bool" where
  "target_included h r = (case r_sym r of None \<Rightarrow> False | Some y \<Rightarrow> sym_include (syms h y))"

definition inclusion_closed :: "('s, 'y) heap \<Rightarrow> 's list \<Rightarrow> bool" where
  "inclusion_closed h seclist =
     (\<forall>s\<in>set seclist. is_rela_section (secs h s) \<and> sec_include (secs h s) \<longrightarrow>
        (\<forall>r\<in>set (relas (secs h s)). target_included h r))"

text \<open>
  Between two heaps only include flags differ, and no flag that was set has been cleared.
\<close>

definition includes_grow :: "('s, 'y) heap \<Rightarrow> ('s, 'y) heap \<Rightarrow> bool" where
  "includes_grow h h' =
     ((\<forall>s. (secs h' s)\<lparr>sec_include := False\<rparr> = (secs h s)\<lparr>sec_include := False\<rparr> \<and>
           (sec_include (secs h s) \<longrightarrow> sec_include (secs h' s))) \<and>
      (\<forall>y. (syms h' y)\<lparr>sym_include := False\<rparr> = (syms h y)\<lparr>sym_include := False\<rparr> \<and>
           (sym_include (syms h y) \<longrightarrow> sym_include (syms h' y))))"

lemma includes_grow_refl: "includes_grow h h"
  by (simp add: includes_grow_def)

lemma includes_grow_trans:
  "includes_grow h1 h2 \<Longrightarrow> includes_grow h2 h3 \<Longrightarrow> includes_grow h1 h3"
  by (simp add: includes_grow_def)

lemma includes_grow_set_sym: "includes_grow h (set_sym_include h y True)"
  by (simp add: includes_grow_def syms_set_sym_include)

lemma includes_grow_set_sec: "includes_grow h (set_sec_include h s True)"
  by (simp add: includes_grow_def secs_set_sec_include)

lemma includes_grow_section_of: "includes_grow h (include_section_of h y s)"
  by (auto simp: include_section_of_def intro: includes_grow_set_sec includes_grow_set_sym
      includes_grow_trans split: option.splits)

lemma includes_grow_sec_fields:
  assumes "includes_grow h h'"
  shows "relas (secs h' s) = relas (secs h s)"
    and "sh_type (secs h' s) = sh_type (secs h s)"
    and "sec_rela (secs h' s) = sec_rela (secs h s)"
    and "sec_secsym (secs h' s) = sec_secsym (secs h s)"
    and "sec_status (secs h' s) = sec_status (secs h s)"
    and "sec_name (secs h' s) = sec_name (secs h s)"
    and "sec_include (secs h s) \<Longrightarrow> sec_include (secs h' s)"
proof -
  from assms have eq: "(secs h' s)\<lparr>sec_include := False\<rparr> = (secs h s)\<lparr>sec_include := False\<rparr>"
    by (simp add: includes_grow_def)
  from arg_cong [OF eq, of relas] show "relas (secs h' s) = relas (secs h s)" by simp
  from arg_cong [OF eq, of sh_type] show "sh_type (secs h' s) = sh_type (secs h s)" by simp
  from arg_cong [OF eq, of sec_rela] show "sec_rela (secs h' s) = sec_rela (secs h s)" by simp
  from arg_cong [OF eq, of sec_secsym] show "sec_secsym (secs h' s) = sec_secsym (secs h s)"
    by simp
  from arg_cong [OF eq, of sec_status] show "sec_status (secs h' s) = sec_status (secs h s)"
    by simp
  from arg_cong [OF eq, of sec_name] show "sec_name (secs h' s) = sec_name (secs h s)" by simp
  from assms show "sec_include (secs h s) \<Longrightarrow> sec_include (secs h' s)"
    by (simp add: includes_grow_def)
qed

lemma includes_grow_sym_fields:
  assumes "includes_grow h h'"
  shows "sym_sec (syms h' y) = sym_sec (syms h y)"
    and "sym_type (syms h' y) = sym_type (syms h y)"
    and "sym_bind (syms h' y) = sym_bind (syms h y)"
    and "sym_status (syms h' y) = sym_status (syms h y)"
    and "sym_name (syms h' y) = sym_name (syms h y)"
    and "sym_twin (syms h' y) = sym_twin (syms h y)"
    and "sym_include (syms h y) \<Longrightarrow> sym_include (syms h' y)"
proof -
  from assms have eq: "(syms h' y)\<lparr>sym_include := False\<rparr> = (syms h y)\<lparr>sym_include := False\<rparr>"
    by (simp add: includes_grow_def)
  from arg_cong [OF eq, of sym_sec] show "sym_sec (syms h' y) = sym_sec (syms h y)" by simp
  from arg_cong [OF eq, of sym_type] show "sym_type (syms h' y) = sym_type (syms h y)" by simp
  from arg_cong [OF eq, of sym_bind] show "sym_bind (syms h' y) = sym_bind (syms h y)" by simp
  from arg_cong [OF eq, of sym_status] show "sym_status (syms h' y) = sym_status (syms h y)"
    by simp
  from arg_cong [OF eq, of sym_name] show "sym_name (syms h' y) = sym_name (syms h y)" by simp
  from arg_cong [OF eq, of sym_twin] show "sym_twin (syms h' y) = sym_twin (syms h y)" by simp
  from assms show "sym_include (syms h y) \<Longrightarrow> sym_include (syms h' y)"
    by (simp add: includes_grow_def)
qed

lemma include_symbol_loop_grows:
  "include_symbol_loop h stack = Inr h' \<Longrightarrow> includes_grow h h'"
proof (induction h stack rule: include_symbol_loop.induct)
  case (1 h)
  then show ?case by (simp add: include_symbol_loop.simps includes_grow_refl)
next
  case (2 h stack)
  then show ?case by (simp add: include_symbol_loop.simps)
next
  case (3 h y stack)
  show ?case
  proof (cases "sym_sec (syms h y)")
    case None
    with "3.prems" have "include_symbol_loop (set_sym_include h y True) stack = Inr h'"
      by (simp add: include_symbol_loop.simps)
    from "3.IH"(1) [OF None this] show ?thesis
      by (rule includes_grow_trans [OF includes_grow_set_sym])
  next
    case (Some s)
    show ?thesis
    proof (cases "inclusion_base_case h y s")
      case True
      with "3.prems" Some have "include_symbol_loop (set_sym_include h y True) stack = Inr h'"
        by (simp add: include_symbol_loop.simps)
      from "3.IH"(2) [OF Some True this] show ?thesis
        by (rule includes_grow_trans [OF includes_grow_set_sym])
    next
      case False
      show ?thesis
      proof (cases "sec_rela (secs h s)")
        case None
        with "3.prems" Some False
        have "include_symbol_loop (include_section_of (set_sym_include h y True) y s) stack = Inr h'"
          by (simp add: include_symbol_loop.simps)
        from "3.IH"(3) [OF Some False None this] show ?thesis
          by (rule includes_grow_trans
              [OF includes_grow_trans [OF includes_grow_set_sym includes_grow_section_of]])
      next
        case (Some rs)
        with "3.prems" \<open>sym_sec (syms h y) = Some s\<close> False
        have "include_symbol_loop
            (set_sec_include (include_section_of (set_sym_include h y True) y s) rs True)
            (map r_sym (relas (secs h rs)) @ stack) = Inr h'"
          by (simp add: include_symbol_loop.simps)
        from "3.IH"(4) [OF \<open>sym_sec (syms h y) = Some s\<close> False Some this] show ?thesis
          by (rule includes_grow_trans
              [OF includes_grow_trans [OF includes_grow_trans
                [OF includes_grow_set_sym includes_grow_section_of] includes_grow_set_sec]])
      qed
    qed
  qed
qed

text \<open>
  The invariant of the closure loop: a target of an included relocation section is included
  or still waits on the stack. No symbol lives in a relocation section.
\<close>

definition pending_closed :: "('s, 'y) heap \<Rightarrow> 'y option list \<Rightarrow> 's list \<Rightarrow> bool" where
  "pending_closed h stack seclist =
     (\<forall>s\<in>set seclist. is_rela_section (secs h s) \<and> sec_include (secs h s) \<longrightarrow>
        (\<forall>r\<in>set (relas (secs h s)). target_included h r \<or> r_sym r \<in> set stack))"

definition no_symbol_in_rela :: "('s, 'y) heap \<Rightarrow> bool" where
  "no_symbol_in_rela h =
     (\<forall>y s. sym_sec (syms h y) = Some s \<longrightarrow> \<not> is_rela_section (secs h s))"

lemma pending_closed_Nil: "pending_closed h [] seclist = inclusion_closed h seclist"
  by (simp add: pending_closed_def inclusion_closed_def)

lemma no_symbol_in_rela_grow:
  "includes_grow h h' \<Longrightarrow> no_symbol_in_rela h \<Longrightarrow> no_symbol_in_rela h'"
  by (simp add: no_symbol_in_rela_def is_rela_section_def includes_grow_sec_fields
      includes_grow_sym_fields)

lemma pending_step:
  assumes grow: "includes_grow h h2"
    and pc: "pending_closed h (Some y # stack) seclist"
    and yinc: "sym_include (syms h2 y)"
    and new: "\<forall>s. sec_include (secs h2 s) \<and> \<not> sec_include (secs h s) \<and>
        is_rela_section (secs h s) \<longrightarrow> r_sym ` set (relas (secs h s)) \<subseteq> set stack2"
    and sub: "set stack \<subseteq> set stack2"
  shows "pending_closed h2 stack2 seclist"
  unfolding pending_closed_def
proof (intro ballI impI)
  fix s r
  assume s: "s \<in> set seclist" and inc: "is_rela_section (secs h2 s) \<and> sec_include (secs h2 s)"
    and r: "r \<in> set (relas (secs h2 s))"
  from grow have rel: "relas (secs h2 s) = relas (secs h s)"
    and ty: "is_rela_section (secs h2 s) = is_rela_section (secs h s)"
    by (simp_all add: includes_grow_sec_fields is_rela_section_def)
  show "target_included h2 r \<or> r_sym r \<in> set stack2"
  proof (cases "sec_include (secs h s)")
    case True
    with pc s inc ty r rel have "target_included h r \<or> r_sym r \<in> set (Some y # stack)"
      by (auto simp: pending_closed_def)
    then show ?thesis
    proof
      assume "target_included h r"
      then have "target_included h2 r"
        using includes_grow_sym_fields(7) [OF grow]
        by (auto simp: target_included_def split: option.splits)
      then show ?thesis ..
    next
      assume "r_sym r \<in> set (Some y # stack)"
      then show ?thesis using yinc sub by (auto simp: target_included_def)
    qed
  next
    case False
    with new inc ty have "r_sym ` set (relas (secs h s)) \<subseteq> set stack2" by blast
    with r rel show ?thesis by auto
  qed
qed

lemma include_symbol_loop_closure:
  "include_symbol_loop h stack = Inr h' \<Longrightarrow> no_symbol_in_rela h \<Longrightarrow>
   pending_closed h stack seclist \<Longrightarrow>
   inclusion_closed h' seclist \<and> (\<forall>y. Some y \<in> set stack \<longrightarrow> sym_include (syms h' y))"
proof (induction h stack arbitrary: h' rule: include_symbol_loop.induct)
  case (1 h)
  then show ?case by (simp add: include_symbol_loop.simps pending_closed_Nil)
next
  case (2 h stack)
  then show ?case by (simp add: include_symbol_loop.simps)
next
  case (3 h y stack)
  let ?h1 = "set_sym_include h y True"
  have g1: "includes_grow h ?h1" by (rule includes_grow_set_sym)
  have y1: "sym_include (syms ?h1 y)" by (simp add: syms_set_sym_include)
  have simple:
    "inclusion_closed h' seclist \<and> (\<forall>z. Some z \<in> set (Some y # stack) \<longrightarrow> sym_include (syms h' z))"
    if run: "include_symbol_loop h2 stack2 = Inr h'"
      and ih: "\<And>h'. include_symbol_loop h2 stack2 = Inr h' \<Longrightarrow> no_symbol_in_rela h2 \<Longrightarrow>
          pending_closed h2 stack2 seclist \<Longrightarrow>
          inclusion_closed h' seclist \<and> (\<forall>y. Some y \<in> set stack2 \<longrightarrow> sym_include (syms h' y))"
      and g: "includes_grow h h2" and yinc: "sym_include (syms h2 y)"
      and new: "\<forall>s. sec_include (secs h2 s) \<and> \<not> sec_include (secs h s) \<and>
        is_rela_section (secs h s) \<longrightarrow> r_sym ` set (relas (secs h s)) \<subseteq> set stack2"
      and sub: "set stack \<subseteq> set stack2"
    for h2 stack2
  proof -
    have pc: "pending_closed h2 stack2 seclist"
      by (rule pending_step [OF g "3.prems"(3) yinc new sub])
    have wf: "no_symbol_in_rela h2" by (rule no_symbol_in_rela_grow [OF g "3.prems"(2)])
    from ih [OF run wf pc] have res: "inclusion_closed h' seclist"
      and st: "\<forall>z. Some z \<in> set stack2 \<longrightarrow> sym_include (syms h' z)" by simp_all
    from include_symbol_loop_grows [OF run] yinc have "sym_include (syms h' y)"
      by (rule includes_grow_sym_fields(7))
    with res st sub show ?thesis by auto
  qed
  show ?case
  proof (cases "sym_sec (syms h y)")
    case None
    with "3.prems" have run: "include_symbol_loop ?h1 stack = Inr h'"
      by (simp add: include_symbol_loop.simps)
    show ?thesis
      by (rule simple [OF run "3.IH"(1) [OF None] g1 y1]) auto
  next
    case (Some s)
    from "3.prems"(2) Some have nrela: "\<not> is_rela_section (secs h s)"
      by (simp add: no_symbol_in_rela_def)
    show ?thesis
    proof (cases "inclusion_base_case h y s")
      case True
      with "3.prems" Some have run: "include_symbol_loop ?h1 stack = Inr h'"
        by (simp add: include_symbol_loop.simps)
      show ?thesis
        by (rule simple [OF run "3.IH"(2) [OF Some True] g1 y1]) auto
    next
      case False
      let ?h2 = "include_section_of ?h1 y s"
      have g2: "includes_grow h ?h2"
        by (rule includes_grow_trans [OF g1 includes_grow_section_of])
      have y2: "sym_include (syms ?h2 y)"
        by (rule includes_grow_sym_fields(7) [OF includes_grow_section_of y1])
      show ?thesis
      proof (cases "sec_rela (secs h s)")
        case None
        with "3.prems" Some False have run: "include_symbol_loop ?h2 stack = Inr h'"
          by (simp add: include_symbol_loop.simps)
        show ?thesis
        proof (rule simple [OF run "3.IH"(3) [OF Some False None] g2 y2])
          show "\<forall>t. sec_include (secs ?h2 t) \<and> \<not> sec_include (secs h t) \<and>
              is_rela_section (secs h t) \<longrightarrow> r_sym ` set (relas (secs h t)) \<subseteq> set stack"
            using nrela by (auto simp: secs_include_section_of split: if_splits)
        qed auto
      next
        case (Some rs)
        let ?h3 = "set_sec_include ?h2 rs True"
        let ?stack = "map r_sym (relas (secs h rs)) @ stack"
        have g3: "includes_grow h ?h3"
          by (rule includes_grow_trans [OF g2 includes_grow_set_sec])
        have y3: "sym_include (syms ?h3 y)"
          by (rule includes_grow_sym_fields(7) [OF includes_grow_set_sec y2])
        from "3.prems" \<open>sym_sec (syms h y) = Some s\<close> False Some
        have run: "include_symbol_loop ?h3 ?stack = Inr h'"
          by (simp add: include_symbol_loop.simps)
        show ?thesis
        proof (rule simple [OF run "3.IH"(4) [OF \<open>sym_sec (syms h y) = Some s\<close> False Some] g3 y3])
          show "\<forall>t. sec_include (secs ?h3 t) \<and> \<not> sec_include (secs h t) \<and>
              is_rela_section (secs h t) \<longrightarrow> r_sym ` set (relas (secs h t)) \<subseteq> set ?stack"
            using nrela
            by (auto simp: secs_include_section_of secs_set_sec_include split: if_splits)
        qed auto
      qed
    qed
  qed
qed

subsection \<open>A patched object with a load hook\<close>

text \<open>
  The changed global function \<^verbatim>\<open>foo\<close> calls the new local function
  \<^verbatim>\<open>my_hook\<close>, which is also registered as the load hook: the single relocation of
  \<^verbatim>\<open>.rela.xsplice.hooks.load\<close> points at it.
\<close>

datatype sec_id = Text_foo | Rela_text_foo | Text_hook | Hooks_load | Rela_hooks_load

instance sec_id :: finite
proof
  have "(UNIV :: sec_id set) \<subseteq> {Text_foo, Rela_text_foo, Text_hook, Hooks_load, Rela_hooks_load}"
    using sec_id.exhaust by auto
  then show "finite (UNIV :: sec_id set)" by (rule finite_subset) simp
qed

datatype sym_id = Null_sym | File_sym | Foo | My_hook | Sec_text_foo | Sec_text_hook | Sec_hooks_load

definition hook_secs :: "sec_id \<Rightarrow> (sec_id, sym_id) section_t" where
  "hook_secs s = (case s of
      Text_foo \<Rightarrow> zero_section\<lparr>sec_name := ''.text.foo'', sh_type := SHT_PROGBITS,
        sec_status := CHANGED, sec_rela := Some Rela_text_foo, sec_secsym := Some Sec_text_foo,
        sec_sym := Some Foo\<rparr>
    | Rela_text_foo \<Rightarrow> zero_section\<lparr>sec_name := ''.rela.text.foo'', sh_type := SHT_RELA,
        sec_status := CHANGED, sec_base := Some Text_foo,
        relas := [zero_rela\<lparr>r_sym := Some My_hook, r_type := 4, r_offset := 1, r_addend := -4\<rparr>]\<rparr>
    | Text_hook \<Rightarrow> zero_section\<lparr>sec_name := ''.text.my_hook'', sh_type := SHT_PROGBITS,
        sec_status := NEW, sec_secsym := Some Sec_text_hook, sec_sym := Some My_hook\<rparr>
    | Hooks_load \<Rightarrow> zero_section\<lparr>sec_name := ''.xsplice.hooks.load'', sh_type := SHT_PROGBITS,
        sec_status := NEW, sec_rela := Some Rela_hooks_load, sec_secsym := Some Sec_hooks_load\<rparr>
    | Rela_hooks_load \<Rightarrow> zero_section\<lparr>sec_name := ''.rela.xsplice.hooks.load'',
        sh_type := SHT_RELA, sec_status := NEW, sec_base := Some Hooks_load,
        relas := [zero_rela\<lparr>r_sym := Some My_hook, r_type := R_X86_64_64\<rparr>]\<rparr>)"

definition hook_syms :: "sym_id \<Rightarrow> (sec_id, sym_id) symbol_t" where
  "hook_syms y = (case y of
      Null_sym \<Rightarrow> zero_symbol
    | File_sym \<Rightarrow> zero_symbol\<lparr>sym_name := ''foo.c'', sym_type := STT_FILE, sym_status := SAME\<rparr>
    | Foo \<Rightarrow> zero_symbol\<lparr>sym_name := ''foo'', sym_type := STT_FUNC, sym_bind := STB_GLOBAL,
        sym_sec := Some Text_foo, sym_status := CHANGED\<rparr>
    | My_hook \<Rightarrow> zero_symbol\<lparr>sym_name := ''my_hook'', sym_type := STT_FUNC,
        sym_bind := STB_LOCAL, sym_sec := Some Text_hook, sym_status := NEW\<rparr>
    | Sec_text_foo \<Rightarrow> zero_symbol\<lparr>sym_name := ''.text.foo'', sym_type := STT_SECTION,
        sym_sec := Some Text_foo, sym_status := SAME\<rparr>
    | Sec_text_hook \<Rightarrow> zero_symbol\<lparr>sym_name := ''.text.my_hook'', sym_type := STT_SECTION,
        sym_sec := Some Text_hook, sym_status := NEW\<rparr>
    | Sec_hooks_load \<Rightarrow> zero_symbol\<lparr>sym_name := ''.xsplice.hooks.load'',
        sym_type := STT_SECTION, sym_sec := Some Hooks_load, sym_status := NEW\<rparr>)"

definition hook_heap :: "(sec_id, sym_id) heap" where
  "hook_heap = \<lparr>secs = hook_secs, syms = hook_syms\<rparr>"

definition hook_sections :: "sec_id list" where
  "hook_sections = [Text_foo, Rela_text_foo, Text_hook, Hooks_load, Rela_hooks_load]"

definition hook_symbols :: "sym_id list" where
  "hook_symbols = [Null_sym, File_sym, Sec_text_foo, Sec_text_hook, Sec_hooks_load, My_hook, Foo]"


lemmas hook_defs = hook_heap_def hook_secs_def hook_syms_def hook_sections_def hook_symbols_def
  zero_section_def zero_symbol_def zero_rela_def

lemmas pass_defs = inclusion_passes_def xsplice_include_standard_elements_def
  standard_section_name_def include_with_secsym_def has_prefix_def
  xsplice_include_changed_functions_def xsplice_include_symbol_def include_symbol_loop.simps
  include_section_of_def inclusion_base_case_def set_sec_include_def set_sym_include_def upd_sec_def upd_sym_def
  xsplice_include_debug_sections_def is_debug_section_def is_rela_section_def
  xsplice_include_hook_elements_def hook_section_name_def strip_hook_symbol_def
  xsplice_include_new_globals_def

lemma inclusion_closed_set_sym:
  "inclusion_closed h seclist \<Longrightarrow> inclusion_closed (set_sym_include h y True) seclist"
  by (auto simp: inclusion_closed_def target_included_def syms_set_sym_include
      split: option.splits)

lemma no_symbol_in_rela_set_sym:
  "no_symbol_in_rela h \<Longrightarrow> no_symbol_in_rela (set_sym_include h y True)"
  by (rule no_symbol_in_rela_grow [OF includes_grow_set_sym])

lemma include_symbol_closure:
  assumes run: "xsplice_include_symbol h p = Inr h'"
    and wf: "no_symbol_in_rela h" and closed: "inclusion_closed h seclist"
  shows "inclusion_closed h' seclist \<and> no_symbol_in_rela h' \<and> includes_grow h h' \<and>
         (\<exists>y. p = Some y \<and> sym_include (syms h' y))"
proof -
  from run have loop: "include_symbol_loop h [p] = Inr h'"
    by (simp add: xsplice_include_symbol_def)
  then obtain y where p: "p = Some y"
    by (cases p) (simp_all add: include_symbol_loop.simps)
  from closed have "pending_closed h [p] seclist"
    by (auto simp: pending_closed_def inclusion_closed_def)
  from include_symbol_loop_closure [OF loop wf this] p
  have "inclusion_closed h' seclist" "sym_include (syms h' y)" by simp_all
  moreover have "includes_grow h h'" by (rule include_symbol_loop_grows [OF loop])
  moreover from this wf have "no_symbol_in_rela h'" by (rule no_symbol_in_rela_grow)
  ultimately show ?thesis using p by simp
qed

lemma changed_functions_loop_closure:
  "include_changed_functions_loop h symlist n = Inr (m, h') \<Longrightarrow> no_symbol_in_rela h \<Longrightarrow>
   inclusion_closed h seclist \<Longrightarrow>
   inclusion_closed h' seclist \<and> includes_grow h h'"
proof (induction symlist arbitrary: h n)
  case Nil
  then show ?case by (simp add: includes_grow_refl)
next
  case (Cons y symlist)
  show ?case
  proof (cases "sym_status (syms h y) = CHANGED \<and> sym_type (syms h y) = STT_FUNC")
    case True
    with Cons.prems(1) obtain h1 where
      inc: "xsplice_include_symbol h (Some y) = Inr h1"
      and rest: "include_changed_functions_loop
          (if sym_type (syms h1 y) = STT_FILE then set_sym_include h1 y True else h1)
          symlist (n + 1) = Inr (m, h')"
      by (auto split: sum.splits)
    let ?h2 = "if sym_type (syms h1 y) = STT_FILE then set_sym_include h1 y True else h1"
    from include_symbol_closure [OF inc Cons.prems(2,3)]
    have c1: "inclusion_closed h1 seclist" and w1: "no_symbol_in_rela h1"
      and g1: "includes_grow h h1" by simp_all
    have c2: "inclusion_closed ?h2 seclist" using c1 by (simp add: inclusion_closed_set_sym)
    have w2: "no_symbol_in_rela ?h2" using w1 by (simp add: no_symbol_in_rela_set_sym)
    have g2: "includes_grow h1 ?h2" by (simp add: includes_grow_refl includes_grow_set_sym)
    from Cons.IH [OF rest w2 c2] have "inclusion_closed h' seclist" "includes_grow ?h2 h'"
      by simp_all
    then show ?thesis
      using includes_grow_trans [OF includes_grow_trans [OF g1 g2]] by blast
  next
    case False
    let ?h2 = "if sym_type (syms h y) = STT_FILE then set_sym_include h y True else h"
    from False Cons.prems(1)
    have rest: "include_changed_functions_loop ?h2 symlist n = Inr (m, h')"
      by (auto split: if_splits)
    have c2: "inclusion_closed ?h2 seclist"
      using Cons.prems(3) by (simp add: inclusion_closed_set_sym)
    have w2: "no_symbol_in_rela ?h2"
      using Cons.prems(2) by (simp add: no_symbol_in_rela_set_sym)
    have g2: "includes_grow h ?h2" by (simp add: includes_grow_refl includes_grow_set_sym)
    from Cons.IH [OF rest w2 c2] have "inclusion_closed h' seclist" "includes_grow ?h2 h'"
      by simp_all
    then show ?thesis using includes_grow_trans [OF g2] by blast
  qed
qed

lemma new_globals_loop_closure:
  "include_new_globals_loop h symlist n = Inr (m, h') \<Longrightarrow> no_symbol_in_rela h \<Longrightarrow>
   inclusion_closed h seclist \<Longrightarrow>
   inclusion_closed h' seclist \<and> includes_grow h h'"
proof (induction symlist arbitrary: h n)
  case Nil
  then show ?case by (simp add: includes_grow_refl)
next
  case (Cons y symlist)
  show ?case
  proof (cases "sym_bind (syms h y) = STB_GLOBAL \<and> sym_sec (syms h y) \<noteq> None \<and>
      sym_status (syms h y) = NEW")
    case True
    with Cons.prems(1) obtain h1 where
      inc: "xsplice_include_symbol h (Some y) = Inr h1"
      and rest: "include_new_globals_loop h1 symlist (n + 1) = Inr (m, h')"
      by (auto split: sum.splits)
    from include_symbol_closure [OF inc Cons.prems(2,3)]
    have c1: "inclusion_closed h1 seclist" and w1: "no_symbol_in_rela h1"
      and g1: "includes_grow h h1" by simp_all
    from Cons.IH [OF rest w1 c1] have "inclusion_closed h' seclist" "includes_grow h1 h'"
      by simp_all
    then show ?thesis using includes_grow_trans [OF g1] by blast
  next
    case False
    with Cons.prems(1) have rest: "include_new_globals_loop h symlist n = Inr (m, h')"
      by (auto split: if_splits)
    from Cons.IH [OF rest Cons.prems(2,3)] show ?thesis .
  qed
qed

text \<open>
  The passes that include by closure keep a closed model closed (the three lemmas above).
  The hook pass includes the target of the first hook relocation by closure as well, then
  takes that symbol out again and points the hook relocation at the section symbol instead
  (lines 1186 to 1192). On the object of this section without the call from \<^verbatim>\<open>foo\<close>,
  where the hook relocation is the only reference to \<^verbatim>\<open>my_hook\<close>, the model is closed
  after the five passes although \<^verbatim>\<open>my_hook\<close> is not included.
\<close>

definition hook_only_heap :: "(sec_id, sym_id) heap" where
  "hook_only_heap = upd_sec hook_heap Rela_text_foo (\<lambda>sec. sec\<lparr>relas := []\<rparr>)"

lemma hook_only_inclusion_closed:
  "(case inclusion_passes hook_only_heap hook_sections hook_symbols of
      Inl e \<Rightarrow> False
    | Inr (num_changed, new_globals_exist, h') \<Rightarrow>
        \<not> sym_include (syms h' My_hook) \<and>
        map r_sym (relas (secs h' Rela_hooks_load)) = [Some Sec_text_hook] \<and>
        inclusion_closed h' hook_sections)"
  by (simp add: hook_only_heap_def hook_defs pass_defs inclusion_closed_def target_included_def)

text \<open>
  With the call from \<^verbatim>\<open>foo\<close> the model is not closed after the five passes.
\<close>

lemma hook_heap_not_inclusion_closed:
  "(case inclusion_passes hook_heap hook_sections hook_symbols of
      Inl e \<Rightarrow> False
    | Inr (num_changed, new_globals_exist, h') \<Rightarrow> \<not> inclusion_closed h' hook_sections)"
  by (simp add: hook_defs pass_defs inclusion_closed_def target_included_def)

text \<open>
  Claim C1 on \<open>hook_heap\<close>, where the changed function \<^verbatim>\<open>foo\<close> calls the function
  that is also the load hook. The five passes return. \<^verbatim>\<open>foo\<close> is included and so is the
  relocation section \<^verbatim>\<open>.rela.text.foo\<close> of its section, whose relocation targets
  \<^verbatim>\<open>my_hook\<close>; but \<^verbatim>\<open>my_hook\<close> is not included: the hook pass has cleared its flag.
  The pass has moved its own relocation, in \<^verbatim>\<open>.rela.xsplice.hooks.load\<close>, to the
  section symbol of \<^verbatim>\<open>.text.my_hook\<close>, which is included; the relocation of
  \<^verbatim>\<open>.rela.text.foo\<close> it has left as it was.
\<close>

theorem hook_pass_strips_referenced_symbol:
  "(case inclusion_passes hook_heap hook_sections hook_symbols of
      Inl e \<Rightarrow> False
    | Inr (num_changed, new_globals_exist, h') \<Rightarrow>
        sym_include (syms h' Foo) \<and> sym_sec (syms h' Foo) = Some Text_foo \<and>
        sec_rela (secs h' Text_foo) = Some Rela_text_foo \<and>
        is_rela_section (secs h' Rela_text_foo) \<and> sec_include (secs h' Rela_text_foo) \<and>
        map r_sym (relas (secs h' Rela_text_foo)) = [Some My_hook] \<and>
        \<not> sym_include (syms h' My_hook) \<and>
        is_rela_section (secs h' Rela_hooks_load) \<and> sec_include (secs h' Rela_hooks_load) \<and>
        map r_sym (relas (secs h' Rela_hooks_load)) = [Some Sec_text_hook] \<and>
        sym_include (syms h' Sec_text_hook))"
  by (simp add: hook_defs pass_defs)

section \<open>From the comparison to the exit on an empty diff\<close>

text \<open>
  Modelled from the spec: \<^verbatim>\<open>find_section_by_name\<close> and
  \<^verbatim>\<open>find_symbol_by_name\<close> are lookup helpers of the missing common code: the first
  element of the list that carries the name, \<^verbatim>\<open>NULL\<close> when there is none.
\<close>

definition find_section_by_name :: "('s, 'y) heap \<Rightarrow> 's list \<Rightarrow> string \<Rightarrow> 's option" where
  "find_section_by_name h seclist name = find (\<lambda>s. sec_name (secs h s) = name) seclist"

definition find_symbol_by_name :: "('s, 'y) heap \<Rightarrow> 'y list \<Rightarrow> string \<Rightarrow> 'y option" where
  "find_symbol_by_name h symlist name = find (\<lambda>y. sym_name (syms h y) = name) symlist"

text \<open>\<^verbatim>\<open>xsplice_mark_ignored_functions_same\<close> (line 734).\<close>

definition mark_function_same :: "('s, 'y) heap \<Rightarrow> 'y \<Rightarrow> 's \<Rightarrow> ('s, 'y) heap" where
  "mark_function_same h y t =
     (let h1 = set_sec_status (set_sym_status h y SAME) t SAME;
          h2 = (case sec_secsym (secs h1 t) of None \<Rightarrow> h1 | Some q \<Rightarrow> set_sym_status h1 q SAME)
      in case sec_rela (secs h2 t) of None \<Rightarrow> h2 | Some rs \<Rightarrow> set_sec_status h2 rs SAME)"

fun mark_ignored_functions_loop ::
  "('s, 'y) heap \<Rightarrow> 'y rela_t list \<Rightarrow> error + ('s, 'y) heap" where
  "mark_ignored_functions_loop h [] = Inr h"
| "mark_ignored_functions_loop h (rela # rest) =
     (case r_sym rela of
        None \<Rightarrow> Inl SEGV
      | Some y \<Rightarrow>
          (case sym_sec (syms h y) of
             None \<Rightarrow> Inl ERROR
           | Some t \<Rightarrow>
               if sym_type (syms h y) \<noteq> STT_FUNC then Inl ERROR
               else mark_ignored_functions_loop (mark_function_same h y t) rest))"

definition xsplice_mark_ignored_functions_same ::
  "('s, 'y) heap \<Rightarrow> 's list \<Rightarrow> error + ('s, 'y) heap" where
  "xsplice_mark_ignored_functions_same h seclist =
     (case find_section_by_name h seclist ''.xsplice.ignore.functions'' of
        None \<Rightarrow> Inr h
      | Some s \<Rightarrow>
          (case sec_rela (secs h s) of
             None \<Rightarrow> Inl SEGV
           | Some rs \<Rightarrow> mark_ignored_functions_loop h (relas (secs h rs))))"

text \<open>\<^verbatim>\<open>xsplice_mark_ignored_sections_same\<close> (line 798).\<close>

fun mark_symbols_of_section_same :: "('s, 'y) heap \<Rightarrow> 's \<Rightarrow> 'y list \<Rightarrow> ('s, 'y) heap" where
  "mark_symbols_of_section_same h s [] = h"
| "mark_symbols_of_section_same h s (y # symlist) =
     mark_symbols_of_section_same
       (if sym_sec (syms h y) = Some s then set_sym_status h y SAME else h) s symlist"

definition mark_section_same :: "('s, 'y) heap \<Rightarrow> 's \<Rightarrow> ('s, 'y) heap" where
  "mark_section_same h s =
     (let h1 = set_sec_status h s SAME;
          h2 = (case sec_secsym (secs h1 s) of None \<Rightarrow> h1 | Some q \<Rightarrow> set_sym_status h1 q SAME)
      in case sec_rela (secs h2 s) of None \<Rightarrow> h2 | Some rs \<Rightarrow> set_sec_status h2 rs SAME)"

fun xsplice_mark_ignored_sections_same ::
  "('s, 'y) heap \<Rightarrow> 's list \<Rightarrow> 'y list \<Rightarrow> ('s, 'y) heap" where
  "xsplice_mark_ignored_sections_same h [] symlist = h"
| "xsplice_mark_ignored_sections_same h (s # seclist) symlist =
     xsplice_mark_ignored_sections_same
       (if sec_ignore (secs h s)
        then mark_symbols_of_section_same (mark_section_same h s) s symlist
        else h)
       seclist symlist"

text \<open>\<^verbatim>\<open>xsplice_mark_constant_labels_same\<close> (line 819).\<close>

fun xsplice_mark_constant_labels_same :: "('s, 'y) heap \<Rightarrow> 'y list \<Rightarrow> ('s, 'y) heap" where
  "xsplice_mark_constant_labels_same h [] = h"
| "xsplice_mark_constant_labels_same h (y # symlist) =
     xsplice_mark_constant_labels_same
       (if is_constant_label (syms h y) then set_sym_status h y SAME else h) symlist"

text \<open>
  \<^verbatim>\<open>main\<close> from the inclusion passes to the test of the two counters (lines 1759 to
  1780): it returns 3 there, or goes on to the special sections, the patchability check,
  the migration and the writing of the output with the heap it has reached.
\<close>

datatype ('s, 'y) main_step = Return nat | Continue "('s, 'y) heap"

definition main_inclusion ::
  "('s::finite, 'y) heap \<Rightarrow> 's list \<Rightarrow> 'y list \<Rightarrow> error + ('s, 'y) main_step" where
  "main_inclusion h seclist symlist =
     (case inclusion_passes h seclist symlist of
        Inl e \<Rightarrow> Inl e
      | Inr (num_changed, new_globals_exist, h') \<Rightarrow>
          if num_changed = 0 \<and> new_globals_exist = 0 then Inr (Return 3)
          else Inr (Continue h'))"

text \<open>
  \<^verbatim>\<open>main\<close> from the comparison on (lines 1745 to 1780). Tearing down the base model
  writes nothing to the patched one.
\<close>

definition main_compare ::
  "('s::finite, 'y) heap \<Rightarrow> 's list \<Rightarrow> 'y list \<Rightarrow> error + ('s, 'y) heap" where
  "main_compare h seclist symlist =
     (case xsplice_compare_correlated_elements h seclist symlist of
        Inl e \<Rightarrow> Inl e
      | Inr h1 \<Rightarrow>
          (case xsplice_mark_ignored_functions_same h1 seclist of
             Inl e \<Rightarrow> Inl e
           | Inr h2 \<Rightarrow>
               Inr (xsplice_mark_constant_labels_same
                     (xsplice_mark_ignored_sections_same h2 seclist symlist) symlist)))"

definition main_compare_inclusion ::
  "('s::finite, 'y) heap \<Rightarrow> 's list \<Rightarrow> 'y list \<Rightarrow> error + ('s, 'y) main_step" where
  "main_compare_inclusion h seclist symlist =
     (case main_compare h seclist symlist of
        Inl e \<Rightarrow> Inl e
      | Inr h' \<Rightarrow> main_inclusion h' seclist symlist)"

text \<open>
  Between two heaps the symbols differ in their include flags at most. The two tests that
  feed the counters of \<^verbatim>\<open>main\<close>: a changed function (line 1128) and a new global
  (line 1215).
\<close>

definition same_symbols :: "('s, 'y) heap \<Rightarrow> ('s, 'y) heap \<Rightarrow> bool" where
  "same_symbols h h' =
     (\<forall>y. (syms h' y)\<lparr>sym_include := False\<rparr> = (syms h y)\<lparr>sym_include := False\<rparr>)"

definition changed_function :: "('s, 'y) symbol_t \<Rightarrow> bool" where
  "changed_function sy = (sym_status sy = CHANGED \<and> sym_type sy = STT_FUNC)"

definition new_global :: "('s, 'y) symbol_t \<Rightarrow> bool" where
  "new_global sy = (sym_bind sy = STB_GLOBAL \<and> sym_sec sy \<noteq> None \<and> sym_status sy = NEW)"

lemma same_symbols_refl: "same_symbols h h"
  by (simp add: same_symbols_def)

lemma same_symbols_trans: "same_symbols h1 h2 \<Longrightarrow> same_symbols h2 h3 \<Longrightarrow> same_symbols h1 h3"
  by (simp add: same_symbols_def)

lemma same_symbols_set_sym: "same_symbols h (set_sym_include h y b)"
  by (simp add: same_symbols_def syms_set_sym_include)

lemma same_symbols_upd_sec: "same_symbols h (upd_sec h s f)"
  by (simp add: same_symbols_def upd_sec_def)

lemma same_symbols_set_sec: "same_symbols h (set_sec_include h s b)"
  by (simp add: same_symbols_def)

lemma same_symbols_grow: "includes_grow h h' \<Longrightarrow> same_symbols h h'"
  by (simp add: same_symbols_def includes_grow_def)

lemma same_symbols_fields:
  assumes "same_symbols h h'"
  shows "changed_function (syms h' y) = changed_function (syms h y)"
    and "new_global (syms h' y) = new_global (syms h y)"
    and "sym_type (syms h' y) = sym_type (syms h y)"
    and "sym_sec (syms h' y) = sym_sec (syms h y)"
    and "sym_name (syms h' y) = sym_name (syms h y)"
proof -
  from assms have eq: "(syms h' y)\<lparr>sym_include := False\<rparr> = (syms h y)\<lparr>sym_include := False\<rparr>"
    by (simp add: same_symbols_def)
  from arg_cong [OF eq, of sym_status] arg_cong [OF eq, of sym_type]
    arg_cong [OF eq, of sym_bind] arg_cong [OF eq, of sym_sec] arg_cong [OF eq, of sym_name]
  show "changed_function (syms h' y) = changed_function (syms h y)"
    and "new_global (syms h' y) = new_global (syms h y)"
    and "sym_type (syms h' y) = sym_type (syms h y)"
    and "sym_sec (syms h' y) = sym_sec (syms h y)"
    and "sym_name (syms h' y) = sym_name (syms h y)"
    by (simp_all add: changed_function_def new_global_def)
qed

lemma same_symbols_include_symbol:
  "xsplice_include_symbol h p = Inr h' \<Longrightarrow> same_symbols h h'"
  by (simp add: xsplice_include_symbol_def same_symbols_grow include_symbol_loop_grows)

lemma same_symbols_standard_sections: "same_symbols h (include_standard_sections h seclist)"
proof (induction seclist arbitrary: h)
  case Nil
  show ?case by (simp add: same_symbols_refl)
next
  case (Cons s seclist)
  have "same_symbols h (if standard_section_name (sec_name (secs h s))
      then include_with_secsym h s else h)"
    by (auto simp: include_with_secsym_def same_symbols_refl split: option.splits
        intro: same_symbols_set_sec same_symbols_trans [OF same_symbols_set_sec same_symbols_set_sym])
  then show ?case using Cons.IH by (auto intro: same_symbols_trans)
qed

lemma same_symbols_standard_elements:
  "xsplice_include_standard_elements h seclist symlist = Inr h' \<Longrightarrow> same_symbols h h'"
  by (auto simp: xsplice_include_standard_elements_def split: list.splits
      intro: same_symbols_trans [OF same_symbols_standard_sections same_symbols_set_sym])

lemma changed_functions_loop_count:
  "include_changed_functions_loop h symlist n = Inr (m, h') \<Longrightarrow>
   same_symbols h h' \<and> m = n + length (filter (\<lambda>y. changed_function (syms h y)) symlist)"
proof (induction symlist arbitrary: h n)
  case Nil
  then show ?case by (simp add: same_symbols_refl)
next
  case (Cons y symlist)
  show ?case
  proof (cases "changed_function (syms h y)")
    case True
    with Cons.prems obtain h1 where
      inc: "xsplice_include_symbol h (Some y) = Inr h1"
      and rest: "include_changed_functions_loop
          (if sym_type (syms h1 y) = STT_FILE then set_sym_include h1 y True else h1)
          symlist (n + 1) = Inr (m, h')"
      by (auto simp: changed_function_def split: sum.splits)
    let ?h2 = "if sym_type (syms h1 y) = STT_FILE then set_sym_include h1 y True else h1"
    have s1: "same_symbols h h1" by (rule same_symbols_include_symbol [OF inc])
    have "same_symbols h1 ?h2" by (simp add: same_symbols_refl same_symbols_set_sym)
    with s1 have s2: "same_symbols h ?h2" by (rule same_symbols_trans)
    from Cons.IH [OF rest] have s3: "same_symbols ?h2 h'"
      and m: "m = n + 1 + length (filter (\<lambda>y. changed_function (syms ?h2 y)) symlist)"
      by simp_all
    from same_symbols_fields(1) [OF s2]
    have "(\<lambda>y. changed_function (syms ?h2 y)) = (\<lambda>y. changed_function (syms h y))" by blast
    with m True same_symbols_trans [OF s2 s3] show ?thesis by simp
  next
    case False
    let ?h2 = "if sym_type (syms h y) = STT_FILE then set_sym_include h y True else h"
    from False Cons.prems
    have rest: "include_changed_functions_loop ?h2 symlist n = Inr (m, h')"
      by (auto simp: changed_function_def split: if_splits)
    have s2: "same_symbols h ?h2" by (simp add: same_symbols_refl same_symbols_set_sym)
    from Cons.IH [OF rest] have s3: "same_symbols ?h2 h'"
      and m: "m = n + length (filter (\<lambda>y. changed_function (syms ?h2 y)) symlist)"
      by simp_all
    from same_symbols_fields(1) [OF s2]
    have "(\<lambda>y. changed_function (syms ?h2 y)) = (\<lambda>y. changed_function (syms h y))" by blast
    with m False same_symbols_trans [OF s2 s3] show ?thesis by simp
  qed
qed

lemma new_globals_loop_count:
  "include_new_globals_loop h symlist n = Inr (m, h') \<Longrightarrow>
   same_symbols h h' \<and> m = n + length (filter (\<lambda>y. new_global (syms h y)) symlist)"
proof (induction symlist arbitrary: h n)
  case Nil
  then show ?case by (simp add: same_symbols_refl)
next
  case (Cons y symlist)
  show ?case
  proof (cases "new_global (syms h y)")
    case True
    with Cons.prems obtain h1 where
      inc: "xsplice_include_symbol h (Some y) = Inr h1"
      and rest: "include_new_globals_loop h1 symlist (n + 1) = Inr (m, h')"
      by (auto simp: new_global_def split: sum.splits)
    have s1: "same_symbols h h1" by (rule same_symbols_include_symbol [OF inc])
    from Cons.IH [OF rest] have s3: "same_symbols h1 h'"
      and m: "m = n + 1 + length (filter (\<lambda>y. new_global (syms h1 y)) symlist)"
      by simp_all
    from same_symbols_fields(2) [OF s1]
    have "(\<lambda>y. new_global (syms h1 y)) = (\<lambda>y. new_global (syms h y))" by blast
    with m True same_symbols_trans [OF s1 s3] show ?thesis by simp
  next
    case False
    with Cons.prems have rest: "include_new_globals_loop h symlist n = Inr (m, h')"
      by (auto simp: new_global_def split: if_splits)
    from Cons.IH [OF rest] False show ?thesis by simp
  qed
qed

lemma same_symbols_debug_loop:
  "include_debug_loop h seclist = Inr h' \<Longrightarrow> same_symbols h h'"
proof (induction seclist arbitrary: h)
  case Nil
  then show ?case by (simp add: same_symbols_refl)
next
  case (Cons s seclist)
  from Cons.prems obtain h1 where "same_symbols h h1" "include_debug_loop h1 seclist = Inr h'"
    by (auto split: sum.splits if_splits option.splits
        intro: same_symbols_refl same_symbols_set_sec
          same_symbols_trans [OF same_symbols_set_sec same_symbols_set_sym])
  with Cons.IH show ?case by (blast intro: same_symbols_trans)
qed

lemma same_symbols_strip_debug_loop:
  "strip_debug_loop h seclist = Inr h' \<Longrightarrow> same_symbols h h'"
proof (induction seclist arbitrary: h)
  case Nil
  then show ?case by (simp add: same_symbols_refl)
next
  case (Cons s seclist)
  from Cons.prems obtain h1 where "same_symbols h h1" "strip_debug_loop h1 seclist = Inr h'"
    by (auto split: sum.splits if_splits intro: same_symbols_refl same_symbols_upd_sec)
  with Cons.IH show ?case by (blast intro: same_symbols_trans)
qed

lemma same_symbols_debug_sections:
  "xsplice_include_debug_sections h seclist = Inr h' \<Longrightarrow> same_symbols h h'"
  by (auto simp: xsplice_include_debug_sections_def split: sum.splits
      intro: same_symbols_trans [OF same_symbols_debug_loop same_symbols_strip_debug_loop])

lemma same_symbols_strip_hook_symbol:
  "strip_hook_symbol h s rela rest y = Inr h' \<Longrightarrow> same_symbols h h'"
  by (auto simp: strip_hook_symbol_def split: option.splits
      intro: same_symbols_trans [OF same_symbols_trans [OF same_symbols_set_sym same_symbols_upd_sec]
        same_symbols_upd_sec])

lemma same_symbols_hook_loop:
  "include_hook_loop h seclist = Inr h' \<Longrightarrow> same_symbols h h'"
proof (induction seclist arbitrary: h)
  case Nil
  then show ?case by (simp add: same_symbols_refl)
next
  case (Cons s seclist)
  from Cons.prems obtain h1 where "same_symbols h h1" "include_hook_loop h1 seclist = Inr h'"
    by (auto split: sum.splits if_splits option.splits list.splits
        intro: same_symbols_refl
          same_symbols_trans [OF same_symbols_set_sec same_symbols_set_sym]
          same_symbols_trans [OF same_symbols_trans [OF same_symbols_set_sec
            same_symbols_include_symbol] same_symbols_strip_hook_symbol])
  with Cons.IH show ?case by (blast intro: same_symbols_trans)
qed

lemma same_symbols_strip_hook_data: "same_symbols h (strip_hook_data h symlist)"
proof (induction symlist arbitrary: h)
  case Nil
  show ?case by (simp add: same_symbols_refl)
next
  case (Cons y symlist)
  have "same_symbols h (if sym_name (syms h y) = ''xsplice_load_data'' \<or>
           sym_name (syms h y) = ''xsplice_unload_data''
        then set_sym_include h y False else h)"
    by (simp add: same_symbols_refl same_symbols_set_sym)
  then show ?case using Cons.IH by (auto intro: same_symbols_trans simp del: One_nat_def)
qed

lemma same_symbols_hook_elements:
  "xsplice_include_hook_elements h seclist symlist = Inr h' \<Longrightarrow> same_symbols h h'"
  by (auto simp: xsplice_include_hook_elements_def split: sum.splits
      intro: same_symbols_trans [OF same_symbols_hook_loop same_symbols_strip_hook_data])

lemma inclusion_passes_counts:
  assumes "inclusion_passes h seclist symlist = Inr (n, g, h')"
  shows "same_symbols h h' \<and>
         n = length (filter (\<lambda>y. changed_function (syms h' y)) symlist) \<and>
         g = length (filter (\<lambda>y. new_global (syms h' y)) symlist)"
proof -
  from assms obtain h1 h2 h3 h4 where
    p1: "xsplice_include_standard_elements h seclist symlist = Inr h1"
    and p2: "xsplice_include_changed_functions h1 symlist = Inr (n, h2)"
    and p3: "xsplice_include_debug_sections h2 seclist = Inr h3"
    and p4: "xsplice_include_hook_elements h3 seclist symlist = Inr h4"
    and p5: "xsplice_include_new_globals h4 symlist = Inr (g, h')"
    by (auto simp: inclusion_passes_def split: sum.splits prod.splits)
  have s1: "same_symbols h h1" by (rule same_symbols_standard_elements [OF p1])
  from changed_functions_loop_count [OF p2 [unfolded xsplice_include_changed_functions_def]]
  have s2: "same_symbols h1 h2"
    and n: "n = length (filter (\<lambda>y. changed_function (syms h1 y)) symlist)" by simp_all
  have s3: "same_symbols h2 h3" by (rule same_symbols_debug_sections [OF p3])
  have s4: "same_symbols h3 h4" by (rule same_symbols_hook_elements [OF p4])
  from new_globals_loop_count [OF p5 [unfolded xsplice_include_new_globals_def]]
  have s5: "same_symbols h4 h'"
    and g: "g = length (filter (\<lambda>y. new_global (syms h4 y)) symlist)" by simp_all
  have a: "same_symbols h1 h'"
    by (rule same_symbols_trans [OF same_symbols_trans [OF same_symbols_trans [OF s2 s3] s4] s5])
  from same_symbols_fields(1) [OF a]
  have "(\<lambda>y. changed_function (syms h1 y)) = (\<lambda>y. changed_function (syms h' y))" by simp
  moreover from same_symbols_fields(2) [OF s5]
  have "(\<lambda>y. new_global (syms h4 y)) = (\<lambda>y. new_global (syms h' y))" by simp
  ultimately show ?thesis using n g same_symbols_trans [OF s1 a] by simp
qed

subsection \<open>A base object and a patched object\<close>

text \<open>
  One function \<^verbatim>\<open>foo\<close> in \<^verbatim>\<open>.text.foo\<close> that loads the address of the
  undefined global \<^verbatim>\<open>bar\<close>. In \<open>same_heap\<close> the patched object (\<open>P_\<close>) and
  the base object (\<open>B_\<close>) are identical and fully correlated. In \<open>reloc_heap\<close> the base
  has the same bytes in \<^verbatim>\<open>.text.foo\<close> but no relocation and no symbol
  \<^verbatim>\<open>bar\<close>, so \<^verbatim>\<open>.rela.text.foo\<close> and \<^verbatim>\<open>bar\<close> of the patched object have
  no twin. Twinned elements carry the status \<^verbatim>\<open>SAME\<close> that correlation gives them.
\<close>

datatype obj_sec = P_text_foo | P_rela_text_foo | B_text_foo | B_rela_text_foo

instance obj_sec :: finite
proof
  have "(UNIV :: obj_sec set) \<subseteq> {P_text_foo, P_rela_text_foo, B_text_foo, B_rela_text_foo}"
    using obj_sec.exhaust by auto
  then show "finite (UNIV :: obj_sec set)" by (rule finite_subset) simp
qed

datatype obj_sym = P_null | P_file | P_sec_text_foo | P_foo | P_bar
  | B_null | B_file | B_sec_text_foo | B_foo | B_bar

definition text_foo :: "(obj_sec, obj_sym) section_t" where
  "text_foo = zero_section\<lparr>sec_name := ''.text.foo'', sh_type := SHT_PROGBITS, sh_flags := 6,
     sh_addralign := 16, sh_size := 8, d_buf := [0x55, 0xb8, 0, 0, 0, 0, 0x5d, 0xc3],
     d_size := 8, sec_status := SAME\<rparr>"

definition rela_text_foo :: "(obj_sec, obj_sym) section_t" where
  "rela_text_foo = zero_section\<lparr>sec_name := ''.rela.text.foo'', sh_type := SHT_RELA,
     sh_addralign := 8, sh_entsize := 24, sh_size := 24, d_size := 24, sec_status := SAME\<rparr>"

definition mov_bar :: "obj_sym \<Rightarrow> obj_sym rela_t" where
  "mov_bar y = zero_rela\<lparr>r_sym := Some y, r_type := 10, r_addend := 0, r_offset := 2\<rparr>"

definition same_secs :: "obj_sec \<Rightarrow> (obj_sec, obj_sym) section_t" where
  "same_secs s = (case s of
      P_text_foo \<Rightarrow> text_foo\<lparr>sec_twin := Some B_text_foo, sec_rela := Some P_rela_text_foo,
        sec_secsym := Some P_sec_text_foo, sec_sym := Some P_foo\<rparr>
    | P_rela_text_foo \<Rightarrow> rela_text_foo\<lparr>sec_twin := Some B_rela_text_foo,
        sec_base := Some P_text_foo, relas := [mov_bar P_bar]\<rparr>
    | B_text_foo \<Rightarrow> text_foo\<lparr>sec_twin := Some P_text_foo, sec_rela := Some B_rela_text_foo,
        sec_secsym := Some B_sec_text_foo, sec_sym := Some B_foo\<rparr>
    | B_rela_text_foo \<Rightarrow> rela_text_foo\<lparr>sec_twin := Some P_rela_text_foo,
        sec_base := Some B_text_foo, relas := [mov_bar B_bar]\<rparr>)"

definition null_sym :: "(obj_sec, obj_sym) symbol_t" where
  "null_sym = zero_symbol\<lparr>sym_status := SAME\<rparr>"

definition file_sym :: "(obj_sec, obj_sym) symbol_t" where
  "file_sym = zero_symbol\<lparr>sym_name := ''foo.c'', sym_type := STT_FILE, st_info := 4,
     st_shndx := SHN_ABS, sym_status := SAME\<rparr>"

definition sec_text_foo_sym :: "(obj_sec, obj_sym) symbol_t" where
  "sec_text_foo_sym = zero_symbol\<lparr>sym_name := ''.text.foo'', sym_type := STT_SECTION,
     st_info := 3, st_shndx := 1, sym_status := SAME\<rparr>"

definition foo_sym :: "(obj_sec, obj_sym) symbol_t" where
  "foo_sym = zero_symbol\<lparr>sym_name := ''foo'', sym_type := STT_FUNC, sym_bind := STB_GLOBAL,
     st_info := 18, st_shndx := 1, st_size := 8, sym_status := SAME\<rparr>"

definition bar_sym :: "(obj_sec, obj_sym) symbol_t" where
  "bar_sym = zero_symbol\<lparr>sym_name := ''bar'', sym_bind := STB_GLOBAL, st_info := 16,
     sym_status := SAME\<rparr>"

definition same_syms :: "obj_sym \<Rightarrow> (obj_sec, obj_sym) symbol_t" where
  "same_syms y = (case y of
      P_null \<Rightarrow> null_sym\<lparr>sym_twin := Some B_null\<rparr>
    | P_file \<Rightarrow> file_sym\<lparr>sym_twin := Some B_file\<rparr>
    | P_sec_text_foo \<Rightarrow> sec_text_foo_sym\<lparr>sym_sec := Some P_text_foo, sym_twin := Some B_sec_text_foo\<rparr>
    | P_foo \<Rightarrow> foo_sym\<lparr>sym_sec := Some P_text_foo, sym_twin := Some B_foo\<rparr>
    | P_bar \<Rightarrow> bar_sym\<lparr>sym_twin := Some B_bar\<rparr>
    | B_null \<Rightarrow> null_sym\<lparr>sym_twin := Some P_null\<rparr>
    | B_file \<Rightarrow> file_sym\<lparr>sym_twin := Some P_file\<rparr>
    | B_sec_text_foo \<Rightarrow> sec_text_foo_sym\<lparr>sym_sec := Some B_text_foo, sym_twin := Some P_sec_text_foo\<rparr>
    | B_foo \<Rightarrow> foo_sym\<lparr>sym_sec := Some B_text_foo, sym_twin := Some P_foo\<rparr>
    | B_bar \<Rightarrow> bar_sym\<lparr>sym_twin := Some P_bar\<rparr>)"

definition same_heap :: "(obj_sec, obj_sym) heap" where
  "same_heap = \<lparr>secs = same_secs, syms = same_syms\<rparr>"

definition reloc_heap :: "(obj_sec, obj_sym) heap" where
  "reloc_heap = \<lparr>secs = same_secs
       (P_rela_text_foo := (same_secs P_rela_text_foo)\<lparr>sec_twin := None, sec_status := NEW\<rparr>,
        B_text_foo := (same_secs B_text_foo)\<lparr>sec_rela := None\<rparr>),
     syms = same_syms(P_bar := (same_syms P_bar)\<lparr>sym_twin := None, sym_status := NEW\<rparr>)\<rparr>"

definition foo_sections :: "obj_sec list" where
  "foo_sections = [P_text_foo, P_rela_text_foo]"

definition foo_symbols :: "obj_sym list" where
  "foo_symbols = [P_null, P_file, P_sec_text_foo, P_foo, P_bar]"

text \<open>The condition in the words of the claim: a global symbol with a section and no twin.\<close>

definition untwinned_global :: "('s, 'y) symbol_t \<Rightarrow> bool" where
  "untwinned_global sy = (sym_bind sy = STB_GLOBAL \<and> sym_sec sy \<noteq> None \<and> sym_twin sy = None)"

lemmas obj_defs = same_heap_def reloc_heap_def same_secs_def same_syms_def text_foo_def
  rela_text_foo_def mov_bar_def null_sym_def file_sym_def sec_text_foo_sym_def foo_sym_def
  bar_sym_def foo_sections_def foo_symbols_def zero_section_def zero_symbol_def
  zero_rela_def

lemmas compare_defs = main_compare_def xsplice_compare_correlated_elements_def
  xsplice_compare_sections_def xsplice_compare_correlated_section_def compare_branch_of_def
  xsplice_compare_correlated_rela_section_def xsplice_compare_correlated_nonrela_section_def
  sync_bundled_status_def xsplice_compare_correlated_symbol_def symbol_changed_sections_def
  twin_is_ignored_def set_sec_status_def set_sym_status_def rela_equal_def targets_equal_def
  both_constant_labels_def names_equal_def is_constant_label_def is_special_static_def
  special_static_object_def special_prefixes_def xsplice_mark_ignored_functions_same_def
  find_section_by_name_def

text \<open>
  Claim C7, as the code has it. If after comparison and inclusion no \<^verbatim>\<open>STT_FUNC\<close>
  symbol is \<^verbatim>\<open>CHANGED\<close> and no \<^verbatim>\<open>STB_GLOBAL\<close> symbol with a section has the
  status \<^verbatim>\<open>NEW\<close>, then \<^verbatim>\<open>main\<close> returns 3 at the test of the two counters,
  before the special sections are processed and before anything is migrated or written.
\<close>

theorem empty_diff_exits_3:
  assumes run: "inclusion_passes h seclist symlist = Inr (n, g, h')"
    and nochange: "\<forall>y\<in>set symlist. \<not> changed_function (syms h' y)"
    and nonew: "\<forall>y\<in>set symlist. \<not> new_global (syms h' y)"
  shows "main_inclusion h seclist symlist = Inr (Return 3)"
proof -
  from inclusion_passes_counts [OF run] nochange nonew have "n = 0" "g = 0"
    by (simp_all add: filter_empty_conv)
  with run show ?thesis by (simp add: main_inclusion_def)
qed

theorem empty_diff_exits_3_witness:
  "main_compare_inclusion same_heap foo_sections foo_symbols = Inr (Return 3)"
proof -
  have ev: "(case main_compare same_heap foo_sections foo_symbols of
      Inl e \<Rightarrow> False
    | Inr h \<Rightarrow>
        (case inclusion_passes h foo_sections foo_symbols of
           Inl e \<Rightarrow> False
         | Inr (num_changed, new_globals_exist, h') \<Rightarrow>
             list_all (\<lambda>y. \<not> changed_function (syms h' y)) foo_symbols \<and>
             list_all (\<lambda>y. \<not> new_global (syms h' y)) foo_symbols))"
    by (simp add: obj_defs compare_defs pass_defs changed_function_def new_global_def)
  then obtain h where h: "main_compare same_heap foo_sections foo_symbols = Inr h"
    by (cases "main_compare same_heap foo_sections foo_symbols") simp_all
  with ev obtain n g h' where
    run: "inclusion_passes h foo_sections foo_symbols = Inr (n, g, h')"
    and a: "list_all (\<lambda>y. \<not> changed_function (syms h' y)) foo_symbols"
    and b: "list_all (\<lambda>y. \<not> new_global (syms h' y)) foo_symbols"
    by (cases "inclusion_passes h foo_sections foo_symbols") auto
  from a b have "\<forall>y\<in>set foo_symbols. \<not> changed_function (syms h' y)"
    and "\<forall>y\<in>set foo_symbols. \<not> new_global (syms h' y)"
    by (simp_all add: list_all_iff)
  from empty_diff_exits_3 [OF run this] h show ?thesis
    by (simp add: main_compare_inclusion_def)
qed

text \<open>
  The claim as stated fails on \<open>reloc_heap\<close>. The section comparison finds
  \<^verbatim>\<open>.text.foo\<close> unchanged and \<^verbatim>\<open>.rela.text.foo\<close> new, and the status loop copies
  \<^verbatim>\<open>NEW\<close> to the bundled symbol \<^verbatim>\<open>foo\<close>, which has a twin. No function is
  \<^verbatim>\<open>CHANGED\<close> and no global symbol with a section is untwinned, yet
  \<^verbatim>\<open>xsplice_include_new_globals\<close> counts \<^verbatim>\<open>foo\<close> and \<^verbatim>\<open>main\<close> goes on.
\<close>

theorem empty_diff_untwinned_counterexample:
  "main_compare_inclusion reloc_heap foo_sections foo_symbols \<noteq> Inr (Return 3) \<and>
   (case main_compare reloc_heap foo_sections foo_symbols of
      Inl e \<Rightarrow> False
    | Inr h \<Rightarrow>
        (case inclusion_passes h foo_sections foo_symbols of
           Inl e \<Rightarrow> False
         | Inr (num_changed, new_globals_exist, h') \<Rightarrow>
             list_all (\<lambda>y. \<not> changed_function (syms h' y)) foo_symbols \<and>
             list_all (\<lambda>y. \<not> untwinned_global (syms h' y)) foo_symbols \<and>
             sym_twin (syms h' P_foo) = Some B_foo \<and> sym_status (syms h' P_foo) = NEW \<and>
             num_changed = 0 \<and> new_globals_exist = 1))"
  by (simp add: main_compare_inclusion_def main_inclusion_def obj_defs compare_defs pass_defs
      changed_function_def untwinned_global_def)

section \<open>The correlator\<close>

text \<open>
  \<^verbatim>\<open>xsplice_correlate_sections\<close> (line 352). The inner loop looks for the first
  section of the second list that can be the twin of \<open>s1\<close>; it stops there, links the
  two sections in both directions and gives both the status \<^verbatim>\<open>SAME\<close>. Whether
  either section has a twin already is not looked at.
\<close>

definition set_sec_twin :: "('s, 'y) heap \<Rightarrow> 's \<Rightarrow> 's \<Rightarrow> ('s, 'y) heap" where
  "set_sec_twin h s t = upd_sec h s (\<lambda>sec. sec\<lparr>sec_twin := Some t, sec_status := SAME\<rparr>)"

definition set_sym_twin :: "('s, 'y) heap \<Rightarrow> 'y \<Rightarrow> 'y \<Rightarrow> ('s, 'y) heap" where
  "set_sym_twin h y t = upd_sym h y (\<lambda>sy. sy\<lparr>sym_twin := Some t, sym_status := SAME\<rparr>)"

definition section_special_static :: "('s, 'y) heap \<Rightarrow> 's \<Rightarrow> error + bool" where
  "section_special_static h s1 =
     (if is_rela_section (secs h s1)
      then (case sec_base (secs h s1) of
              None \<Rightarrow> Inl SEGV
            | Some b \<Rightarrow> is_special_static h (sec_secsym (secs h b)))
      else is_special_static h (sec_secsym (secs h s1)))"

definition group_sections_differ :: "('s, 'y) section_t \<Rightarrow> ('s, 'y) section_t \<Rightarrow> bool" where
  "group_sections_differ sec1 sec2 =
     (sh_type sec1 = SHT_GROUP \<and>
      (d_size sec1 \<noteq> d_size sec2 \<or>
       take (d_size sec1) (d_buf sec1) \<noteq> take (d_size sec1) (d_buf sec2)))"

fun correlate_section :: "('s, 'y) heap \<Rightarrow> 's \<Rightarrow> 's list \<Rightarrow> error + ('s, 'y) heap" where
  "correlate_section h s1 [] = Inr h"
| "correlate_section h s1 (s2 # seclist2) =
     (if sec_name (secs h s1) \<noteq> sec_name (secs h s2) then correlate_section h s1 seclist2
      else (case section_special_static h s1 of
              Inl e \<Rightarrow> Inl e
            | Inr special \<Rightarrow>
                if special then correlate_section h s1 seclist2
                else if group_sections_differ (secs h s1) (secs h s2)
                then correlate_section h s1 seclist2
                else Inr (set_sec_twin (set_sec_twin h s1 s2) s2 s1)))"

fun xsplice_correlate_sections ::
  "('s, 'y) heap \<Rightarrow> 's list \<Rightarrow> 's list \<Rightarrow> error + ('s, 'y) heap" where
  "xsplice_correlate_sections h [] seclist2 = Inr h"
| "xsplice_correlate_sections h (s1 # seclist1) seclist2 =
     (case correlate_section h s1 seclist2 of
        Inl e \<Rightarrow> Inl e
      | Inr h' \<Rightarrow> xsplice_correlate_sections h' seclist1 seclist2)"

text \<open>\<^verbatim>\<open>xsplice_correlate_symbols\<close> (line 388).\<close>

definition group_symbol_uncorrelated :: "('s, 'y) heap \<Rightarrow> 'y \<Rightarrow> 'y \<Rightarrow> bool" where
  "group_symbol_uncorrelated h y1 y2 =
     (case sym_sec (syms h y1) of
        None \<Rightarrow> False
      | Some s1 \<Rightarrow>
          sh_type (secs h s1) = SHT_GROUP \<and> sec_twin (secs h s1) \<noteq> sym_sec (syms h y2))"

fun correlate_symbol :: "('s, 'y) heap \<Rightarrow> 'y \<Rightarrow> 'y list \<Rightarrow> error + ('s, 'y) heap" where
  "correlate_symbol h y1 [] = Inr h"
| "correlate_symbol h y1 (y2 # symlist2) =
     (if sym_name (syms h y1) \<noteq> sym_name (syms h y2) \<or>
         sym_type (syms h y1) \<noteq> sym_type (syms h y2)
      then correlate_symbol h y1 symlist2
      else (case is_special_static h (Some y1) of
              Inl e \<Rightarrow> Inl e
            | Inr special \<Rightarrow>
                if special then correlate_symbol h y1 symlist2
                else if is_constant_label (syms h y1) then correlate_symbol h y1 symlist2
                else if group_symbol_uncorrelated h y1 y2 then correlate_symbol h y1 symlist2
                else Inr (set_sym_twin (set_sym_twin h y1 y2) y2 y1)))"

fun xsplice_correlate_symbols ::
  "('s, 'y) heap \<Rightarrow> 'y list \<Rightarrow> 'y list \<Rightarrow> error + ('s, 'y) heap" where
  "xsplice_correlate_symbols h [] symlist2 = Inr h"
| "xsplice_correlate_symbols h (y1 # symlist1) symlist2 =
     (case correlate_symbol h y1 symlist2 of
        Inl e \<Rightarrow> Inl e
      | Inr h' \<Rightarrow> xsplice_correlate_symbols h' symlist1 symlist2)"

text \<open>
  Twin symmetry over the sections of two lists: whoever has a twin is the twin of its twin,
  and nobody is its own twin.
\<close>

definition twins_symmetric :: "('s, 'y) heap \<Rightarrow> 's list \<Rightarrow> bool" where
  "twins_symmetric h seclist =
     list_all (\<lambda>a. case sec_twin (secs h a) of
                      None \<Rightarrow> True
                    | Some b \<Rightarrow> sec_twin (secs h b) = Some a \<and> b \<noteq> a) seclist"

text \<open>
  A base object with two sections of one name (sections 1 and 2) and a patched object with
  one section of that name (section 3); no twin is set before the correlation.
\<close>

definition dup_heap :: "(nat, nat) heap" where
  "dup_heap = \<lparr>secs = (\<lambda>_. zero_section)
       (1 := zero_section\<lparr>sec_name := ''.text.foo'', sh_type := SHT_PROGBITS\<rparr>,
        2 := zero_section\<lparr>sec_name := ''.text.foo'', sh_type := SHT_PROGBITS\<rparr>,
        3 := zero_section\<lparr>sec_name := ''.text.foo'', sh_type := SHT_PROGBITS\<rparr>),
     syms = (\<lambda>_. zero_symbol)\<rparr>"

text \<open>
  Claim C6 on \<open>dup_heap\<close>: after \<^verbatim>\<open>xsplice_correlate_sections\<close> the first base
  section has the patched section as its twin, but the twin of the patched section is the
  second base section.
\<close>

theorem correlate_sections_overwrites_twin:
  "(case xsplice_correlate_sections dup_heap [1, 2] [3] of
      Inl e \<Rightarrow> False
    | Inr h' \<Rightarrow>
        sec_twin (secs h' 1) = Some 3 \<and> sec_twin (secs h' 3) = Some 2 \<and>
        sec_twin (secs h' 2) = Some 3 \<and> \<not> twins_symmetric h' [1, 2, 3])"
  by (simp add: dup_heap_def zero_section_def section_special_static_def is_rela_section_def
      is_special_static_def group_sections_differ_def set_sec_twin_def upd_sec_def
      twins_symmetric_def)

subsection \<open>Mangled-function renaming\<close>

text \<open>
  \<^verbatim>\<open>xsplice_rename_mangled_functions\<close> (line 226). The first part of the loop body
  (lines 235 to 255) decides whether the patched symbol \<open>y\<close> is renamed and which base
  symbol gives it its name: the first symbol of the base list, of whatever type, whose
  name matches under \<^verbatim>\<open>xsplice_mangled_strcmp\<close>; the search stops at the first match.
\<close>

definition is_mangled_clone :: "string \<Rightarrow> bool" where
  "is_mangled_clone name =
     (strstr name ''.isra.'' \<or> strstr name ''.constprop.'' \<or> strstr name ''.part.'')"

definition find_mangled_match :: "('s, 'y) heap \<Rightarrow> 'y list \<Rightarrow> string \<Rightarrow> 'y option" where
  "find_mangled_match h base_symbols name =
     find (\<lambda>b. xsplice_mangled_strcmp (sym_name (syms h b)) name = 0) base_symbols"

definition mangled_rename_target :: "('s, 'y) heap \<Rightarrow> 'y list \<Rightarrow> 'y \<Rightarrow> 'y option" where
  "mangled_rename_target h base_symbols y =
     (if sym_type (syms h y) \<noteq> STT_FUNC then None
      else if \<not> is_mangled_clone (sym_name (syms h y)) then None
      else (case find_mangled_match h base_symbols (sym_name (syms h y)) of
              None \<Rightarrow> None
            | Some b \<Rightarrow> if sym_name (syms h y) = sym_name (syms h b) then None else Some b))"

definition set_sec_name :: "('s, 'y) heap \<Rightarrow> 's \<Rightarrow> string \<Rightarrow> ('s, 'y) heap" where
  "set_sec_name h s name = upd_sec h s (\<lambda>sec. sec\<lparr>sec_name := name\<rparr>)"

definition set_sym_name :: "('s, 'y) heap \<Rightarrow> 'y \<Rightarrow> string \<Rightarrow> ('s, 'y) heap" where
  "set_sym_name h y name = upd_sym h y (\<lambda>sy. sy\<lparr>sym_name := name\<rparr>)"

text \<open>
  \<^verbatim>\<open>if (sec->rela) sec->rela->name = strdup(basesec->rela->name)\<close>, as it stands at
  lines 265 and 283: the relocation section of the base section is not checked.
\<close>

definition rename_rela_section :: "('s, 'y) heap \<Rightarrow> 's \<Rightarrow> 's \<Rightarrow> error + ('s, 'y) heap" where
  "rename_rela_section h sec basesec =
     (case sec_rela (secs h sec) of
        None \<Rightarrow> Inr h
      | Some rs \<Rightarrow>
          (case sec_rela (secs h basesec) of
             None \<Rightarrow> Inl SEGV
           | Some brs \<Rightarrow> Inr (set_sec_name h rs (sec_name (secs h brs)))))"

text \<open>
  Lines 273 to 284: the sibling \<^verbatim>\<open>.rodata.\<close> section of the renamed function. The
  name to look for is written by \<^verbatim>\<open>sprintf(name, ".rodata.%s", ...)\<close> into the buffer
  \<^verbatim>\<open>char name[256]\<close> of line 230: eight characters, the characters of the function name
  up to its NUL, and a NUL. A function name of 248 characters or more is written past the
  end of the buffer; the model stops there with \<^verbatim>\<open>OUT_OF_BOUNDS\<close>.
\<close>

definition sprintf_rodata :: "string \<Rightarrow> error + string" where
  "sprintf_rodata fname =
     (if 256 < length ''.rodata.'' + strlen fname + 1 then Inl OUT_OF_BOUNDS
      else Inr (''.rodata.'' @ take (strlen fname) fname))"

definition rename_sibling_rodata ::
  "('s, 'y) heap \<Rightarrow> 's list \<Rightarrow> 's list \<Rightarrow> string \<Rightarrow> string \<Rightarrow> error + ('s, 'y) heap" where
  "rename_sibling_rodata h base_sections patched_sections origname basename =
     (case sprintf_rodata origname of
        Inl e \<Rightarrow> Inl e
      | Inr name \<Rightarrow>
          (case find_section_by_name h patched_sections name of
             None \<Rightarrow> Inr h
           | Some sec \<Rightarrow>
               (case sprintf_rodata basename of
                  Inl e \<Rightarrow> Inl e
                | Inr name' \<Rightarrow>
                    (case find_section_by_name h base_sections name' of
                       None \<Rightarrow> Inr h
                     | Some basesec \<Rightarrow>
                         (case sec_secsym (secs h sec) of
                            None \<Rightarrow> Inl SEGV
                          | Some q \<Rightarrow>
                              rename_rela_section
                                (set_sym_name (set_sec_name h sec (sec_name (secs h basesec))) q
                                   (sec_name (secs h basesec)))
                                sec basesec)))))"

text \<open>Lines 261 to 284, for the symbol \<open>y\<close> that has taken the name of \<open>b\<close>.\<close>

definition rename_bundled_sections ::
  "('s, 'y) heap \<Rightarrow> 's list \<Rightarrow> 's list \<Rightarrow> 'y \<Rightarrow> 'y \<Rightarrow> string \<Rightarrow> error + ('s, 'y) heap" where
  "rename_bundled_sections h base_sections patched_sections y b origname =
     (case sym_sec (syms h y) of
        None \<Rightarrow> Inl SEGV
      | Some s \<Rightarrow>
          if sec_sym (secs h s) \<noteq> Some y then Inr h
          else (case sym_sec (syms h b) of
                  None \<Rightarrow> Inl SEGV
                | Some bs \<Rightarrow>
                    (case rename_rela_section (set_sec_name h s (sec_name (secs h bs))) s bs of
                       Inl e \<Rightarrow> Inl e
                     | Inr h' \<Rightarrow>
                         rename_sibling_rodata h' base_sections patched_sections origname
                           (sym_name (syms h' b)))))"

definition rename_mangled_function ::
  "('s, 'y) heap \<Rightarrow> 's list \<Rightarrow> 'y list \<Rightarrow> 's list \<Rightarrow> 'y \<Rightarrow> error + ('s, 'y) heap" where
  "rename_mangled_function h base_sections base_symbols patched_sections y =
     (case mangled_rename_target h base_symbols y of
        None \<Rightarrow> Inr h
      | Some b \<Rightarrow>
          rename_bundled_sections (set_sym_name h y (sym_name (syms h b)))
            base_sections patched_sections y b (sym_name (syms h y)))"

fun xsplice_rename_mangled_functions ::
  "('s, 'y) heap \<Rightarrow> 's list \<Rightarrow> 'y list \<Rightarrow> 's list \<Rightarrow> 'y list \<Rightarrow> error + ('s, 'y) heap" where
  "xsplice_rename_mangled_functions h base_sections base_symbols patched_sections [] = Inr h"
| "xsplice_rename_mangled_functions h base_sections base_symbols patched_sections
     (y # patched_symbols) =
     (case rename_mangled_function h base_sections base_symbols patched_sections y of
        Inl e \<Rightarrow> Inl e
      | Inr h' \<Rightarrow>
          xsplice_rename_mangled_functions h' base_sections base_symbols patched_sections
            patched_symbols)"

text \<open>The base functions that match a name under mangled equality, as the claim counts them.\<close>

definition base_function_matches :: "('s, 'y) heap \<Rightarrow> 'y list \<Rightarrow> string \<Rightarrow> 'y list" where
  "base_function_matches h base_symbols name =
     filter (\<lambda>b. sym_type (syms h b) = STT_FUNC \<and>
                 xsplice_mangled_strcmp (sym_name (syms h b)) name = 0) base_symbols"

text \<open>
  A base object and a patched object with the same two clones of \<^verbatim>\<open>foo\<close>, each in
  its own section: base sections and symbols 1 and 2, patched sections and symbols 3
  and 4.
\<close>

definition clone_section :: "string \<Rightarrow> nat \<Rightarrow> (nat, nat) section_t" where
  "clone_section name y =
     zero_section\<lparr>sec_name := ''.text.'' @ name, sh_type := SHT_PROGBITS, sec_sym := Some y\<rparr>"

definition clone_symbol :: "string \<Rightarrow> nat \<Rightarrow> (nat, nat) symbol_t" where
  "clone_symbol name s = zero_symbol\<lparr>sym_name := name, sym_type := STT_FUNC, sym_sec := Some s\<rparr>"

definition clone_heap :: "(nat, nat) heap" where
  "clone_heap = \<lparr>secs = (\<lambda>_. zero_section)
       (1 := clone_section ''foo.constprop.0'' 1, 2 := clone_section ''foo.constprop.1'' 2,
        3 := clone_section ''foo.constprop.0'' 3, 4 := clone_section ''foo.constprop.1'' 4),
     syms = (\<lambda>_. zero_symbol)
       (1 := clone_symbol ''foo.constprop.0'' 1, 2 := clone_symbol ''foo.constprop.1'' 2,
        3 := clone_symbol ''foo.constprop.0'' 3, 4 := clone_symbol ''foo.constprop.1'' 4)\<rparr>"

text \<open>
  A base object (sections 1 to 4, symbol 1) and a patched object (sections 5 to 8, symbols
  2 and 3) with one clone of \<^verbatim>\<open>foo\<close> each, bundled in its text section, with a
  relocation section and a sibling \<^verbatim>\<open>.rodata.\<close> section.
\<close>

definition isra_heap :: "(nat, nat) heap" where
  "isra_heap = \<lparr>secs = (\<lambda>_. zero_section)
       (1 := zero_section\<lparr>sec_name := ''.text.foo.isra.1'', sh_type := SHT_PROGBITS,
              sec_rela := Some 2, sec_sym := Some 1\<rparr>,
        2 := zero_section\<lparr>sec_name := ''.rela.text.foo.isra.1'', sh_type := SHT_RELA,
              sec_base := Some 1\<rparr>,
        3 := zero_section\<lparr>sec_name := ''.rodata.foo.isra.1'', sh_type := SHT_PROGBITS,
              sec_rela := Some 4\<rparr>,
        4 := zero_section\<lparr>sec_name := ''.rela.rodata.foo.isra.1'', sh_type := SHT_RELA,
              sec_base := Some 3\<rparr>,
        5 := zero_section\<lparr>sec_name := ''.text.foo.isra.2'', sh_type := SHT_PROGBITS,
              sec_rela := Some 6, sec_sym := Some 2\<rparr>,
        6 := zero_section\<lparr>sec_name := ''.rela.text.foo.isra.2'', sh_type := SHT_RELA,
              sec_base := Some 5\<rparr>,
        7 := zero_section\<lparr>sec_name := ''.rodata.foo.isra.2'', sh_type := SHT_PROGBITS,
              sec_rela := Some 8, sec_secsym := Some 3\<rparr>,
        8 := zero_section\<lparr>sec_name := ''.rela.rodata.foo.isra.2'', sh_type := SHT_RELA,
              sec_base := Some 7\<rparr>),
     syms = (\<lambda>_. zero_symbol)
       (1 := zero_symbol\<lparr>sym_name := ''foo.isra.1'', sym_type := STT_FUNC, sym_sec := Some 1\<rparr>,
        2 := zero_symbol\<lparr>sym_name := ''foo.isra.2'', sym_type := STT_FUNC, sym_sec := Some 5\<rparr>,
        3 := zero_symbol\<lparr>sym_name := ''.rodata.foo.isra.2'', sym_type := STT_SECTION,
               sym_sec := Some 7\<rparr>)\<rparr>"

lemma find_first_split:
  "find P xs = Some b \<Longrightarrow> \<exists>pre post. xs = pre @ b # post \<and> (\<forall>a\<in>set pre. \<not> P a) \<and> P b"
proof (induction xs)
  case Nil
  then show ?case by simp
next
  case (Cons x xs)
  show ?case
  proof (cases "P x")
    case True
    with Cons.prems have "x = b" by simp
    with True have "x # xs = [] @ b # xs \<and> (\<forall>a\<in>set []. \<not> P a) \<and> P b" by simp
    then show ?thesis by blast
  next
    case False
    with Cons obtain pre post where "xs = pre @ b # post" "\<forall>a\<in>set pre. \<not> P a" "P b"
      by auto
    with False have "x # xs = (x # pre) @ b # post \<and> (\<forall>a\<in>set (x # pre). \<not> P a) \<and> P b"
      by simp
    then show ?thesis by blast
  qed
qed

text \<open>
  The symbol that gives its name is the first symbol of the base list that matches; the
  symbols after it are not looked at, so nothing tells one match from several.
\<close>

lemma mangled_rename_target_first_match:
  assumes "mangled_rename_target h base_symbols y = Some b"
  shows "\<exists>pre post. base_symbols = pre @ b # post \<and>
     (\<forall>a\<in>set pre. xsplice_mangled_strcmp (sym_name (syms h a)) (sym_name (syms h y)) \<noteq> 0) \<and>
     xsplice_mangled_strcmp (sym_name (syms h b)) (sym_name (syms h y)) = 0 \<and>
     sym_name (syms h b) \<noteq> sym_name (syms h y)"
proof -
  let ?P = "\<lambda>a. xsplice_mangled_strcmp (sym_name (syms h a)) (sym_name (syms h y)) = 0"
  from assms have fnd: "find ?P base_symbols = Some b"
    and ne: "sym_name (syms h b) \<noteq> sym_name (syms h y)"
    by (auto simp: mangled_rename_target_def find_mangled_match_def
        split: if_splits option.splits)
  from find_first_split [OF fnd] ne show ?thesis by blast
qed

lemmas rename_defs = rename_mangled_function_def mangled_rename_target_def
  is_mangled_clone_def find_mangled_match_def rename_bundled_sections_def
  rename_rela_section_def rename_sibling_rodata_def sprintf_rodata_def strlen_def
  find_section_by_name_def set_sec_name_def set_sym_name_def upd_sec_def upd_sym_def
  has_prefix_def

text \<open>
  On \<open>isra_heap\<close>, where one base function matches, the patched \<^verbatim>\<open>foo.isra.2\<close>, its
  section, the sibling \<^verbatim>\<open>.rodata.\<close> section with its section symbol and the two
  relocation sections take the base names.
\<close>

lemma rename_mangled_function_isra:
  "(case rename_mangled_function isra_heap [1, 2, 3, 4] [1] [5, 6, 7, 8] 2 of
      Inl e \<Rightarrow> False
    | Inr h' \<Rightarrow>
        sym_name (syms h' 2) = ''foo.isra.1'' \<and>
        sec_name (secs h' 5) = ''.text.foo.isra.1'' \<and>
        sec_name (secs h' 6) = ''.rela.text.foo.isra.1'' \<and>
        sec_name (secs h' 7) = ''.rodata.foo.isra.1'' \<and>
        sym_name (syms h' 3) = ''.rodata.foo.isra.1'' \<and>
        sec_name (secs h' 8) = ''.rela.rodata.foo.isra.1'')"
  by (simp add: rename_defs isra_heap_def zero_section_def zero_symbol_def
      xsplice_mangled_strcmp.simps isdigit_def)

text \<open>A function name of 248 characters does not fit the buffer.\<close>

lemma sprintf_rodata_overflow:
  "sprintf_rodata (replicate 247 CHR ''a'') = Inr (''.rodata.'' @ replicate 247 CHR ''a'') \<and>
   sprintf_rodata (replicate 248 CHR ''a'') = Inl OUT_OF_BOUNDS"
  by (simp add: sprintf_rodata_def strlen_def)

text \<open>
  Claim C5 on \<open>clone_heap\<close>, where the base object and the patched object are the same:
  both hold \<^verbatim>\<open>foo.constprop.0\<close> and \<^verbatim>\<open>foo.constprop.1\<close>, each bundled in its own
  section. Two base functions match the patched \<^verbatim>\<open>foo.constprop.1\<close> under mangled
  equality, one of them under its very name. The pass does not leave it alone: it takes the
  name of the first match, and so does its section, after which the patched object holds two
  functions \<^verbatim>\<open>foo.constprop.0\<close> and none named \<^verbatim>\<open>foo.constprop.1\<close>.
\<close>

theorem rename_mangled_functions_not_unique:
  "(case xsplice_rename_mangled_functions clone_heap [1, 2] [1, 2] [3, 4] [3, 4] of
      Inl e \<Rightarrow> False
    | Inr h' \<Rightarrow>
        sym_name (syms h' 3) = ''foo.constprop.0'' \<and>
        sym_name (syms h' 4) = ''foo.constprop.0'' \<and>
        sec_name (secs h' 4) = ''.text.foo.constprop.0'') \<and>
   sym_name (syms clone_heap 4) = ''foo.constprop.1'' \<and>
   sym_name (syms clone_heap 2) = ''foo.constprop.1'' \<and>
   base_function_matches clone_heap [1, 2] ''foo.constprop.1'' = [1, 2]"
  by (simp add: rename_defs clone_heap_def clone_section_def clone_symbol_def zero_section_def
      zero_symbol_def base_function_matches_def xsplice_mangled_strcmp.simps isdigit_def)

section \<open>The special-section rewriter\<close>

text \<open>
  The group sizes of the table \<^verbatim>\<open>special_sections\<close> (lines 829 to 914). A
  \<^verbatim>\<open>group_size\<close> function receives the object model and the offset of the group.
\<close>

fun fixup_group_start ::
  "('s, 'y) heap \<Rightarrow> 'y rela_t list \<Rightarrow> int \<Rightarrow> error + 'y rela_t list option" where
  "fixup_group_start h [] offset = Inr None"
| "fixup_group_start h (rela # rest) offset =
     (case r_sym rela of
        None \<Rightarrow> Inl SEGV
      | Some y \<Rightarrow>
          if sym_name (syms h y) = ''.fixup'' \<and> r_addend rela = offset then Inr (Some rest)
          else fixup_group_start h rest offset)"

fun fixup_next_group ::
  "('s, 'y) heap \<Rightarrow> 'y rela_t list \<Rightarrow> int \<Rightarrow> error + int option" where
  "fixup_next_group h [] offset = Inr None"
| "fixup_next_group h (rela # rest) offset =
     (case r_sym rela of
        None \<Rightarrow> Inl SEGV
      | Some y \<Rightarrow>
          if sym_name (syms h y) = ''.fixup'' \<and> r_addend rela > offset
          then Inr (Some (r_addend rela))
          else fixup_next_group h rest offset)"

definition fixup_group_size :: "('s, 'y) heap \<Rightarrow> 's list \<Rightarrow> int \<Rightarrow> error + int" where
  "fixup_group_size h seclist offset =
     (case find_section_by_name h seclist ''.rela.ex_table'' of
        None \<Rightarrow> Inl ERROR
      | Some sec \<Rightarrow>
          (case fixup_group_start h (relas (secs h sec)) offset of
             Inl e \<Rightarrow> Inl e
           | Inr None \<Rightarrow> Inl ERROR
           | Inr (Some rest) \<Rightarrow>
               (case fixup_next_group h rest offset of
                  Inl e \<Rightarrow> Inl e
                | Inr (Some addend) \<Rightarrow> Inr (addend - offset)
                | Inr None \<Rightarrow>
                    (case find_section_by_name h seclist ''.fixup'' of
                       None \<Rightarrow> Inl SEGV
                     | Some fixupsec \<Rightarrow> Inr (int (sh_size (secs h fixupsec)) - offset)))))"

definition special_sections ::
  "(string \<times> (('s, 'y) heap \<Rightarrow> 's list \<Rightarrow> int \<Rightarrow> error + int)) list" where
  "special_sections =
     [(''.bug_frames.0'', \<lambda>h seclist offset. Inr 8),
      (''.bug_frames.1'', \<lambda>h seclist offset. Inr 8),
      (''.bug_frames.2'', \<lambda>h seclist offset. Inr 8),
      (''.bug_frames.3'', \<lambda>h seclist offset. Inr 16),
      (''.fixup'', fixup_group_size),
      (''.ex_table'', \<lambda>h seclist offset. Inr 8),
      (''.altinstructions'', \<lambda>h seclist offset. Inr 12)]"

text \<open>
  \<^verbatim>\<open>should_keep_rela_group\<close> (line 916) goes through the whole list; the target of a
  relocation is read only when the offset lies in the group, and its section only when it
  is a function.
\<close>

definition in_group :: "'y rela_t \<Rightarrow> int \<Rightarrow> int \<Rightarrow> bool" where
  "in_group rela start len = (r_offset rela \<ge> start \<and> r_offset rela < start + len)"

definition references_included_function :: "('s, 'y) heap \<Rightarrow> 'y rela_t \<Rightarrow> error + bool" where
  "references_included_function h rela =
     (case r_sym rela of
        None \<Rightarrow> Inl SEGV
      | Some y \<Rightarrow>
          if sym_type (syms h y) = STT_FUNC
          then (case sym_sec (syms h y) of
                  None \<Rightarrow> Inl SEGV
                | Some t \<Rightarrow> Inr (sec_include (secs h t)))
          else Inr False)"

fun should_keep_rela_group ::
  "('s, 'y) heap \<Rightarrow> 'y rela_t list \<Rightarrow> int \<Rightarrow> int \<Rightarrow> error + bool" where
  "should_keep_rela_group h [] start len = Inr False"
| "should_keep_rela_group h (rela # rest) start len =
     (case (if in_group rela start len then references_included_function h rela
            else Inr False) of
        Inl e \<Rightarrow> Inl e
      | Inr hit \<Rightarrow>
          (case should_keep_rela_group h rest start len of
             Inl e \<Rightarrow> Inl e
           | Inr found \<Rightarrow> Inr (hit \<or> found)))"

text \<open>
  The inner loop of \<^verbatim>\<open>xsplice_regenerate_special_section\<close> (lines 968 to 980): the
  relocations of the group leave the list of the section for the new list, rebased, and
  their targets are included. The result is the heap, the relocations that stay and the
  relocations that have moved.
\<close>

fun move_group_relas ::
  "('s, 'y) heap \<Rightarrow> 'y rela_t list \<Rightarrow> int \<Rightarrow> int \<Rightarrow> int
    \<Rightarrow> error + ('s, 'y) heap \<times> 'y rela_t list \<times> 'y rela_t list" where
  "move_group_relas h [] src_offset group_size dest_offset = Inr (h, [], [])"
| "move_group_relas h (rela # rest) src_offset group_size dest_offset =
     (if in_group rela src_offset group_size
      then (case r_sym rela of
              None \<Rightarrow> Inl SEGV
            | Some y \<Rightarrow>
                (case move_group_relas (set_sym_include h y True) rest src_offset group_size
                        dest_offset of
                   Inl e \<Rightarrow> Inl e
                 | Inr (h', stay, moved) \<Rightarrow>
                     Inr (h', stay,
                          rela\<lparr>r_offset := r_offset rela - (src_offset - dest_offset)\<rparr> # moved)))
      else (case move_group_relas h rest src_offset group_size dest_offset of
              Inl e \<Rightarrow> Inl e
            | Inr (h', stay, moved) \<Rightarrow> Inr (h', rela # stay, moved)))"

text \<open>
  The outer loop (line 955). The comparison of the \<^verbatim>\<open>int\<close> offset with the unsigned
  section size fails for a negative offset. The loop runs as long as the group sizes let
  it; a run that never leaves the loop has the value \<open>None\<close>. The bytes of a kept
  group are copied from the data of the base section to the end of the new buffer, which
  has room for \<^verbatim>\<open>sh_size\<close> bytes.
\<close>

partial_function (option) regenerate_loop ::
  "(('s, 'y) heap \<Rightarrow> int \<Rightarrow> error + int) \<Rightarrow> byte list \<Rightarrow> nat \<Rightarrow> ('s, 'y) heap \<Rightarrow> int \<Rightarrow> int
    \<Rightarrow> 'y rela_t list \<Rightarrow> 'y rela_t list \<Rightarrow> byte list
    \<Rightarrow> (error + ('s, 'y) heap \<times> int \<times> int \<times> 'y rela_t list \<times> byte list) option" where
  "regenerate_loop group_size src len h src_offset dest_offset relas0 newrelas dest =
     (if \<not> (0 \<le> src_offset \<and> src_offset < int len)
      then Some (Inr (h, src_offset, dest_offset, newrelas, dest))
      else (case group_size h src_offset of
              Inl e \<Rightarrow> Some (Inl e)
            | Inr g \<Rightarrow>
                (case should_keep_rela_group h relas0 src_offset g of
                   Inl e \<Rightarrow> Some (Inl e)
                 | Inr keep \<Rightarrow>
                     if \<not> keep
                     then regenerate_loop group_size src len h (src_offset + g) dest_offset
                            relas0 newrelas dest
                     else (case move_group_relas h relas0 src_offset g dest_offset of
                             Inl e \<Rightarrow> Some (Inl e)
                           | Inr (h', stay, moved) \<Rightarrow>
                               if g < 0 \<or> src_offset + g > int (length src) \<or>
                                  dest_offset + g > int len
                               then Some (Inl OUT_OF_BOUNDS)
                               else regenerate_loop group_size src len h' (src_offset + g)
                                      (dest_offset + g) stay (newrelas @ moved)
                                      (dest @ take (nat g) (drop (nat src_offset) src))))))"

text \<open>
  \<^verbatim>\<open>xsplice_regenerate_special_section\<close> (line 936); \<open>rs\<close> is the relocation
  section of the special section. A zero alignment makes the division trap.
\<close>

definition drop_special_section :: "('s, 'y) heap \<Rightarrow> 's \<Rightarrow> 's \<Rightarrow> ('s, 'y) heap" where
  "drop_special_section h rs base =
     upd_sec (upd_sec h base (\<lambda>sec. sec\<lparr>sec_status := SAME, sec_include := False\<rparr>)) rs
       (\<lambda>sec. sec\<lparr>sec_status := SAME, sec_include := False\<rparr>)"

definition keep_special_section ::
  "('s, 'y) heap \<Rightarrow> 's \<Rightarrow> 's \<Rightarrow> 'y rela_t list \<Rightarrow> byte list \<Rightarrow> int \<Rightarrow> ('s, 'y) heap" where
  "keep_special_section h rs base newrelas dest dest_offset =
     upd_sec
       (upd_sec
          (upd_sec h rs (\<lambda>sec. sec\<lparr>relas := newrelas, sec_include := True\<rparr>))
          base (\<lambda>sec. sec\<lparr>sec_include := True\<rparr>))
       base (\<lambda>sec. sec\<lparr>d_buf := dest, d_size := nat dest_offset\<rparr>)"

definition xsplice_regenerate_special_section ::
  "('s, 'y) heap \<Rightarrow> (('s, 'y) heap \<Rightarrow> int \<Rightarrow> error + int) \<Rightarrow> 's \<Rightarrow> (error + ('s, 'y) heap) option" where
  "xsplice_regenerate_special_section h group_size rs =
     (case sec_base (secs h rs) of
        None \<Rightarrow> Some (Inl SEGV)
      | Some base \<Rightarrow>
          (case regenerate_loop group_size (d_buf (secs h base)) (sh_size (secs h base)) h 0 0
                  (relas (secs h rs)) [] [] of
             None \<Rightarrow> None
           | Some (Inl e) \<Rightarrow> Some (Inl e)
           | Some (Inr (h', src_offset, dest_offset, newrelas, dest)) \<Rightarrow>
               if sh_addralign (secs h' base) = 0 then Some (Inl SIGFPE)
               else if src_offset \<noteq>
                    int ((sh_size (secs h' base) + sh_addralign (secs h' base) - 1)
                           div sh_addralign (secs h' base) * sh_addralign (secs h' base))
               then Some (Inl ERROR)
               else if dest_offset = 0 then Some (Inr (drop_special_section h' rs base))
               else Some (Inr (keep_special_section h' rs base newrelas dest dest_offset))))"

subsection \<open>The compaction as the specification states it\<close>

text \<open>
  The specification describes the outcome group by group: a group is kept iff one of the
  relocations whose offset lies in it targets a function whose section is included; the new
  buffer is the concatenation of the kept groups, and the relocations of a kept group move
  down by the distance between the read and the write position. \<^verbatim>\<open>spec_compact\<close> follows
  these words over the list of group sizes and the relocation list as it was on entry; it
  returns the sizes of the kept groups, the bytes and the relocations.
\<close>

definition group_kept :: "('s, 'y) heap \<Rightarrow> 'y rela_t list \<Rightarrow> int \<Rightarrow> int \<Rightarrow> bool" where
  "group_kept h rs start len =
     list_ex (\<lambda>rela. in_group rela start len \<and> references_included_function h rela = Inr True) rs"

definition rebase :: "int \<Rightarrow> int \<Rightarrow> 'y rela_t \<Rightarrow> 'y rela_t" where
  "rebase src_offset dest_offset rela =
     rela\<lparr>r_offset := r_offset rela - (src_offset - dest_offset)\<rparr>"

fun spec_compact ::
  "('s, 'y) heap \<Rightarrow> 'y rela_t list \<Rightarrow> byte list \<Rightarrow> int list \<Rightarrow> int \<Rightarrow> int
    \<Rightarrow> int list \<times> byte list \<times> 'y rela_t list" where
  "spec_compact h rs src [] src_offset dest_offset = ([], [], [])"
| "spec_compact h rs src (g # gs) src_offset dest_offset =
     (if group_kept h rs src_offset g
      then (case spec_compact h rs src gs (src_offset + g) (dest_offset + g) of
              (kept, bytes, moved) \<Rightarrow>
                (g # kept, take (nat g) (drop (nat src_offset) src) @ bytes,
                 map (rebase src_offset dest_offset) (filter (\<lambda>r. in_group r src_offset g) rs)
                   @ moved))
      else spec_compact h rs src gs (src_offset + g) dest_offset)"

text \<open>
  The effect of moving a group on the symbol table, and the relocations the rewriter can
  read without a null dereference: the target is set, and a function target has a section.
\<close>

fun include_targets :: "('s, 'y) heap \<Rightarrow> 'y rela_t list \<Rightarrow> ('s, 'y) heap" where
  "include_targets h [] = h"
| "include_targets h (r # rs) =
     include_targets (case r_sym r of None \<Rightarrow> h | Some y \<Rightarrow> set_sym_include h y True) rs"

definition rela_valid :: "('s, 'y) heap \<Rightarrow> 'y rela_t \<Rightarrow> bool" where
  "rela_valid h r =
     (case r_sym r of
        None \<Rightarrow> False
      | Some y \<Rightarrow> sym_type (syms h y) = STT_FUNC \<longrightarrow> sym_sec (syms h y) \<noteq> None)"

lemma rela_valid_iff:
  "rela_valid h r =
     (\<exists>y. r_sym r = Some y \<and> (sym_type (syms h y) = STT_FUNC \<longrightarrow> sym_sec (syms h y) \<noteq> None))"
  by (simp add: rela_valid_def split: option.splits)

lemma rela_valid_ref: "rela_valid h r \<Longrightarrow> \<exists>b. references_included_function h r = Inr b"
  by (auto simp: rela_valid_iff references_included_function_def)

lemma ref_frame:
  assumes "secs h' = secs h" and "same_symbols h h'"
  shows "references_included_function h' r = references_included_function h r"
  using assms same_symbols_fields(3,4) [OF assms(2)]
  by (simp add: references_included_function_def split: option.splits)

lemma rela_valid_frame:
  assumes "same_symbols h h'"
  shows "rela_valid h' r = rela_valid h r"
  using same_symbols_fields(3,4) [OF assms]
  by (simp add: rela_valid_iff)

lemma should_keep_eq:
  "\<forall>r\<in>set rs. rela_valid h r \<Longrightarrow>
   should_keep_rela_group h rs start len = Inr (group_kept h rs start len)"
proof (induction rs)
  case Nil
  then show ?case by (simp add: group_kept_def)
next
  case (Cons r rs)
  from Cons.prems have "rela_valid h r" by simp
  then obtain b where b: "references_included_function h r = Inr b"
    using rela_valid_ref by blast
  from Cons have ih: "should_keep_rela_group h rs start len = Inr (group_kept h rs start len)"
    by simp
  show ?case using b ih by (auto simp: group_kept_def)
qed

lemma secs_include_targets [simp]: "secs (include_targets h rs) = secs h"
  by (induction rs arbitrary: h) (auto split: option.splits)

lemma same_symbols_include_targets: "same_symbols h (include_targets h rs)"
proof (induction rs arbitrary: h)
  case Nil
  show ?case by (simp add: same_symbols_refl)
next
  case (Cons r rs)
  have "same_symbols h (case r_sym r of None \<Rightarrow> h | Some y \<Rightarrow> set_sym_include h y True)"
    by (simp add: same_symbols_refl same_symbols_set_sym split: option.splits)
  then show ?case using Cons.IH by (auto intro: same_symbols_trans)
qed

lemma move_group_relas_eq:
  "\<forall>r\<in>set rs. r_sym r \<noteq> None \<Longrightarrow>
   move_group_relas h rs so g d =
     Inr (include_targets h (filter (\<lambda>r. in_group r so g) rs),
          filter (\<lambda>r. \<not> in_group r so g) rs,
          map (rebase so d) (filter (\<lambda>r. in_group r so g) rs))"
proof (induction rs arbitrary: h)
  case Nil
  then show ?case by simp
next
  case (Cons r rs)
  then show ?case by (auto simp: rebase_def split: option.splits)
qed

lemma include_targets_mono:
  "sym_include (syms h y) \<Longrightarrow> sym_include (syms (include_targets h rs) y)"
  by (induction rs arbitrary: h) (auto simp: syms_set_sym_include split: option.splits)

lemma include_targets_includes:
  "r \<in> set rs \<Longrightarrow> r_sym r = Some y \<Longrightarrow> sym_include (syms (include_targets h rs) y)"
proof (induction rs arbitrary: h)
  case Nil
  then show ?case by simp
next
  case (Cons a rs)
  show ?case
  proof (cases "r = a")
    case True
    with Cons.prems have "sym_include (syms (set_sym_include h y True) y)"
      by (simp add: syms_set_sym_include)
    with True Cons.prems show ?thesis by (simp add: include_targets_mono)
  next
    case False
    with Cons show ?thesis by simp
  qed
qed

lemma filter_in_group_agree:
  assumes agree: "filter (\<lambda>r. so \<le> r_offset r) R = filter (\<lambda>r. so \<le> r_offset r) R0"
  shows "filter (\<lambda>r. in_group r so g) R = filter (\<lambda>r. in_group r so g) R0"
proof -
  have "filter (\<lambda>r. in_group r so g) xs =
      filter (\<lambda>r. in_group r so g) (filter (\<lambda>r. so \<le> r_offset r) xs)" for xs :: "'a rela_t list"
    by (induction xs) (auto simp: in_group_def)
  from this [of R] this [of R0] agree show ?thesis by simp
qed

lemma group_kept_agree:
  assumes agree: "filter (\<lambda>r. so \<le> r_offset r) R = filter (\<lambda>r. so \<le> r_offset r) R0"
  shows "group_kept h R so g = group_kept h R0 so g"
proof -
  have "group_kept h xs so g =
      list_ex (\<lambda>r. references_included_function h r = Inr True)
        (filter (\<lambda>r. in_group r so g) xs)" for xs
    by (induction xs) (auto simp: group_kept_def)
  from this [of R] this [of R0] filter_in_group_agree [OF agree, of g] show ?thesis by simp
qed

lemma agree_step:
  assumes agree: "filter (\<lambda>r. so \<le> r_offset r) R = filter (\<lambda>r. so \<le> r_offset r) R0"
    and g: "0 \<le> g"
  shows "filter (\<lambda>r. so + g \<le> r_offset r) (filter (\<lambda>r. \<not> in_group r so g) R) =
         filter (\<lambda>r. so + g \<le> r_offset r) R0"
    and "filter (\<lambda>r. so + g \<le> r_offset r) R = filter (\<lambda>r. so + g \<le> r_offset r) R0"
proof -
  have a: "filter (\<lambda>r. so + g \<le> r_offset r) xs =
      filter (\<lambda>r. so + g \<le> r_offset r) (filter (\<lambda>r. so \<le> r_offset r) xs)"
    for xs :: "'a rela_t list"
    using g by (induction xs) auto
  from a [of R] a [of R0] agree
  show b: "filter (\<lambda>r. so + g \<le> r_offset r) R = filter (\<lambda>r. so + g \<le> r_offset r) R0"
    by simp
  have "filter (\<lambda>r. so + g \<le> r_offset r) (filter (\<lambda>r. \<not> in_group r so g) R) =
      filter (\<lambda>r. so + g \<le> r_offset r) R"
    by (induction R) (auto simp: in_group_def)
  with b show "filter (\<lambda>r. so + g \<le> r_offset r) (filter (\<lambda>r. \<not> in_group r so g) R) =
         filter (\<lambda>r. so + g \<le> r_offset r) R0" by simp
qed

text \<open>
  The loop of the rewriter, started at any group boundary, returns what
  \<^verbatim>\<open>spec_compact\<close> computes from there, leaves the sections untouched and only sets
  include flags of symbols. The relocations still in the list agree with the original list
  from the read position on, which is why the test of a later group does not see the
  relocations already moved.
\<close>

lemma regenerate_loop_spec:
  fixes h0 :: "('s, 'y) heap"
  assumes pos: "\<forall>g\<in>set gs. 0 < g"
    and so0: "0 \<le> so" and tile: "so + sum_list gs = int len"
    and sizes: "\<And>h' k. k < length gs \<Longrightarrow> secs h' = secs h0 \<Longrightarrow> same_symbols h0 h' \<Longrightarrow>
        group_size h' (so + sum_list (take k gs)) = Inr (gs ! k)"
    and inv: "secs h = secs h0" "same_symbols h0 h"
    and valid: "\<forall>r\<in>set R0. rela_valid h0 r"
    and sub: "set R \<subseteq> set R0"
    and agree: "filter (\<lambda>r. so \<le> r_offset r) R = filter (\<lambda>r. so \<le> r_offset r) R0"
    and room: "len \<le> length src" "d \<le> so"
  shows "\<exists>h'. regenerate_loop group_size src len h so d R new dest =
           (case spec_compact h0 R0 src gs so d of
              (kept, bytes, moved) \<Rightarrow>
                Some (Inr (h', int len, d + sum_list kept, new @ moved, dest @ bytes))) \<and>
         secs h' = secs h0 \<and> same_symbols h0 h' \<and>
         (\<forall>y. sym_include (syms h y) \<longrightarrow> sym_include (syms h' y)) \<and>
         (case spec_compact h0 R0 src gs so d of
            (kept, bytes, moved) \<Rightarrow>
              int (length bytes) = sum_list kept \<and>
              (\<forall>r\<in>set moved. \<exists>y. r_sym r = Some y \<and> sym_include (syms h' y)))"
  using assms
proof (induction gs arbitrary: h so d R new dest)
  case Nil
  then have "\<not> (0 \<le> so \<and> so < int len)" by simp
  then have "regenerate_loop group_size src len h so d R new dest =
      Some (Inr (h, so, d, new, dest))"
    by (subst regenerate_loop.simps) simp
  with Nil show ?case by auto
next
  case (Cons g gs)
  from Cons.prems have g: "0 < g" and cont: "0 \<le> so \<and> so < int len"
    using sum_list_nonneg [of gs] by (auto simp: less_imp_le)
  have gsz: "group_size h so = Inr g"
    using Cons.prems(4) [of 0 h] Cons.prems(5,6) by simp
  have validR: "\<forall>r\<in>set R. rela_valid h r"
    using Cons.prems(7,8) rela_valid_frame [OF Cons.prems(6)] by auto
  have keep: "should_keep_rela_group h R so g = Inr (group_kept h0 R0 so g)"
  proof -
    have "group_kept h R so g = group_kept h0 R so g"
      using ref_frame [OF Cons.prems(5,6)] by (simp add: group_kept_def)
    with should_keep_eq [OF validR] group_kept_agree [OF Cons.prems(9)] show ?thesis by simp
  qed
  have sizes': "group_size h' (so + g + sum_list (take k gs)) = Inr (gs ! k)"
    if "k < length gs" "secs h' = secs h0" "same_symbols h0 h'" for h' k
    using Cons.prems(4) [of "Suc k" h'] that by (simp add: add.assoc)
  have pos': "\<forall>g\<in>set gs. 0 < g" and so': "0 \<le> so + g"
    and tile': "so + g + sum_list gs = int len"
    using Cons.prems g cont by auto
  show ?case
  proof (cases "group_kept h0 R0 so g")
    case False
    have step: "regenerate_loop group_size src len h so d R new dest =
        regenerate_loop group_size src len h (so + g) d R new dest"
      using cont gsz keep False by (subst regenerate_loop.simps) simp
    have agree': "filter (\<lambda>r. so + g \<le> r_offset r) R = filter (\<lambda>r. so + g \<le> r_offset r) R0"
      using agree_step(2) [OF Cons.prems(9)] g by simp
    from Cons.IH [where new = new and dest = dest and d = d and h = h and R = R,
        OF pos' so' tile' sizes' Cons.prems(5,6,7,8) agree' Cons.prems(10)]
      Cons.prems(11) g False step
    show ?thesis by simp
  next
    case True
    let ?in = "filter (\<lambda>r. in_group r so g) R"
    let ?h1 = "include_targets h ?in"
    let ?stay = "filter (\<lambda>r. \<not> in_group r so g) R"
    let ?moved = "map (rebase so d) ?in"
    let ?chunk = "take (nat g) (drop (nat so) src)"
    have symsR: "\<forall>r\<in>set R. r_sym r \<noteq> None"
      using validR by (auto simp: rela_valid_iff)
    have mv: "move_group_relas h R so g d = Inr (?h1, ?stay, ?moved)"
      by (rule move_group_relas_eq [OF symsR])
    from Cons.prems(3) g sum_list_nonneg [of gs] pos' have fits: "so + g \<le> int len"
      by (auto simp: less_imp_le)
    with Cons.prems(10,11) have nb: "\<not> (g < 0 \<or> so + g > int (length src) \<or> d + g > int len)"
      using g by auto
    have step: "regenerate_loop group_size src len h so d R new dest =
        regenerate_loop group_size src len ?h1 (so + g) (d + g) ?stay (new @ ?moved)
          (dest @ ?chunk)"
      using cont gsz keep True mv nb by (subst regenerate_loop.simps) simp
    have inv1: "secs ?h1 = secs h0" using Cons.prems(5) by simp
    have inv2: "same_symbols h0 ?h1"
      by (rule same_symbols_trans [OF Cons.prems(6) same_symbols_include_targets])
    have sub': "set ?stay \<subseteq> set R0" using Cons.prems(8) by auto
    have agree': "filter (\<lambda>r. so + g \<le> r_offset r) ?stay =
        filter (\<lambda>r. so + g \<le> r_offset r) R0"
      using agree_step(1) [OF Cons.prems(9)] g by simp
    have room': "d + g \<le> so + g" using Cons.prems(11) by simp
    obtain kept bytes moved where
      sc: "spec_compact h0 R0 src gs (so + g) (d + g) = (kept, bytes, moved)"
      by (cases "spec_compact h0 R0 src gs (so + g) (d + g)")
    from Cons.IH [where new = "new @ ?moved" and dest = "dest @ ?chunk" and h = ?h1
        and R = ?stay and d = "d + g",
        OF pos' so' tile' sizes' inv1 inv2 Cons.prems(7) sub' agree' Cons.prems(10) room']
    obtain h' where
      run: "regenerate_loop group_size src len ?h1 (so + g) (d + g) ?stay (new @ ?moved)
          (dest @ ?chunk) =
        Some (Inr (h', int len, d + g + sum_list kept, (new @ ?moved) @ moved,
                   (dest @ ?chunk) @ bytes))"
      and fr: "secs h' = secs h0" "same_symbols h0 h'"
      and mono: "\<forall>y. sym_include (syms ?h1 y) \<longrightarrow> sym_include (syms h' y)"
      and rest: "int (length bytes) = sum_list kept"
        "\<forall>r\<in>set moved. \<exists>y. r_sym r = Some y \<and> sym_include (syms h' y)"
      unfolding sc by auto
    have ineq: "?in = filter (\<lambda>r. in_group r so g) R0"
      by (rule filter_in_group_agree [OF Cons.prems(9)])
    have chunk: "int (length ?chunk) = g"
      using fits Cons.prems(10) cont g by auto
    have inc1: "\<forall>r\<in>set ?in. \<exists>y. r_sym r = Some y \<and> sym_include (syms ?h1 y)"
    proof
      fix r assume r: "r \<in> set ?in"
      with symsR obtain y where "r_sym r = Some y" by auto
      with include_targets_includes [OF r this] show "\<exists>y. r_sym r = Some y \<and> sym_include (syms ?h1 y)"
        by simp
    qed
    have mono1: "\<forall>y. sym_include (syms h y) \<longrightarrow> sym_include (syms ?h1 y)"
      by (simp add: include_targets_mono)
    show ?thesis
      using step run fr mono rest sc True ineq chunk inc1 mono1
      by (auto simp: rebase_def)
  qed
qed

lemma spec_compact_kept_positive:
  "\<forall>g\<in>set gs. 0 < g \<Longrightarrow> \<forall>g\<in>set (fst (spec_compact h rs src gs so d)). 0 < g"
proof (induction gs arbitrary: so d)
  case Nil
  then show ?case by simp
next
  case (Cons a gs)
  from Cons.prems have tl: "\<forall>g\<in>set gs. 0 < g" and a: "0 < a" by simp_all
  show ?case
  proof (cases "group_kept h rs so a")
    case True
    from Cons.IH [OF tl, of "so + a" "d + a"] a True show ?thesis
      by (cases "spec_compact h rs src gs (so + a) (d + a)") auto
  next
    case False
    from Cons.IH [OF tl, of "so + a" d] False show ?thesis
      by (cases "spec_compact h rs src gs (so + a) d") auto
  qed
qed

lemma sum_list_pos_zero:
  "\<forall>g\<in>set (ks :: int list). 0 < g \<Longrightarrow> (sum_list ks = 0) = (ks = [])"
proof (cases ks)
  case Nil
  then show ?thesis by simp
next
  case (Cons k ks')
  assume "\<forall>g\<in>set ks. 0 < g"
  with Cons have "0 < k" "0 \<le> sum_list ks'" by (auto intro: sum_list_nonneg less_imp_le)
  with Cons show ?thesis by simp
qed

lemma aligned_size_exact:
  assumes "0 < (a::nat)" and "a dvd n"
  shows "(n + a - 1) div a * a = n"
proof -
  from assms obtain k where n: "n = k * a" by (auto simp: dvd_def mult.commute)
  from assms(1) obtain b where a: "a = Suc b" by (cases a) simp_all
  have "k * Suc b + Suc b - 1 = b + k * Suc b" by simp
  then have "(k * Suc b + Suc b - 1) div Suc b = (b + k * Suc b) div Suc b" by (rule arg_cong)
  also have "\<dots> = k" by (simp only: div_mult_self1 [of "Suc b" b k]) simp
  finally show ?thesis using n a by simp
qed

text \<open>
  Claim C4. Let the special section be tiled by the positive group sizes \<open>gs\<close> that the
  \<^verbatim>\<open>group_size\<close> function returns, let every relocation have a target the rewriter can
  read, let the buffer hold \<^verbatim>\<open>sh_size\<close> bytes and let the alignment divide the size. Then
  \<^verbatim>\<open>xsplice_regenerate_special_section\<close> returns, and the result is the compaction of the
  specification: a group is kept iff a relocation in it targets a function of an included
  section; the number of bytes is the sum of the kept sizes. If no group is kept, the section
  and its relocation section are \<^verbatim>\<open>SAME\<close> and not included; otherwise the buffer of the
  section is the concatenation of the kept groups in their order, its relocation list is the
  rebased relocations of the kept groups, both sections are included and so is every target.
\<close>

theorem regenerate_special_section_compacts:
  assumes base: "sec_base (secs h rs) = Some base" and apart: "base \<noteq> rs"
    and pos: "\<forall>g\<in>set gs. 0 < g"
    and tile: "sum_list gs = int (sh_size (secs h base))"
    and sizes: "\<forall>h' k. k < length gs \<and> secs h' = secs h \<and> same_symbols h h' \<longrightarrow>
        group_size h' (sum_list (take k gs)) = Inr (gs ! k)"
    and valid: "\<forall>r\<in>set (relas (secs h rs)). rela_valid h r"
    and buf: "sh_size (secs h base) \<le> length (d_buf (secs h base))"
    and align: "0 < sh_addralign (secs h base)"
      "sh_addralign (secs h base) dvd sh_size (secs h base)"
  shows "\<exists>h'. xsplice_regenerate_special_section h group_size rs = Some (Inr h') \<and>
      (case spec_compact h (relas (secs h rs)) (d_buf (secs h base)) gs 0 0 of
         (kept, bytes, moved) \<Rightarrow>
           int (length bytes) = sum_list kept \<and>
           (if kept = []
            then sec_status (secs h' rs) = SAME \<and> sec_status (secs h' base) = SAME \<and>
                 \<not> sec_include (secs h' rs) \<and> \<not> sec_include (secs h' base)
            else d_buf (secs h' base) = bytes \<and> d_size (secs h' base) = length bytes \<and>
                 relas (secs h' rs) = moved \<and>
                 sec_include (secs h' rs) \<and> sec_include (secs h' base) \<and>
                 (\<forall>r\<in>set moved. target_included h' r)))"
proof -
  let ?R = "relas (secs h rs)" and ?src = "d_buf (secs h base)" and ?len = "sh_size (secs h base)"
  obtain kept bytes moved where sc: "spec_compact h ?R ?src gs 0 0 = (kept, bytes, moved)"
    by (cases "spec_compact h ?R ?src gs 0 0")
  have sizes0: "group_size h' (0 + sum_list (take k gs)) = Inr (gs ! k)"
    if "k < length gs" "secs h' = secs h" "same_symbols h h'" for h' k
    using sizes that by simp
  from regenerate_loop_spec [where so = 0 and d = 0 and h = h and h0 = h and R = ?R
      and ?R0.0 = ?R and new = "[]" and dest = "[]" and src = ?src and len = ?len and gs = gs
      and group_size = group_size, OF pos _ _ sizes0 refl same_symbols_refl valid _ refl buf]
    tile
  obtain h1 where
    run: "regenerate_loop group_size ?src ?len h 0 0 ?R [] [] =
        Some (Inr (h1, int ?len, sum_list kept, moved, bytes))"
    and fr: "secs h1 = secs h"
    and len: "int (length bytes) = sum_list kept"
    and inc: "\<forall>r\<in>set moved. \<exists>y. r_sym r = Some y \<and> sym_include (syms h1 y)"
    unfolding sc by auto
  from spec_compact_kept_positive [OF pos, of h ?R ?src 0 0] sc
  have kpos: "\<forall>g\<in>set kept. 0 < g" by simp
  have zero: "(sum_list kept = 0) = (kept = [])" by (rule sum_list_pos_zero [OF kpos])
  have al: "(?len + sh_addralign (secs h base) - 1) div sh_addralign (secs h base) *
      sh_addralign (secs h base) = ?len"
    by (rule aligned_size_exact [OF align])
  show ?thesis
  proof (cases "kept = []")
    case True
    with zero have "sum_list kept = 0" by simp
    with run fr al align base True
    have res: "xsplice_regenerate_special_section h group_size rs =
        Some (Inr (drop_special_section h1 rs base))"
      by (simp add: xsplice_regenerate_special_section_def)
    show ?thesis
      using res sc len True apart
      by (simp add: drop_special_section_def upd_sec_def)
  next
    case False
    with zero have nz: "sum_list kept \<noteq> 0" by simp
    with run fr al align base
    have res: "xsplice_regenerate_special_section h group_size rs =
        Some (Inr (keep_special_section h1 rs base moved bytes (sum_list kept)))"
      by (simp add: xsplice_regenerate_special_section_def)
    have "\<forall>r\<in>set moved.
        target_included (keep_special_section h1 rs base moved bytes (sum_list kept)) r"
      using inc by (auto simp: target_included_def keep_special_section_def upd_sec_def)
    then show ?thesis
      using res sc len False apart
      by (simp add: keep_special_section_def upd_sec_def)
  qed
qed

text \<open>
  An \<^verbatim>\<open>.ex_table\<close> of two groups of 8 bytes: the first refers to \<^verbatim>\<open>bar\<close>, whose section
  is not included, the second to \<^verbatim>\<open>foo\<close>, whose section is.
\<close>

definition extable_rela :: "nat \<Rightarrow> int \<Rightarrow> nat rela_t" where
  "extable_rela y offset = zero_rela\<lparr>r_sym := Some y, r_type := 2, r_offset := offset\<rparr>"

definition extable_heap :: "(nat, nat) heap" where
  "extable_heap = \<lparr>secs = (\<lambda>_. zero_section)
       (1 := zero_section\<lparr>sec_name := ''.ex_table'', sh_type := SHT_PROGBITS, sh_addralign := 4,
              sh_size := 16, d_buf := [10, 11, 12, 13, 14, 15, 16, 17, 20, 21, 22, 23, 24, 25, 26, 27],
              d_size := 16, sec_rela := Some 2\<rparr>,
        2 := zero_section\<lparr>sec_name := ''.rela.ex_table'', sh_type := SHT_RELA, sec_base := Some 1,
              relas := [extable_rela 2 0, extable_rela 2 4, extable_rela 1 8, extable_rela 1 12]\<rparr>,
        3 := zero_section\<lparr>sec_name := ''.text.foo'', sh_type := SHT_PROGBITS,
              sec_include := True\<rparr>,
        4 := zero_section\<lparr>sec_name := ''.text.bar'', sh_type := SHT_PROGBITS\<rparr>),
     syms = (\<lambda>_. zero_symbol)
       (1 := zero_symbol\<lparr>sym_name := ''foo'', sym_type := STT_FUNC, sym_bind := STB_GLOBAL,
              sym_sec := Some 3, sym_include := True\<rparr>,
        2 := zero_symbol\<lparr>sym_name := ''bar'', sym_type := STT_FUNC, sym_bind := STB_GLOBAL,
              sym_sec := Some 4\<rparr>)\<rparr>"

lemmas extable_defs = extable_heap_def extable_rela_def zero_section_def zero_symbol_def
  zero_rela_def group_kept_def rebase_def in_group_def references_included_function_def
  rela_valid_def target_included_def

theorem regenerate_special_section_compacts_witness:
  "\<exists>h'. xsplice_regenerate_special_section extable_heap (\<lambda>h offset. Inr 8) 2 = Some (Inr h') \<and>
      d_buf (secs h' 1) = [20, 21, 22, 23, 24, 25, 26, 27] \<and> d_size (secs h' 1) = 8 \<and>
      relas (secs h' 2) = [extable_rela 1 0, extable_rela 1 4] \<and>
      sec_include (secs h' 1) \<and> sec_include (secs h' 2) \<and> sym_include (syms h' 1)"
proof -
  have sc: "spec_compact extable_heap (relas (secs extable_heap 2)) (d_buf (secs extable_heap 1))
      [8, 8] 0 0 =
      ([8], [20, 21, 22, 23, 24, 25, 26, 27], [extable_rela 1 0, extable_rela 1 4])"
    by (simp add: extable_defs)
  have sizes: "\<forall>(h' :: (nat, nat) heap) k. k < length [8, 8 :: int] \<and>
      secs h' = secs extable_heap \<and> same_symbols extable_heap h' \<longrightarrow>
      (\<lambda>h offset. Inr 8) h' (sum_list (take k [8, 8])) = (Inr ([8, 8] ! k) :: error + int)"
    by (simp add: nth_Cons split: nat.splits)
  have base: "sec_base (secs extable_heap 2) = Some 1" and apart: "(1::nat) \<noteq> 2"
    and pos: "\<forall>g\<in>set [8, 8 :: int]. 0 < g"
    and tile: "sum_list [8, 8] = int (sh_size (secs extable_heap 1))"
    and valid: "\<forall>r\<in>set (relas (secs extable_heap 2)). rela_valid extable_heap r"
    and buf: "sh_size (secs extable_heap 1) \<le> length (d_buf (secs extable_heap 1))"
    and align: "0 < sh_addralign (secs extable_heap 1)"
      "sh_addralign (secs extable_heap 1) dvd sh_size (secs extable_heap 1)"
    by (simp_all add: extable_defs)
  from regenerate_special_section_compacts [of extable_heap 2 1 "[8, 8]" "\<lambda>h offset. Inr 8",
      OF base apart pos tile sizes valid buf align]
  obtain h' where run:
      "xsplice_regenerate_special_section extable_heap (\<lambda>h offset. Inr 8) 2 = Some (Inr h')"
    and out: "d_buf (secs h' 1) = [20, 21, 22, 23, 24, 25, 26, 27]"
      "d_size (secs h' 1) = length [20, 21, 22, 23, 24, 25, 26, 27 :: byte]"
      "relas (secs h' 2) = [extable_rela 1 0, extable_rela 1 4]"
      "sec_include (secs h' 2)" "sec_include (secs h' 1)"
      "\<forall>r\<in>set [extable_rela 1 0, extable_rela 1 4]. target_included h' r"
    unfolding sc by auto
  from out(6) have "sym_include (syms h' 1)"
    by (simp add: target_included_def extable_rela_def zero_rela_def)
  with run out show ?thesis by simp
qed

section \<open>The patch-table emitter\<close>

text \<open>
  Modelled from the spec: \<^verbatim>\<open>struct xsplice_patch_func\<close>, \<^verbatim>\<open>struct lookup_result\<close>,
  \<^verbatim>\<open>PATCH_INSN_SIZE\<close> and the two lookup functions are declared in headers that are not
  part of the sources at hand. The record of a patched function has the fields the
  specification lists; what the emitter needs of its layout (the size of the record, the
  offset of the name slot, the widths of the address and of the size fields) is a parameter,
  and so is the minimum size of a patch site. A store into a field keeps the value modulo
  the width of the field. The lookup table is the pair of its two operations; \<open>None\<close> is
  the non-zero return of a failed lookup.
\<close>

record lookup_result =
  result_value :: nat
  result_size :: nat

record lookup_table =
  lookup_local_symbol :: "string \<Rightarrow> string \<Rightarrow> lookup_result option"
  lookup_global_symbol :: "string \<Rightarrow> lookup_result option"

record xsplice_patch_func =
  old_addr :: nat
  new_addr :: nat
  old_size :: nat
  new_size :: nat
  func_name :: nat
  pad :: "byte list"

record target =
  PATCH_INSN_SIZE :: nat
  sizeof_patch_func :: nat
  offsetof_name :: nat
  addr_bits :: nat
  size_bits :: nat

definition SHF_ALLOC :: nat where "SHF_ALLOC = 2"

definition sizeof_GElf_Rela :: nat where "sizeof_GElf_Rela = 24"

text \<open>
  Modelled from the spec: \<^verbatim>\<open>offset_of_string\<close> belongs to the missing common code. The
  string pool is the list of the strings in insertion order, each followed by a NUL when it
  is laid out; the offset of a name is the position where its entry starts, and a name that
  the pool does not hold yet is inserted at the end.
\<close>

fun string_offset :: "string list \<Rightarrow> string \<Rightarrow> nat \<Rightarrow> nat option" where
  "string_offset [] name index = None"
| "string_offset (s # rest) name index =
     (if s = name then Some index else string_offset rest name (index + strlen s + 1))"

definition pool_size :: "string list \<Rightarrow> nat" where
  "pool_size strings = sum_list (map (\<lambda>s. strlen s + 1) strings)"

definition offset_of_string :: "string list \<Rightarrow> string \<Rightarrow> string list \<times> int" where
  "offset_of_string strings name =
     (case string_offset strings name 0 of
        Some index \<Rightarrow> (strings, int index)
      | None \<Rightarrow> (strings @ [name], int (pool_size strings)))"

text \<open>
  \<^verbatim>\<open>xsplice_build_strings_section_data\<close> (line 1372): \<^verbatim>\<open>strcpy\<close> writes the
  characters before the first NUL and a NUL.
\<close>

definition strcpy :: "string \<Rightarrow> byte list" where
  "strcpy s = map of_char (take (strlen s) s) @ [0]"

definition strtab_of :: "string list \<Rightarrow> byte list" where
  "strtab_of strings = concat (map strcpy strings)"

definition xsplice_build_strings_section_data ::
  "('s, 'y) heap \<Rightarrow> 's list \<Rightarrow> string list \<Rightarrow> error + ('s, 'y) heap" where
  "xsplice_build_strings_section_data h seclist strings =
     (case find_section_by_name h seclist ''.xsplice.strings'' of
        None \<Rightarrow> Inl ERROR
      | Some sec \<Rightarrow>
          Inr (upd_sec h sec (\<lambda>s. s\<lparr>d_buf := strtab_of strings, d_size := pool_size strings\<rparr>)))"

text \<open>\<^verbatim>\<open>mangle_local_symbol\<close> (line 1402): file name, \<^verbatim>\<open>#\<close>, symbol name.\<close>

definition mangle_local_symbol :: "string \<Rightarrow> string \<Rightarrow> string" where
  "mangle_local_symbol filename symname =
     take (strlen filename) filename @ ''#'' @ take (strlen symname) symname"

text \<open>
  \<^verbatim>\<open>create_section_pair\<close> (line 1442). The two sections are new objects; their addresses
  \<open>sec\<close> and \<open>relasec\<close> are what the allocator returns, and \<^verbatim>\<open>ALLOC_LINK\<close> zeroes
  the object before the fields are set. The buffer of the first section is the array of
  records, which the emitter keeps typed; only its size is recorded in the section.
\<close>

definition create_section_pair ::
  "('s, 'y) heap \<Rightarrow> 's \<Rightarrow> 's \<Rightarrow> string \<Rightarrow> nat \<Rightarrow> nat \<Rightarrow> ('s, 'y) heap" where
  "create_section_pair h sec relasec name entsize nr =
     (let h1 = h\<lparr>secs := (secs h)(sec := zero_section\<lparr>sec_name := name,
                    d_size := entsize * nr, sh_type := SHT_PROGBITS, sh_entsize := entsize,
                    sh_addralign := 8, sh_flags := SHF_ALLOC, sh_size := entsize * nr\<rparr>)\<rparr>;
          h2 = h1\<lparr>secs := (secs h1)(relasec := zero_section\<lparr>sec_name := ''.rela'' @ name,
                    sec_base := Some sec, relas := [], sh_type := SHT_RELA,
                    sh_entsize := sizeof_GElf_Rela, sh_addralign := 8\<rparr>)\<rparr>
      in upd_sec h2 sec (\<lambda>s. s\<lparr>sec_rela := Some relasec\<rparr>))"

text \<open>
  \<^verbatim>\<open>xsplice_create_patches_sections\<close> (line 1498). \<open>is_patched_func\<close> is the test both
  loops apply; \<open>fill_entry\<close> is the five stores into \<^verbatim>\<open>funcs[index]\<close>, the name slot
  keeps what the fresh memory held; \<open>populate\<close> is the second loop, with the array, the
  relocation list of the new relocation section and the string pool as its state.
\<close>

definition is_patched_func :: "('s, 'y) heap \<Rightarrow> 'y \<Rightarrow> bool" where
  "is_patched_func h y = (sym_type (syms h y) = STT_FUNC \<and> sym_status (syms h y) = CHANGED)"

definition patched_funcs :: "('s, 'y) heap \<Rightarrow> 'y list \<Rightarrow> 'y list" where
  "patched_funcs h symlist = filter (is_patched_func h) symlist"

definition funcname_of :: "('s, 'y) heap \<Rightarrow> string \<Rightarrow> 'y \<Rightarrow> string" where
  "funcname_of h hint y =
     (if sym_bind (syms h y) = STB_LOCAL then mangle_local_symbol hint (sym_name (syms h y))
      else sym_name (syms h y))"

definition lookup_symbol ::
  "lookup_table \<Rightarrow> ('s, 'y) heap \<Rightarrow> string \<Rightarrow> 'y \<Rightarrow> lookup_result option" where
  "lookup_symbol table h hint y =
     (if sym_bind (syms h y) = STB_LOCAL
      then lookup_local_symbol table (sym_name (syms h y)) hint
      else lookup_global_symbol table (sym_name (syms h y)))"

definition fill_entry ::
  "target \<Rightarrow> bool \<Rightarrow> lookup_result \<Rightarrow> nat \<Rightarrow> xsplice_patch_func \<Rightarrow> xsplice_patch_func" where
  "fill_entry t resolve result st_size_of_sym entry =
     entry\<lparr>old_addr := (if resolve then result_value result mod 2 ^ addr_bits t else 0),
           old_size := result_size result mod 2 ^ size_bits t,
           new_addr := 0,
           new_size := st_size_of_sym mod 2 ^ size_bits t,
           pad := replicate (length (pad entry)) 0\<rparr>"

definition func_rela :: "target \<Rightarrow> 'y \<Rightarrow> nat \<Rightarrow> 'y rela_t" where
  "func_rela t y index =
     \<lparr>r_sym = Some y, r_type = R_X86_64_64, r_addend = 0,
      r_offset = int (index * sizeof_patch_func t), r_string = None\<rparr>"

definition name_rela :: "target \<Rightarrow> 'y \<Rightarrow> nat \<Rightarrow> int \<Rightarrow> 'y rela_t" where
  "name_rela t strsym index addend =
     \<lparr>r_sym = Some strsym, r_type = R_X86_64_64, r_addend = addend,
      r_offset = int (index * sizeof_patch_func t + offsetof_name t), r_string = None\<rparr>"

fun populate ::
  "target \<Rightarrow> lookup_table \<Rightarrow> string \<Rightarrow> bool \<Rightarrow> 'y \<Rightarrow> ('s, 'y) heap \<Rightarrow> 'y list \<Rightarrow> nat \<Rightarrow>
   xsplice_patch_func list \<Rightarrow> 'y rela_t list \<Rightarrow> string list \<Rightarrow>
   error + (nat \<times> xsplice_patch_func list \<times> 'y rela_t list \<times> string list)" where
  "populate t table hint resolve strsym h [] index funcs rs strings =
     Inr (index, funcs, rs, strings)"
| "populate t table hint resolve strsym h (y # rest) index funcs rs strings =
     (if is_patched_func h y then
        (case lookup_symbol table h hint y of
           None \<Rightarrow> Inl ERROR
         | Some result \<Rightarrow>
             if result_size result < PATCH_INSN_SIZE t then Inl ERROR
             else if length funcs \<le> index then Inl OUT_OF_BOUNDS
             else
               (case offset_of_string strings (funcname_of h hint y) of
                  (strings', addend) \<Rightarrow>
                    populate t table hint resolve strsym h rest (index + 1)
                      (funcs[index := fill_entry t resolve result (st_size (syms h y))
                                        (funcs ! index)])
                      (rs @ [func_rela t y index, name_rela t strsym index addend])
                      strings'))
      else populate t table hint resolve strsym h rest index funcs rs strings)"

record ('s, 'y) patches =
  out_heap :: "('s, 'y) heap"
  out_sections :: "'s list"
  out_funcs :: "xsplice_patch_func list"
  out_strings :: "string list"

definition xsplice_create_patches_sections ::
  "target \<Rightarrow> lookup_table \<Rightarrow> ('s, 'y) heap \<Rightarrow> 's list \<Rightarrow> 'y list \<Rightarrow> string list \<Rightarrow>
   (nat \<Rightarrow> xsplice_patch_func) \<Rightarrow> 's \<Rightarrow> 's \<Rightarrow> string \<Rightarrow> bool \<Rightarrow> error + ('s, 'y) patches" where
  "xsplice_create_patches_sections t table h seclist symlist strings fresh sec relasec hint
     resolve =
     (let nr = length (patched_funcs h symlist);
          h1 = create_section_pair h sec relasec ''.xsplice.funcs'' (sizeof_patch_func t) nr
      in case find_symbol_by_name h1 symlist ''.xsplice.strings'' of
           None \<Rightarrow> Inl ERROR
         | Some strsym \<Rightarrow>
             (case populate t table hint resolve strsym h1 symlist 0 (map fresh [0..<nr])
                     (relas (secs h1 relasec)) strings of
                Inl e \<Rightarrow> Inl e
              | Inr (index, funcs, rs, strings') \<Rightarrow>
                  if index \<noteq> nr then Inl ERROR
                  else Inr \<lparr>out_heap = upd_sec h1 relasec (\<lambda>s. s\<lparr>relas := rs\<rparr>),
                            out_sections = seclist @ [sec, relasec],
                            out_funcs = funcs, out_strings = strings'\<rparr>))"

text \<open>
  The values fit the fields they are stored into: the size of the patched symbol and the
  looked-up size fit the size fields, the looked-up address fits the address field.
\<close>

definition fields_fit :: "target \<Rightarrow> lookup_table \<Rightarrow> ('s, 'y) heap \<Rightarrow> string \<Rightarrow> 'y \<Rightarrow> bool" where
  "fields_fit t table h hint y =
     (st_size (syms h y) < 2 ^ size_bits t \<and>
      (case lookup_symbol table h hint y of
         None \<Rightarrow> True
       | Some result \<Rightarrow>
           result_value result < 2 ^ addr_bits t \<and> result_size result < 2 ^ size_bits t))"

lemma string_offset_append:
  "string_offset ss name k = Some a \<Longrightarrow> string_offset (ss @ ts) name k = Some a"
  by (induction ss name k rule: string_offset.induct) (auto split: if_splits)

lemma string_offset_new:
  "string_offset ss name k = None \<Longrightarrow>
   string_offset (ss @ [name]) name k = Some (k + pool_size ss)"
  by (induction ss name k rule: string_offset.induct) (auto simp: pool_size_def split: if_splits)

lemma offset_of_string_spec:
  assumes "offset_of_string ss name = (ss', addend)"
  shows "\<exists>ts a. ss' = ss @ ts \<and> addend = int a \<and> string_offset ss' name 0 = Some a"
proof (cases "string_offset ss name 0")
  case None
  with assms string_offset_new [OF None] show ?thesis
    by (auto simp: offset_of_string_def)
next
  case (Some a)
  with assms show ?thesis by (auto simp: offset_of_string_def)
qed

lemma length_strcpy [simp]: "length (strcpy s) = strlen s + 1"
  using length_takeWhile_le [of "\<lambda>c. c \<noteq> CHR 0x00" s]
  by (simp add: strcpy_def strlen_def min_def)

lemma string_offset_strtab:
  "string_offset ss name k = Some a \<Longrightarrow>
   k \<le> a \<and> take (strlen name + 1) (drop (a - k) (strtab_of ss)) = strcpy name"
proof (induction ss name k rule: string_offset.induct)
  case (1 name index)
  then show ?case by simp
next
  case (2 s rest name index)
  show ?case
  proof (cases "s = name")
    case True
    with 2 show ?thesis by (simp add: strtab_of_def)
  next
    case False
    with 2 have ih: "index + strlen s + 1 \<le> a"
      "take (strlen name + 1) (drop (a - (index + strlen s + 1)) (strtab_of rest)) = strcpy name"
      by simp_all
    have "drop (a - index) (strtab_of (s # rest)) =
        drop (a - (index + strlen s + 1)) (strtab_of rest)"
      using ih(1) by (simp add: strtab_of_def)
    with ih show ?thesis by simp
  qed
qed

text \<open>
  What the second loop leaves behind, started at any index: it advances by the number of
  patched functions, writes one record per patched function and nothing below the start
  index, appends two relocations per record and only appends to the string pool.
\<close>

definition emitted ::
  "target \<Rightarrow> lookup_table \<Rightarrow> string \<Rightarrow> bool \<Rightarrow> 'y \<Rightarrow> ('s, 'y) heap \<Rightarrow>
   xsplice_patch_func list \<Rightarrow> xsplice_patch_func list \<Rightarrow> 'y rela_t list \<Rightarrow> string list \<Rightarrow>
   nat \<Rightarrow> 'y list \<Rightarrow> bool" where
  "emitted t table hint resolve strsym h funcs funcs' new strings' index ch =
     (\<forall>i<length ch. \<exists>result a.
        lookup_symbol table h hint (ch ! i) = Some result \<and>
        PATCH_INSN_SIZE t \<le> result_size result \<and>
        index + i < length funcs \<and>
        funcs' ! (index + i) =
          fill_entry t resolve result (st_size (syms h (ch ! i))) (funcs ! (index + i)) \<and>
        new ! (2 * i) = func_rela t (ch ! i) (index + i) \<and>
        new ! (2 * i + 1) = name_rela t strsym (index + i) (int a) \<and>
        string_offset strings' (funcname_of h hint (ch ! i)) 0 = Some a)"

lemma populate_spec:
  "populate t table hint resolve strsym h symlist index funcs rs strings =
     Inr (index', funcs', rs', strings') \<Longrightarrow>
   index' = index + length (patched_funcs h symlist) \<and>
   length funcs' = length funcs \<and>
   (\<forall>j<index. funcs' ! j = funcs ! j) \<and>
   (\<exists>ts. strings' = strings @ ts) \<and>
   (\<exists>new. rs' = rs @ new \<and> length new = 2 * length (patched_funcs h symlist) \<and>
      emitted t table hint resolve strsym h funcs funcs' new strings' index
        (patched_funcs h symlist))"
proof (induction symlist arbitrary: index funcs rs strings)
  case Nil
  then show ?case by (simp add: patched_funcs_def emitted_def)
next
  case (Cons y rest)
  show ?case
  proof (cases "is_patched_func h y")
    case False
    with Cons.prems have
      "populate t table hint resolve strsym h rest index funcs rs strings =
         Inr (index', funcs', rs', strings')"
      by simp
    from Cons.IH [OF this] False show ?thesis by (simp add: patched_funcs_def)
  next
    case True
    let ?ch = "patched_funcs h rest"
    let ?name = "funcname_of h hint y"
    from True have ch: "patched_funcs h (y # rest) = y # ?ch" by (simp add: patched_funcs_def)
    from Cons.prems True obtain result where
      lk: "lookup_symbol table h hint y = Some result"
      by (cases "lookup_symbol table h hint y") auto
    from Cons.prems True lk have big: "PATCH_INSN_SIZE t \<le> result_size result"
      and room: "index < length funcs"
      by (auto split: if_splits)
    obtain strings1 addend where off: "offset_of_string strings ?name = (strings1, addend)"
      by (cases "offset_of_string strings ?name")
    let ?funcs1 = "funcs[index := fill_entry t resolve result (st_size (syms h y)) (funcs ! index)]"
    let ?rs1 = "rs @ [func_rela t y index, name_rela t strsym index addend]"
    from Cons.prems True lk big room off have run:
      "populate t table hint resolve strsym h rest (index + 1) ?funcs1 ?rs1 strings1 =
         Inr (index', funcs', rs', strings')"
      by simp
    from Cons.IH [OF run] obtain ts new where
      idx: "index' = index + 1 + length ?ch"
      and len: "length funcs' = length funcs"
      and low: "\<forall>j<index + 1. funcs' ! j = ?funcs1 ! j"
      and str: "strings' = strings1 @ ts"
      and rs': "rs' = ?rs1 @ new" and lnew: "length new = 2 * length ?ch"
      and em: "emitted t table hint resolve strsym h ?funcs1 funcs' new strings' (index + 1) ?ch"
      by auto
    from offset_of_string_spec [OF off] obtain ts0 a where
      s1: "strings1 = strings @ ts0" and a: "addend = int a"
      and so: "string_offset strings1 ?name 0 = Some a"
      by blast
    let ?new = "[func_rela t y index, name_rela t strsym index addend] @ new"
    have first: "funcs' ! index = fill_entry t resolve result (st_size (syms h y)) (funcs ! index)"
      using low room by simp
    have so': "string_offset strings' ?name 0 = Some a"
      unfolding str by (rule string_offset_append [OF so])
    have "emitted t table hint resolve strsym h funcs funcs' ?new strings' index (y # ?ch)"
      unfolding emitted_def
    proof (intro allI impI)
      fix i assume i: "i < length (y # ?ch)"
      show "\<exists>result a.
        lookup_symbol table h hint ((y # ?ch) ! i) = Some result \<and>
        PATCH_INSN_SIZE t \<le> result_size result \<and>
        index + i < length funcs \<and>
        funcs' ! (index + i) =
          fill_entry t resolve result (st_size (syms h ((y # ?ch) ! i))) (funcs ! (index + i)) \<and>
        ?new ! (2 * i) = func_rela t ((y # ?ch) ! i) (index + i) \<and>
        ?new ! (2 * i + 1) = name_rela t strsym (index + i) (int a) \<and>
        string_offset strings' (funcname_of h hint ((y # ?ch) ! i)) 0 = Some a"
      proof (cases i)
        case 0
        with lk big room first so' a show ?thesis by simp
      next
        case (Suc k)
        with i have k: "k < length ?ch" by simp
        from em [unfolded emitted_def, rule_format, OF k] obtain result' a' where
          e: "lookup_symbol table h hint (?ch ! k) = Some result'"
            "PATCH_INSN_SIZE t \<le> result_size result'"
            "index + 1 + k < length ?funcs1"
            "funcs' ! (index + 1 + k) =
               fill_entry t resolve result' (st_size (syms h (?ch ! k))) (?funcs1 ! (index + 1 + k))"
            "new ! (2 * k) = func_rela t (?ch ! k) (index + 1 + k)"
            "new ! (2 * k + 1) = name_rela t strsym (index + 1 + k) (int a')"
            "string_offset strings' (funcname_of h hint (?ch ! k)) 0 = Some a'"
          by blast
        from e(3) have "?funcs1 ! (index + 1 + k) = funcs ! (index + 1 + k)" by simp
        with e Suc show ?thesis by simp
      qed
    qed
    moreover have "\<forall>j<index. funcs' ! j = funcs ! j" using low by simp
    moreover have "rs' = rs @ ?new" using rs' by simp
    moreover have "length ?new = 2 * length (y # ?ch)" using lnew by simp
    moreover have "\<exists>ts. strings' = strings @ ts" using str s1 by simp
    ultimately show ?thesis using idx len ch by auto
  qed
qed

lemma create_section_pair_syms [simp]:
  "syms (create_section_pair h sec relasec name entsize nr) = syms h"
  by (simp add: create_section_pair_def upd_sec_def Let_def)

lemma create_section_pair_relas [simp]:
  "relas (secs (create_section_pair h sec relasec name entsize nr) relasec) = []"
  by (simp add: create_section_pair_def upd_sec_def Let_def zero_section_def)

lemma is_patched_func_frame:
  "syms h' = syms h \<Longrightarrow> is_patched_func h' = is_patched_func h"
  by (rule ext) (simp add: is_patched_func_def)

lemma patched_funcs_frame: "syms h' = syms h \<Longrightarrow> patched_funcs h' ys = patched_funcs h ys"
  using is_patched_func_frame [of h' h] by (simp add: patched_funcs_def)

lemma lookup_symbol_frame:
  "syms h' = syms h \<Longrightarrow> lookup_symbol table h' hint y = lookup_symbol table h hint y"
  by (simp add: lookup_symbol_def)

lemma funcname_of_frame: "syms h' = syms h \<Longrightarrow> funcname_of h' hint y = funcname_of h hint y"
  by (simp add: funcname_of_def)

lemma find_symbol_by_name_frame:
  "syms h' = syms h \<Longrightarrow> find_symbol_by_name h' ys name = find_symbol_by_name h ys name"
  by (simp add: find_symbol_by_name_def)

text \<open>
  Claim C2. Let \<^verbatim>\<open>xsplice_create_patches_sections\<close> return, let the sizes and
  addresses fit the fields they are stored into, and let the two new sections be distinct
  objects. Then the model has two more sections: \<^verbatim>\<open>.xsplice.funcs\<close>, of type
  \<^verbatim>\<open>SHT_PROGBITS\<close>, whose entry size is the size of a record and whose size is that
  of one record per \<^verbatim>\<open>CHANGED\<close> \<^verbatim>\<open>STT_FUNC\<close> symbol, and its relocation section
  \<^verbatim>\<open>.rela.xsplice.funcs\<close>, each pointing at the other. The array of \<^verbatim>\<open>.xsplice.funcs\<close>
  holds exactly one record for every \<^verbatim>\<open>CHANGED\<close> \<^verbatim>\<open>STT_FUNC\<close> symbol, in the order
  of the symbol list, and the relocation section holds exactly two relocations per record.
  In record \<open>i\<close>, \<^verbatim>\<open>old_addr\<close> is the looked-up address under \<^verbatim>\<open>--resolve\<close> and 0
  otherwise, \<^verbatim>\<open>old_size\<close> is the looked-up size, \<^verbatim>\<open>new_addr\<close> is 0,
  \<^verbatim>\<open>new_size\<close> is the \<^verbatim>\<open>st_size\<close> of the symbol and \<^verbatim>\<open>pad\<close> is zero. Relocation
  \<open>2 * i\<close> is a 64-bit absolute relocation at offset \<open>i\<close> times the record size, to
  the function symbol, with addend 0; relocation \<open>2 * i + 1\<close> is one at the name slot of
  the record, to the symbol \<^verbatim>\<open>.xsplice.strings\<close>, and its addend is the offset of the name
  (mangled with the file hint for a local symbol) in the string pool: the buffer that
  \<^verbatim>\<open>xsplice_build_strings_section_data\<close> lays out holds the name and its NUL there.
\<close>

theorem create_patches_sections_entries:
  assumes run: "xsplice_create_patches_sections t table h seclist symlist strings fresh sec
      relasec hint resolve = Inr out"
    and fit: "\<forall>y\<in>set symlist. is_patched_func h y \<longrightarrow> fields_fit t table h hint y"
    and apart: "sec \<noteq> relasec"
  shows "\<exists>strsym. find_symbol_by_name h symlist ''.xsplice.strings'' = Some strsym \<and>
     out_sections out = seclist @ [sec, relasec] \<and>
     sec_name (secs (out_heap out) sec) = ''.xsplice.funcs'' \<and>
     sh_type (secs (out_heap out) sec) = SHT_PROGBITS \<and>
     sh_flags (secs (out_heap out) sec) = SHF_ALLOC \<and>
     sh_addralign (secs (out_heap out) sec) = 8 \<and>
     sh_entsize (secs (out_heap out) sec) = sizeof_patch_func t \<and>
     sh_size (secs (out_heap out) sec) =
       sizeof_patch_func t * length (patched_funcs h symlist) \<and>
     d_size (secs (out_heap out) sec) =
       sizeof_patch_func t * length (patched_funcs h symlist) \<and>
     sec_rela (secs (out_heap out) sec) = Some relasec \<and>
     sec_name (secs (out_heap out) relasec) = ''.rela.xsplice.funcs'' \<and>
     sh_type (secs (out_heap out) relasec) = SHT_RELA \<and>
     sh_entsize (secs (out_heap out) relasec) = sizeof_GElf_Rela \<and>
     sh_addralign (secs (out_heap out) relasec) = 8 \<and>
     sec_base (secs (out_heap out) relasec) = Some sec \<and>
     length (out_funcs out) = length (patched_funcs h symlist) \<and>
     length (relas (secs (out_heap out) relasec)) = 2 * length (patched_funcs h symlist) \<and>
     (\<forall>i<length (patched_funcs h symlist).
        let y = patched_funcs h symlist ! i;
            entry = out_funcs out ! i;
            rela1 = relas (secs (out_heap out) relasec) ! (2 * i);
            rela2 = relas (secs (out_heap out) relasec) ! (2 * i + 1)
        in \<exists>result a.
             lookup_symbol table h hint y = Some result \<and>
             PATCH_INSN_SIZE t \<le> result_size result \<and>
             old_addr entry = (if resolve then result_value result else 0) \<and>
             old_size entry = result_size result \<and>
             new_addr entry = 0 \<and>
             new_size entry = st_size (syms h y) \<and>
             pad entry = replicate (length (pad (fresh i))) 0 \<and>
             func_name entry = func_name (fresh i) \<and>
             r_sym rela1 = Some y \<and> r_type rela1 = R_X86_64_64 \<and> r_addend rela1 = 0 \<and>
             r_offset rela1 = int (i * sizeof_patch_func t) \<and>
             r_sym rela2 = Some strsym \<and> r_type rela2 = R_X86_64_64 \<and>
             r_addend rela2 = int a \<and>
             r_offset rela2 = int (i * sizeof_patch_func t + offsetof_name t) \<and>
             string_offset (out_strings out) (funcname_of h hint y) 0 = Some a \<and>
             take (strlen (funcname_of h hint y) + 1) (drop a (strtab_of (out_strings out))) =
               strcpy (funcname_of h hint y))"
proof -
  let ?ch = "patched_funcs h symlist"
  let ?nr = "length ?ch"
  let ?h1 = "create_section_pair h sec relasec ''.xsplice.funcs'' (sizeof_patch_func t) ?nr"
  have fr: "syms ?h1 = syms h" by simp
  from run obtain strsym where
    str: "find_symbol_by_name ?h1 symlist ''.xsplice.strings'' = Some strsym"
    by (cases "find_symbol_by_name ?h1 symlist ''.xsplice.strings''")
      (simp_all add: xsplice_create_patches_sections_def Let_def)
  from run str obtain index funcs rs strings' where
    pop: "populate t table hint resolve strsym ?h1 symlist 0 (map fresh [0..<?nr]) [] strings =
        Inr (index, funcs, rs, strings')"
    and out: "out = \<lparr>out_heap = upd_sec ?h1 relasec (\<lambda>s. s\<lparr>relas := rs\<rparr>),
        out_sections = seclist @ [sec, relasec], out_funcs = funcs, out_strings = strings'\<rparr>"
    by (auto simp: xsplice_create_patches_sections_def Let_def split: sum.splits if_splits)
  have ch1: "patched_funcs ?h1 symlist = ?ch" by (rule patched_funcs_frame [OF fr])
  from populate_spec [OF pop] ch1 have
    len: "length funcs = ?nr" and lrs: "length rs = 2 * ?nr"
    and em: "emitted t table hint resolve strsym ?h1 (map fresh [0..<?nr]) funcs rs strings' 0 ?ch"
    by auto
  have rl: "relas (secs (out_heap out) relasec) = rs" by (simp add: out upd_sec_def)
  have fs: "out_funcs out = funcs" and ss: "out_strings out = strings'" by (simp_all add: out)
  have pair: "out_sections out = seclist @ [sec, relasec]"
    "sec_name (secs (out_heap out) sec) = ''.xsplice.funcs''"
    "sh_type (secs (out_heap out) sec) = SHT_PROGBITS"
    "sh_flags (secs (out_heap out) sec) = SHF_ALLOC"
    "sh_addralign (secs (out_heap out) sec) = 8"
    "sh_entsize (secs (out_heap out) sec) = sizeof_patch_func t"
    "sh_size (secs (out_heap out) sec) = sizeof_patch_func t * ?nr"
    "d_size (secs (out_heap out) sec) = sizeof_patch_func t * ?nr"
    "sec_rela (secs (out_heap out) sec) = Some relasec"
    "sec_name (secs (out_heap out) relasec) = ''.rela.xsplice.funcs''"
    "sh_type (secs (out_heap out) relasec) = SHT_RELA"
    "sh_entsize (secs (out_heap out) relasec) = sizeof_GElf_Rela"
    "sh_addralign (secs (out_heap out) relasec) = 8"
    "sec_base (secs (out_heap out) relasec) = Some sec"
    using apart
    by (simp_all add: out create_section_pair_def upd_sec_def Let_def zero_section_def)
  have each: "\<exists>result a.
      lookup_symbol table h hint (?ch ! i) = Some result \<and>
      PATCH_INSN_SIZE t \<le> result_size result \<and>
      old_addr (funcs ! i) = (if resolve then result_value result else 0) \<and>
      old_size (funcs ! i) = result_size result \<and>
      new_addr (funcs ! i) = 0 \<and>
      new_size (funcs ! i) = st_size (syms h (?ch ! i)) \<and>
      pad (funcs ! i) = replicate (length (pad (fresh i))) 0 \<and>
      func_name (funcs ! i) = func_name (fresh i) \<and>
      r_sym (rs ! (2 * i)) = Some (?ch ! i) \<and> r_type (rs ! (2 * i)) = R_X86_64_64 \<and>
      r_addend (rs ! (2 * i)) = 0 \<and>
      r_offset (rs ! (2 * i)) = int (i * sizeof_patch_func t) \<and>
      r_sym (rs ! (2 * i + 1)) = Some strsym \<and> r_type (rs ! (2 * i + 1)) = R_X86_64_64 \<and>
      r_addend (rs ! (2 * i + 1)) = int a \<and>
      r_offset (rs ! (2 * i + 1)) = int (i * sizeof_patch_func t + offsetof_name t) \<and>
      string_offset strings' (funcname_of h hint (?ch ! i)) 0 = Some a \<and>
      take (strlen (funcname_of h hint (?ch ! i)) + 1) (drop a (strtab_of strings')) =
        strcpy (funcname_of h hint (?ch ! i))"
    if i: "i < ?nr" for i
  proof -
    from em [unfolded emitted_def, rule_format, OF i] obtain result a where
      e: "lookup_symbol table ?h1 hint (?ch ! i) = Some result"
        "PATCH_INSN_SIZE t \<le> result_size result"
        "funcs ! (0 + i) =
           fill_entry t resolve result (st_size (syms ?h1 (?ch ! i))) (map fresh [0..<?nr] ! (0 + i))"
        "rs ! (2 * i) = func_rela t (?ch ! i) (0 + i)"
        "rs ! (2 * i + 1) = name_rela t strsym (0 + i) (int a)"
        "string_offset strings' (funcname_of ?h1 hint (?ch ! i)) 0 = Some a"
      by blast
    from i have mem: "?ch ! i \<in> set symlist" and pf: "is_patched_func h (?ch ! i)"
      using nth_mem [of i ?ch] by (auto simp: patched_funcs_def)
    from e(1) have lk: "lookup_symbol table h hint (?ch ! i) = Some result"
      by (simp add: lookup_symbol_frame [OF fr])
    from fit mem pf lk have bounds: "st_size (syms h (?ch ! i)) < 2 ^ size_bits t"
      "result_value result < 2 ^ addr_bits t" "result_size result < 2 ^ size_bits t"
      by (auto simp: fields_fit_def)
    from e(6) have so: "string_offset strings' (funcname_of h hint (?ch ! i)) 0 = Some a"
      by (simp add: funcname_of_frame [OF fr])
    from string_offset_strtab [OF so] have buf:
      "take (strlen (funcname_of h hint (?ch ! i)) + 1) (drop a (strtab_of strings')) =
         strcpy (funcname_of h hint (?ch ! i))"
      by simp
    from e(3) i have entry:
      "funcs ! i = fill_entry t resolve result (st_size (syms h (?ch ! i))) (fresh i)"
      by simp
    from e(4) have r1: "rs ! (2 * i) = func_rela t (?ch ! i) i" by simp
    from e(5) have r2: "rs ! Suc (2 * i) = name_rela t strsym i (int a)" by simp
    show ?thesis
      using lk e(2) bounds so buf
      by (intro exI [of _ result] exI [of _ a])
        (simp add: entry r1 r2 fill_entry_def func_rela_def name_rela_def)
  qed
  from str have "find_symbol_by_name h symlist ''.xsplice.strings'' = Some strsym"
    by (simp add: find_symbol_by_name_frame [OF fr])
  then show ?thesis
    using len lrs each pair by (simp add: rl fs ss Let_def)
qed

text \<open>
  Two changed functions, the global \<^verbatim>\<open>foo\<close> and the local \<^verbatim>\<open>bar\<close> of file
  \<^verbatim>\<open>a.c\<close>, an unchanged function and the section symbol of the string section; records
  of 64 bytes with the name slot at offset 32.
\<close>

definition emit_target :: target where
  "emit_target = \<lparr>PATCH_INSN_SIZE = 5, sizeof_patch_func = 64, offsetof_name = 32,
     addr_bits = 64, size_bits = 32\<rparr>"

definition emit_table :: lookup_table where
  "emit_table = \<lparr>
     lookup_local_symbol = (\<lambda>name hint.
       if name = ''bar'' \<and> hint = ''a.c'' then Some \<lparr>result_value = 8192, result_size = 32\<rparr>
       else None),
     lookup_global_symbol = (\<lambda>name.
       if name = ''foo'' then Some \<lparr>result_value = 4096, result_size = 48\<rparr> else None)\<rparr>"

definition emit_heap :: "(nat, nat) heap" where
  "emit_heap = \<lparr>secs = (\<lambda>_. zero_section),
     syms = (\<lambda>_. zero_symbol)
       (1 := zero_symbol\<lparr>sym_name := ''foo'', sym_type := STT_FUNC, sym_bind := STB_GLOBAL,
              sym_status := CHANGED, st_size := 40\<rparr>,
        2 := zero_symbol\<lparr>sym_name := ''bar'', sym_type := STT_FUNC, sym_bind := STB_LOCAL,
              sym_status := CHANGED, st_size := 24\<rparr>,
        3 := zero_symbol\<lparr>sym_name := ''baz'', sym_type := STT_FUNC, sym_bind := STB_GLOBAL,
              sym_status := SAME, st_size := 16\<rparr>,
        4 := zero_symbol\<lparr>sym_name := ''.xsplice.strings'', sym_type := STT_SECTION,
              sym_bind := STB_LOCAL\<rparr>)\<rparr>"

definition fresh_entry :: "nat \<Rightarrow> xsplice_patch_func" where
  "fresh_entry i = \<lparr>old_addr = 7, new_addr = 7, old_size = 7, new_size = 7, func_name = 7,
     pad = [255, 255]\<rparr>"

lemmas emit_defs = emit_target_def emit_table_def emit_heap_def fresh_entry_def
  zero_symbol_def zero_section_def is_patched_func_def patched_funcs_def lookup_symbol_def
  funcname_of_def mangle_local_symbol_def fields_fit_def strlen_def

theorem create_patches_sections_entries_witness:
  "\<exists>out. xsplice_create_patches_sections emit_target emit_table emit_heap [] [1, 2, 3, 4] []
       fresh_entry 10 11 ''a.c'' True = Inr out \<and>
     sec_name (secs (out_heap out) 10) = ''.xsplice.funcs'' \<and>
     sh_entsize (secs (out_heap out) 10) = 64 \<and> sh_size (secs (out_heap out) 10) = 128 \<and>
     sec_rela (secs (out_heap out) 10) = Some 11 \<and>
     sec_name (secs (out_heap out) 11) = ''.rela.xsplice.funcs'' \<and>
     sec_base (secs (out_heap out) 11) = Some 10 \<and>
     length (out_funcs out) = 2 \<and>
     old_addr (out_funcs out ! 0) = 4096 \<and> old_size (out_funcs out ! 0) = 48 \<and>
     new_addr (out_funcs out ! 0) = 0 \<and> new_size (out_funcs out ! 0) = 40 \<and>
     pad (out_funcs out ! 0) = [0, 0] \<and>
     old_addr (out_funcs out ! 1) = 8192 \<and> new_size (out_funcs out ! 1) = 24 \<and>
     map r_sym (relas (secs (out_heap out) 11)) = [Some 1, Some 4, Some 2, Some 4] \<and>
     map r_offset (relas (secs (out_heap out) 11)) = [0, 32, 64, 96] \<and>
     r_addend (relas (secs (out_heap out) 11) ! 3) = 4 \<and>
     take 8 (drop 4 (strtab_of (out_strings out))) = strcpy ''a.c#bar''"
proof -
  obtain out where run: "xsplice_create_patches_sections emit_target emit_table emit_heap []
      [1, 2, 3, 4] [] fresh_entry 10 11 ''a.c'' True = Inr out"
    by (simp add: xsplice_create_patches_sections_def create_section_pair_def
        find_symbol_by_name_def upd_sec_def offset_of_string_def pool_size_def Let_def emit_defs)
  have fit: "\<forall>y\<in>set [1, 2, 3, 4 :: nat].
      is_patched_func emit_heap y \<longrightarrow> fields_fit emit_target emit_table emit_heap ''a.c'' y"
    by (simp add: emit_defs)
  have ch: "patched_funcs emit_heap [1, 2, 3, 4] = [1, 2]" by (simp add: emit_defs)
  have apart: "(10::nat) \<noteq> 11" by simp
  note main = create_patches_sections_entries [OF run fit apart, unfolded ch]
  from main obtain strsym where
    str: "find_symbol_by_name emit_heap [1, 2, 3, 4] ''.xsplice.strings'' = Some strsym"
    and pair: "sec_name (secs (out_heap out) 10) = ''.xsplice.funcs''"
      "sh_entsize (secs (out_heap out) 10) = sizeof_patch_func emit_target"
      "sh_size (secs (out_heap out) 10) = sizeof_patch_func emit_target * length [1, 2 :: nat]"
      "sec_rela (secs (out_heap out) 10) = Some 11"
      "sec_name (secs (out_heap out) 11) = ''.rela.xsplice.funcs''"
      "sec_base (secs (out_heap out) 11) = Some 10"
    and lf: "length (out_funcs out) = 2"
    and lr: "length (relas (secs (out_heap out) 11)) = 4"
    and each: "\<forall>i<2.
        let y = [1, 2] ! i;
            entry = out_funcs out ! i;
            rela1 = relas (secs (out_heap out) 11) ! (2 * i);
            rela2 = relas (secs (out_heap out) 11) ! (2 * i + 1)
        in \<exists>result a.
             lookup_symbol emit_table emit_heap ''a.c'' y = Some result \<and>
             PATCH_INSN_SIZE emit_target \<le> result_size result \<and>
             old_addr entry = (if True then result_value result else 0) \<and>
             old_size entry = result_size result \<and>
             new_addr entry = 0 \<and>
             new_size entry = st_size (syms emit_heap y) \<and>
             pad entry = replicate (length (pad (fresh_entry i))) 0 \<and>
             func_name entry = func_name (fresh_entry i) \<and>
             r_sym rela1 = Some y \<and> r_type rela1 = R_X86_64_64 \<and> r_addend rela1 = 0 \<and>
             r_offset rela1 = int (i * sizeof_patch_func emit_target) \<and>
             r_sym rela2 = Some strsym \<and> r_type rela2 = R_X86_64_64 \<and>
             r_addend rela2 = int a \<and>
             r_offset rela2 = int (i * sizeof_patch_func emit_target + offsetof_name emit_target) \<and>
             string_offset (out_strings out) (funcname_of emit_heap ''a.c'' y) 0 = Some a \<and>
             take (strlen (funcname_of emit_heap ''a.c'' y) + 1)
               (drop a (strtab_of (out_strings out))) =
               strcpy (funcname_of emit_heap ''a.c'' y)"
    by auto
  from str have strsym: "strsym = 4" by (simp add: find_symbol_by_name_def emit_defs)
  have strings: "out_strings out = [''foo'', ''a.c#bar'']"
    using run
    by (auto simp: xsplice_create_patches_sections_def create_section_pair_def
        find_symbol_by_name_def upd_sec_def offset_of_string_def pool_size_def Let_def emit_defs)
  from each [rule_format, of 0] have e0:
    "old_addr (out_funcs out ! 0) = 4096" "old_size (out_funcs out ! 0) = 48"
    "new_addr (out_funcs out ! 0) = 0" "new_size (out_funcs out ! 0) = 40"
    "pad (out_funcs out ! 0) = [0, 0]"
    "r_sym (relas (secs (out_heap out) 11) ! 0) = Some 1"
    "r_offset (relas (secs (out_heap out) 11) ! 0) = 0"
    "r_sym (relas (secs (out_heap out) 11) ! 1) = Some 4"
    "r_offset (relas (secs (out_heap out) 11) ! 1) = 32"
    by (auto simp: Let_def emit_defs strsym)
  from each [rule_format, of 1] have e1:
    "old_addr (out_funcs out ! 1) = 8192" "new_size (out_funcs out ! 1) = 24"
    "r_sym (relas (secs (out_heap out) 11) ! 2) = Some 2"
    "r_offset (relas (secs (out_heap out) 11) ! 2) = 64"
    "r_sym (relas (secs (out_heap out) 11) ! 3) = Some 4"
    "r_offset (relas (secs (out_heap out) 11) ! 3) = 96"
    "r_addend (relas (secs (out_heap out) 11) ! 3) = 4"
    by (auto simp: Let_def emit_defs strsym strings numeral_2_eq_2 numeral_3_eq_3)
  have buf: "take 8 (drop 4 (strtab_of (out_strings out))) = strcpy ''a.c#bar''"
    by (simp add: strings strtab_of_def strcpy_def strlen_def)
  from lr obtain a b c d where rl: "relas (secs (out_heap out) 11) = [a, b, c, d]"
    by (auto simp: length_Suc_conv numeral_eq_Suc)
  from e0 e1 have
    "map r_sym (relas (secs (out_heap out) 11)) = [Some 1, Some 4, Some 2, Some 4]"
    "map r_offset (relas (secs (out_heap out) 11)) = [0, 32, 64, 96]"
    unfolding rl by (simp_all add: numeral_2_eq_2 numeral_3_eq_3)
  moreover from pair have "sh_entsize (secs (out_heap out) 10) = 64"
    "sh_size (secs (out_heap out) 10) = 128"
    by (simp_all add: emit_target_def)
  ultimately show ?thesis using run lf e0 e1 buf pair by simp
qed

end
